theory Spec2Isabelle
  imports Main "HOL-Library.Word" "HOL-Library.List_Lexorder"
begin

unbundle bit_operations_syntax

section \<open>libgwyfile: the GWY container format\<close>

text \<open>
  This theory embeds the core of \<^verbatim>\<open>gwyfile.c\<close>: the item/object tree with its cached
  sizes, the little-endian reader and writer, the conformance checker, and the ownership
  operations that keep the sizes up to date.

  Conventions of the embedding.
  \<^item> The host is an LP64 little-endian one (\<^verbatim>\<open>WORDS_BIGENDIAN\<close> undefined): \<^verbatim>\<open>size_t\<close>
    counts are natural numbers, \<^verbatim>\<open>unsigned int\<close> and \<^verbatim>\<open>uint32_t\<close> arithmetic is written
    with its reduction modulo \<open>2^32\<close> (\<open>unsigned_int\<close>), and the \<^verbatim>\<open>size_t\<close> results of the
    public size functions and of the writer's size test with their reduction modulo
    \<open>2^64\<close> (\<open>size_t\<close>, \<open>size_t_sub\<close>).
  \<^item> A C string is the list of its bytes before the terminating nul.
  \<^item> A \<^verbatim>\<open>double\<close> is its IEEE 754 bit pattern (a 64-bit word); the code only moves it and
    inspects its exponent bits.
  \<^item> An input stream is the list of bytes still to be read; the end of the list is the
    end of file, and no other I/O error occurs.  An output stream is the list of bytes
    written; writing never fails.  \<^verbatim>\<open>malloc\<close> never fails.
  \<^item> Error messages are not modelled: an error is its domain and its code.
  \<^item> A failed \<^verbatim>\<open>assert\<close> is the outcome \<open>Abort\<close>.
\<close>

subsection \<open>Constants, errors\<close>

type_synonym byte = "8 word"
type_synonym cstring = "byte list"
type_synonym stream = "byte list"

definition GWYFILE_MAX_DEPTH :: nat where
  "GWYFILE_MAX_DEPTH = 200"

definition GWYFILE_MAGIC_HEADER2 :: "byte list" where
  "GWYFILE_MAGIC_HEADER2 = [0x47, 0x57, 0x59, 0x50]"

definition GWYFILE_MAGIC_LEN :: nat where
  "GWYFILE_MAGIC_LEN = 4"

datatype GwyfileErrorDomain =
    GWYFILE_ERROR_DOMAIN_SYSTEM
  | GWYFILE_ERROR_DOMAIN_DATA
  | GWYFILE_ERROR_DOMAIN_VALIDITY
  | GWYFILE_ERROR_DOMAIN_WARNING

definition GWYFILE_ERROR_MAGIC :: int where "GWYFILE_ERROR_MAGIC = 0"
definition GWYFILE_ERROR_ITEM_TYPE :: int where "GWYFILE_ERROR_ITEM_TYPE = 1"
definition GWYFILE_ERROR_CONFINEMENT :: int where "GWYFILE_ERROR_CONFINEMENT = 2"
definition GWYFILE_ERROR_ARRAY_SIZE :: int where "GWYFILE_ERROR_ARRAY_SIZE = 3"
definition GWYFILE_ERROR_DUPLICATE_NAME :: int where "GWYFILE_ERROR_DUPLICATE_NAME = 4"
definition GWYFILE_ERROR_LONG_STRING :: int where "GWYFILE_ERROR_LONG_STRING = 5"
definition GWYFILE_ERROR_OBJECT_SIZE :: int where "GWYFILE_ERROR_OBJECT_SIZE = 6"
definition GWYFILE_ERROR_TOO_DEEP_NESTING :: int where "GWYFILE_ERROR_TOO_DEEP_NESTING = 9"

definition GWYFILE_INVALID_UTF8_NAME :: int where "GWYFILE_INVALID_UTF8_NAME = 0"
definition GWYFILE_INVALID_UTF8_TYPE :: int where "GWYFILE_INVALID_UTF8_TYPE = 1"
definition GWYFILE_INVALID_UTF8_STRING :: int where "GWYFILE_INVALID_UTF8_STRING = 2"
definition GWYFILE_INVALID_DOUBLE :: int where "GWYFILE_INVALID_DOUBLE = 3"

definition GWYFILE_WARNING_TYPE_IDENTIFIER :: int where "GWYFILE_WARNING_TYPE_IDENTIFIER = 0"
definition GWYFILE_WARNING_EMPTY_NAME :: int where "GWYFILE_WARNING_EMPTY_NAME = 1"

text \<open>\<^verbatim>\<open>GwyfileError\<close> without its message; \<open>Abort\<close> is a failed assertion.\<close>

datatype failure =
    GwyfileError (domain: GwyfileErrorDomain) (code: int)
  | Abort

definition gwyfile_set_error_overrun :: failure where
  "gwyfile_set_error_overrun = GwyfileError GWYFILE_ERROR_DOMAIN_DATA GWYFILE_ERROR_CONFINEMENT"

text \<open>
  \<^verbatim>\<open>gwyfile_set_error_fread\<close>: a short read of the modelled stream is always the end of
  file, so \<^verbatim>\<open>feof\<close> holds and the error is \<^verbatim>\<open>CONFINEMENT\<close>.
\<close>

definition gwyfile_set_error_fread :: failure where
  "gwyfile_set_error_fread = GwyfileError GWYFILE_ERROR_DOMAIN_DATA GWYFILE_ERROR_CONFINEMENT"

definition unsigned_int :: "nat \<Rightarrow> nat" where
  "unsigned_int n = n mod 2 ^ 32"

definition size_t :: "nat \<Rightarrow> nat" where
  "size_t n = n mod 2 ^ 64"

definition SIZE_MAX :: nat where
  "SIZE_MAX = 2 ^ 64 - 1"

subsection \<open>Item types\<close>

definition GWYFILE_ITEM_BOOL :: byte where "GWYFILE_ITEM_BOOL = 0x62"
definition GWYFILE_ITEM_CHAR :: byte where "GWYFILE_ITEM_CHAR = 0x63"
definition GWYFILE_ITEM_INT32 :: byte where "GWYFILE_ITEM_INT32 = 0x69"
definition GWYFILE_ITEM_INT64 :: byte where "GWYFILE_ITEM_INT64 = 0x71"
definition GWYFILE_ITEM_DOUBLE :: byte where "GWYFILE_ITEM_DOUBLE = 0x64"
definition GWYFILE_ITEM_STRING :: byte where "GWYFILE_ITEM_STRING = 0x73"
definition GWYFILE_ITEM_OBJECT :: byte where "GWYFILE_ITEM_OBJECT = 0x6F"
definition GWYFILE_ITEM_CHAR_ARRAY :: byte where "GWYFILE_ITEM_CHAR_ARRAY = 0x43"
definition GWYFILE_ITEM_INT32_ARRAY :: byte where "GWYFILE_ITEM_INT32_ARRAY = 0x49"
definition GWYFILE_ITEM_INT64_ARRAY :: byte where "GWYFILE_ITEM_INT64_ARRAY = 0x51"
definition GWYFILE_ITEM_DOUBLE_ARRAY :: byte where "GWYFILE_ITEM_DOUBLE_ARRAY = 0x44"
definition GWYFILE_ITEM_STRING_ARRAY :: byte where "GWYFILE_ITEM_STRING_ARRAY = 0x53"
definition GWYFILE_ITEM_OBJECT_ARRAY :: byte where "GWYFILE_ITEM_OBJECT_ARRAY = 0x4F"

lemmas item_type_defs =
  GWYFILE_ITEM_BOOL_def GWYFILE_ITEM_CHAR_def GWYFILE_ITEM_INT32_def GWYFILE_ITEM_INT64_def
  GWYFILE_ITEM_DOUBLE_def GWYFILE_ITEM_STRING_def GWYFILE_ITEM_OBJECT_def
  GWYFILE_ITEM_CHAR_ARRAY_def GWYFILE_ITEM_INT32_ARRAY_def GWYFILE_ITEM_INT64_ARRAY_def
  GWYFILE_ITEM_DOUBLE_ARRAY_def GWYFILE_ITEM_STRING_ARRAY_def GWYFILE_ITEM_OBJECT_ARRAY_def

text \<open>\<^verbatim>\<open>"bciqdsoCIQDSO"\<close> and \<^verbatim>\<open>"CIQDSO"\<close>; \<^verbatim>\<open>type && strchr(...)\<close>.\<close>

definition valid_types :: "byte list" where
  "valid_types = [0x62, 0x63, 0x69, 0x71, 0x64, 0x73, 0x6F, 0x43, 0x49, 0x51, 0x44, 0x53, 0x4F]"

definition array_types :: "byte list" where
  "array_types = [0x43, 0x49, 0x51, 0x44, 0x53, 0x4F]"

definition gwyfile_item_type_is_valid :: "byte \<Rightarrow> bool" where
  "gwyfile_item_type_is_valid t = (t \<noteq> 0 \<and> t \<in> set valid_types)"

definition gwyfile_item_type_is_array :: "byte \<Rightarrow> bool" where
  "gwyfile_item_type_is_array t = (t \<noteq> 0 \<and> t \<in> set array_types)"

subsection \<open>The tree of items and objects\<close>

text \<open>
  \<^verbatim>\<open>struct _GwyfileItem\<close> and \<^verbatim>\<open>struct _GwyfileObject\<close> as values.  The type tag and the
  union \<^verbatim>\<open>v\<close> are one datatype; an object's array \<^verbatim>\<open>items\<close> with its count \<^verbatim>\<open>nitems\<close> is a
  list (the capacity \<^verbatim>\<open>nallocitems\<close> is not kept).  In a tree value the \<^verbatim>\<open>owner\<close> links
  are the nesting itself; the operations that depend on the links being set are modelled
  on an explicit store further below.
\<close>

datatype item_value =
    Vb (v_b: bool)
  | Vc (v_c: byte)
  | Vi (v_i: "32 word")
  | Vq (v_q: "64 word")
  | Vd (v_d: "64 word")
  | Vs (v_s: cstring)
  | Vo (v_o: GwyfileObject)
  | Vca (v_ca: "byte list")
  | Via (v_ia: "32 word list")
  | Vqa (v_qa: "64 word list")
  | Vda (v_da: "64 word list")
  | Vsa (v_sa: "cstring list")
  | Voa (v_oa: "GwyfileObject list")
and GwyfileItem =
    GwyfileItem (item_array_length: nat) (item_name: cstring) (item_name_len: nat)
      (item_data_owned: bool) (item_data_size: nat) (item_v: item_value)
and GwyfileObject =
    GwyfileObject (object_name: cstring) (object_name_len: nat)
      (object_items: "GwyfileItem list") (object_data_size: nat)

fun value_type :: "item_value \<Rightarrow> byte" where
  "value_type (Vb _) = GWYFILE_ITEM_BOOL"
| "value_type (Vc _) = GWYFILE_ITEM_CHAR"
| "value_type (Vi _) = GWYFILE_ITEM_INT32"
| "value_type (Vq _) = GWYFILE_ITEM_INT64"
| "value_type (Vd _) = GWYFILE_ITEM_DOUBLE"
| "value_type (Vs _) = GWYFILE_ITEM_STRING"
| "value_type (Vo _) = GWYFILE_ITEM_OBJECT"
| "value_type (Vca _) = GWYFILE_ITEM_CHAR_ARRAY"
| "value_type (Via _) = GWYFILE_ITEM_INT32_ARRAY"
| "value_type (Vqa _) = GWYFILE_ITEM_INT64_ARRAY"
| "value_type (Vda _) = GWYFILE_ITEM_DOUBLE_ARRAY"
| "value_type (Vsa _) = GWYFILE_ITEM_STRING_ARRAY"
| "value_type (Voa _) = GWYFILE_ITEM_OBJECT_ARRAY"

definition item_type :: "GwyfileItem \<Rightarrow> byte" where
  "item_type it = value_type (item_v it)"

text \<open>
  The sizes that \<^verbatim>\<open>gwyfile_object_size\<close> and \<^verbatim>\<open>gwyfile_item_size\<close> return for a node of the
  tree: \<^verbatim>\<open>name_len+1 + sizeof(uint32_t) + data_size\<close> with \<^verbatim>\<open>name_len+1\<close> in \<^verbatim>\<open>uint32_t\<close>
  arithmetic, and \<^verbatim>\<open>1 + name_len+1 + data_size\<close> with \<^verbatim>\<open>1 + name_len+1\<close> in
  \<^verbatim>\<open>unsigned int\<close> arithmetic.  The last addition, of the \<^verbatim>\<open>size_t\<close> field \<^verbatim>\<open>data_size\<close>, is
  written here without its reduction modulo \<open>2^64\<close>: it comes into play only for a payload
  of more than \<open>2^64 - 2^33\<close> bytes.  (The public functions, which take a pointer that may
  be null, are modelled with the store, and with that reduction.)
\<close>

definition object_size :: "GwyfileObject \<Rightarrow> nat" where
  "object_size object = unsigned_int (object_name_len object + 1) + 4 + object_data_size object"

definition item_size :: "GwyfileItem \<Rightarrow> nat" where
  "item_size item = unsigned_int (1 + item_name_len item + 1) + item_data_size item"

subsection \<open>Little-endian primitives\<close>

fun le_bytes :: "nat \<Rightarrow> nat \<Rightarrow> byte list" where
  "le_bytes 0 x = []"
| "le_bytes (Suc n) x = of_nat (x mod 256) # le_bytes n (x div 256)"

lemma le_bytes_4:
  "le_bytes 4 x = [of_nat (x mod 256), of_nat (x div 256 mod 256),
     of_nat (x div 256 div 256 mod 256), of_nat (x div 256 div 256 div 256 mod 256)]"
proof -
  have "le_bytes (Suc (Suc (Suc (Suc 0)))) x = [of_nat (x mod 256), of_nat (x div 256 mod 256),
     of_nat (x div 256 div 256 mod 256), of_nat (x div 256 div 256 div 256 mod 256)]"
    by simp
  moreover have "(4::nat) = Suc (Suc (Suc (Suc 0)))" by simp
  ultimately show ?thesis by metis
qed

fun le_nat :: "byte list \<Rightarrow> nat" where
  "le_nat [] = 0"
| "le_nat (b # bs) = unat b + 256 * le_nat bs"

subsection \<open>Writer\<close>

text \<open>
  A write function returns the bytes it has put on the stream and \<open>None\<close> on success or
  the error.  \<^verbatim>\<open>fwrite(name, 1, name_len+1, stream)\<close> writes the name with its nul;
  \<^verbatim>\<open>gwyfile_fwrite_le\<close> of one 32-bit quantity writes its four low bytes, least
  significant first.  The subtraction in the size test of \<^verbatim>\<open>gwyfile_object_fwrite\<close> is
  \<^verbatim>\<open>size_t\<close> arithmetic.
\<close>

definition size_t_sub :: "nat \<Rightarrow> nat \<Rightarrow> nat" where
  "size_t_sub a b = (2 ^ 64 + a - b) mod 2 ^ 64"

definition fwrite_name :: "cstring \<Rightarrow> nat \<Rightarrow> byte list" where
  "fwrite_name name name_len = take (unsigned_int (name_len + 1)) (name @ [0])"

fun gwyfile_object_fwrite :: "GwyfileObject \<Rightarrow> byte list \<times> failure option"
  and fwrite_items :: "GwyfileItem list \<Rightarrow> byte list \<times> failure option"
  and gwyfile_item_fwrite :: "GwyfileItem \<Rightarrow> byte list \<times> failure option"
  and fwrite_objects :: "nat \<Rightarrow> GwyfileObject list \<Rightarrow> byte list \<times> failure option"
where
  "gwyfile_object_fwrite (GwyfileObject name name_len items data_size) =
     (if data_size > size_t_sub (size_t_sub 0xffffffff 4) name_len
      then ([], Some (GwyfileError GWYFILE_ERROR_DOMAIN_DATA GWYFILE_ERROR_OBJECT_SIZE))
      else (case fwrite_items items of
              (out, r) \<Rightarrow> (fwrite_name name name_len @ le_bytes 4 data_size @ out, r)))"
| "fwrite_items [] = ([], None)"
| "fwrite_items (item # items) =
     (case gwyfile_item_fwrite item of
        (out, Some e) \<Rightarrow> (out, Some e)
      | (out, None) \<Rightarrow> (case fwrite_items items of (out', r) \<Rightarrow> (out @ out', r)))"
| "gwyfile_item_fwrite (GwyfileItem alen name name_len data_owned data_size val) =
     (let hdr = fwrite_name name name_len @ [value_type val] in
      case val of
        Vb b \<Rightarrow> (hdr @ [if b then 1 else 0], None)
      | Vc c \<Rightarrow> (hdr @ [c], None)
      | Vi i \<Rightarrow> (hdr @ le_bytes 4 (unat i), None)
      | Vq q \<Rightarrow> (hdr @ le_bytes 8 (unat q), None)
      | Vd d \<Rightarrow> (hdr @ le_bytes 8 (unat d), None)
      | Vs s \<Rightarrow> (hdr @ s @ [0], None)
      | Vo object \<Rightarrow> (case gwyfile_object_fwrite object of (out, r) \<Rightarrow> (hdr @ out, r))
      | Vca ca \<Rightarrow> (hdr @ le_bytes 4 alen @ take alen ca, None)
      | Via ia \<Rightarrow> (hdr @ le_bytes 4 alen @ concat (map (\<lambda>x. le_bytes 4 (unat x)) (take alen ia)), None)
      | Vqa qa \<Rightarrow> (hdr @ le_bytes 4 alen @ concat (map (\<lambda>x. le_bytes 8 (unat x)) (take alen qa)), None)
      | Vda da \<Rightarrow> (hdr @ le_bytes 4 alen @ concat (map (\<lambda>x. le_bytes 8 (unat x)) (take alen da)), None)
      | Vsa sa \<Rightarrow> (hdr @ le_bytes 4 alen @ concat (map (\<lambda>s. s @ [0]) (take alen sa)), None)
      | Voa oa \<Rightarrow> (case fwrite_objects alen oa of (out, r) \<Rightarrow> (hdr @ le_bytes 4 alen @ out, r)))"
| "fwrite_objects 0 oa = ([], None)"
| "fwrite_objects (Suc n) [] = ([], Some Abort)"
| "fwrite_objects (Suc n) (object # oa) =
     (case gwyfile_object_fwrite object of
        (out, Some e) \<Rightarrow> (out, Some e)
      | (out, None) \<Rightarrow> (case fwrite_objects n oa of (out', r) \<Rightarrow> (out @ out', r)))"

definition gwyfile_fwrite :: "GwyfileObject \<Rightarrow> byte list \<times> failure option" where
  "gwyfile_fwrite object =
     (case gwyfile_object_fwrite object of (out, r) \<Rightarrow> (GWYFILE_MAGIC_HEADER2 @ out, r))"

subsection \<open>Reader primitives\<close>

text \<open>
  A read function takes the stream and returns the error, or its result with the rest of
  the stream.  \<^verbatim>\<open>gwyfile_check_size\<close> takes \<^verbatim>\<open>*max_size\<close> and returns its new value;
  \<^verbatim>\<open>fread\<close> delivers as many of the requested bytes as the stream still holds;
  \<^verbatim>\<open>gwyfile_fread_le\<close> succeeds when all \<^verbatim>\<open>nitems\<close> items of \<^verbatim>\<open>itemsize\<close> bytes were read, and
  \<open>chunks\<close> cuts its buffer into the items.  \<open>fread_string_loop\<close> is the \<^verbatim>\<open>do ... while (c)\<close>
  loop of \<^verbatim>\<open>gwyfile_fread_string\<close> with its locals \<^verbatim>\<open>len\<close>, \<^verbatim>\<open>size\<close> (here \<open>bufsize\<close>) and the
  buffer \<^verbatim>\<open>s\<close>; \<^verbatim>\<open>fgetc\<close> returning \<^verbatim>\<open>EOF\<close> is the empty stream.  The string is returned
  without its nul, with the new \<^verbatim>\<open>*max_size\<close>.
\<close>

definition gwyfile_check_size :: "nat \<Rightarrow> nat \<Rightarrow> failure + nat" where
  "gwyfile_check_size max_size sz =
     (if max_size < sz then Inl gwyfile_set_error_overrun else Inr (max_size - sz))"

definition fread :: "nat \<Rightarrow> stream \<Rightarrow> byte list \<times> stream" where
  "fread n s = (take n s, drop n s)"

definition gwyfile_fread_le :: "nat \<Rightarrow> nat \<Rightarrow> stream \<Rightarrow> (byte list \<times> stream) option" where
  "gwyfile_fread_le itemsize nitems s =
     (if length s < itemsize * nitems then None
      else Some (take (itemsize * nitems) s, drop (itemsize * nitems) s))"

fun chunks :: "nat \<Rightarrow> nat \<Rightarrow> byte list \<Rightarrow> byte list list" where
  "chunks itemsize 0 bs = []"
| "chunks itemsize (Suc n) bs = take itemsize bs # chunks itemsize n (drop itemsize bs)"

fun fread_string_loop :: "stream \<Rightarrow> nat \<Rightarrow> nat \<Rightarrow> nat \<Rightarrow> byte list
    \<Rightarrow> failure + (cstring \<times> nat \<times> stream)" where
  "fread_string_loop [] max_size len bufsize s = Inl gwyfile_set_error_fread"
| "fread_string_loop (c # stream) max_size len bufsize s =
     (if len = bufsize then
        (if len = max_size then Inl gwyfile_set_error_overrun
         else if bufsize \<ge> 0x80000000
         then Inl (GwyfileError GWYFILE_ERROR_DOMAIN_DATA GWYFILE_ERROR_LONG_STRING)
         else (let bufsize' = min (max (2 * bufsize) 16) max_size in
               if c \<noteq> 0 then fread_string_loop stream max_size (len + 1) bufsize' (s @ [c])
               else Inr (s, len + 1, stream)))
      else
        (if c \<noteq> 0 then fread_string_loop stream max_size (len + 1) bufsize (s @ [c])
         else Inr (s, len + 1, stream)))"

definition gwyfile_fread_string :: "stream \<Rightarrow> nat \<Rightarrow> failure + (cstring \<times> nat \<times> stream)" where
  "gwyfile_fread_string stream max_size =
     (if max_size = 0 then Inl gwyfile_set_error_overrun
      else case fread_string_loop stream max_size 0 0 [] of
             Inl e \<Rightarrow> Inl e
           | Inr (s, len, stream') \<Rightarrow> Inr (s, max_size - len, stream'))"


lemma fread_string_loop_len:
  "fread_string_loop stream max_size len bufsize s = Inr (r, len', stream') \<Longrightarrow> len \<le> bufsize \<Longrightarrow> bufsize \<le> max_size \<Longrightarrow>
     len < len' \<and> len' \<le> max_size \<and> length stream' < length stream"
proof (induction stream arbitrary: len bufsize s)
  case Nil
  then show ?case by simp
next
  case (Cons c stream)
  show ?case
  proof (cases "len = bufsize")
    case True
    with Cons.prems have a: "len \<noteq> max_size" "\<not> bufsize \<ge> 0x80000000" by (auto split: if_splits)
    let ?bufsize' = "min (max (2 * bufsize) 16) max_size"
    have b: "len + 1 \<le> ?bufsize'" "?bufsize' \<le> max_size" using True a Cons.prems by auto
    show ?thesis
    proof (cases "c = 0")
      case True
      then show ?thesis using Cons.prems \<open>len = bufsize\<close> a by (auto simp: Let_def)
    next
      case False
      then have "fread_string_loop stream max_size (len + 1) ?bufsize' (s @ [c]) = Inr (r, len', stream')"
        using Cons.prems \<open>len = bufsize\<close> a by (simp add: Let_def)
      from Cons.IH[OF this b] show ?thesis by simp
    qed
  next
    case False
    with Cons.prems have b: "len + 1 \<le> bufsize" by simp
    show ?thesis
    proof (cases "c = 0")
      case True
      then show ?thesis using Cons.prems False by (auto simp: Let_def)
    next
      case c: False
      then have "fread_string_loop stream max_size (len + 1) bufsize (s @ [c]) = Inr (r, len', stream')"
        using Cons.prems False by (simp add: Let_def)
      from Cons.IH[OF this b Cons.prems(3)] show ?thesis by simp
    qed
  qed
qed

lemma gwyfile_fread_string_max:
  "gwyfile_fread_string stream max_size = Inr (s, max_size', stream') \<Longrightarrow> max_size' < max_size"
  unfolding gwyfile_fread_string_def
  by (auto split: if_splits sum.splits dest!: fread_string_loop_len)


subsection \<open>Constructors\<close>

text \<open>
  The internal constructors fill in the cached sizes.  \<^verbatim>\<open>gwyfile_object_append\<close> on a tree
  value adds the item at the end and increases the data size of the object by
  \<^verbatim>\<open>gwyfile_item_size(item)\<close>; the assertion of \<^verbatim>\<open>gwyfile_object_propagate_size_change\<close> fails
  when the \<^verbatim>\<open>size_t\<close> sum wraps.

  \<^verbatim>\<open>gwyfile_object_find_duplicate_item\<close> sorts the array \<^verbatim>\<open>object->items\<close> itself with \<^verbatim>\<open>qsort\<close>
  and \<^verbatim>\<open>strcmp\<close> on the names (the lexicographic order of the bytes as unsigned
  characters), then compares neighbours.  It returns the name found, if any; the object
  with its permuted array is returned along with it.  \<^verbatim>\<open>qsort\<close> is modelled by a stable
  sort: the order of items with equal names is not determined by C, but then the function
  reports a duplicate and the reader frees the object.
\<close>

definition gwyfile_object_new_internal :: "cstring \<Rightarrow> GwyfileObject" where
  "gwyfile_object_new_internal name = GwyfileObject name (unsigned_int (length name)) [] 0"

definition gwyfile_item_new_internal :: "cstring \<Rightarrow> item_value \<Rightarrow> GwyfileItem" where
  "gwyfile_item_new_internal name val = GwyfileItem 0 name (unsigned_int (length name)) True 0 val"

definition set_size :: "nat \<Rightarrow> nat \<Rightarrow> GwyfileItem \<Rightarrow> GwyfileItem" where
  "set_size data_size array_length item =
     GwyfileItem array_length (item_name item) (item_name_len item) (item_data_owned item)
       data_size (item_v item)"

definition gwyfile_item_new_internal_bool :: "cstring \<Rightarrow> bool \<Rightarrow> GwyfileItem" where
  "gwyfile_item_new_internal_bool name val = set_size 1 0 (gwyfile_item_new_internal name (Vb val))"

definition gwyfile_item_new_internal_char :: "cstring \<Rightarrow> byte \<Rightarrow> GwyfileItem" where
  "gwyfile_item_new_internal_char name val = set_size 1 0 (gwyfile_item_new_internal name (Vc val))"

definition gwyfile_item_new_internal_int32 :: "cstring \<Rightarrow> 32 word \<Rightarrow> GwyfileItem" where
  "gwyfile_item_new_internal_int32 name val = set_size 4 0 (gwyfile_item_new_internal name (Vi val))"

definition gwyfile_item_new_internal_int64 :: "cstring \<Rightarrow> 64 word \<Rightarrow> GwyfileItem" where
  "gwyfile_item_new_internal_int64 name val = set_size 8 0 (gwyfile_item_new_internal name (Vq val))"

definition gwyfile_item_new_internal_double :: "cstring \<Rightarrow> 64 word \<Rightarrow> GwyfileItem" where
  "gwyfile_item_new_internal_double name val = set_size 8 0 (gwyfile_item_new_internal name (Vd val))"

definition gwyfile_item_new_internal_string :: "cstring \<Rightarrow> cstring \<Rightarrow> GwyfileItem" where
  "gwyfile_item_new_internal_string name val =
     set_size (length val + 1) 0 (gwyfile_item_new_internal name (Vs val))"

definition gwyfile_item_new_internal_object :: "cstring \<Rightarrow> GwyfileObject \<Rightarrow> GwyfileItem" where
  "gwyfile_item_new_internal_object name val =
     set_size (object_size val) 0 (gwyfile_item_new_internal name (Vo val))"

definition gwyfile_item_new_internal_char_array :: "cstring \<Rightarrow> byte list \<Rightarrow> nat \<Rightarrow> GwyfileItem" where
  "gwyfile_item_new_internal_char_array name val array_length =
     set_size (4 + array_length) array_length (gwyfile_item_new_internal name (Vca val))"

definition gwyfile_item_new_internal_int32_array :: "cstring \<Rightarrow> 32 word list \<Rightarrow> nat \<Rightarrow> GwyfileItem" where
  "gwyfile_item_new_internal_int32_array name val array_length =
     set_size (4 + array_length * 4) array_length (gwyfile_item_new_internal name (Via val))"

definition gwyfile_item_new_internal_int64_array :: "cstring \<Rightarrow> 64 word list \<Rightarrow> nat \<Rightarrow> GwyfileItem" where
  "gwyfile_item_new_internal_int64_array name val array_length =
     set_size (4 + array_length * 8) array_length (gwyfile_item_new_internal name (Vqa val))"

definition gwyfile_item_new_internal_double_array :: "cstring \<Rightarrow> 64 word list \<Rightarrow> nat \<Rightarrow> GwyfileItem" where
  "gwyfile_item_new_internal_double_array name val array_length =
     set_size (4 + array_length * 8) array_length (gwyfile_item_new_internal name (Vda val))"

definition gwyfile_item_new_internal_string_array :: "cstring \<Rightarrow> cstring list \<Rightarrow> nat \<Rightarrow> GwyfileItem" where
  "gwyfile_item_new_internal_string_array name val array_length =
     set_size (4 + sum_list (map (\<lambda>s. length s + 1) (take array_length val))) array_length
       (gwyfile_item_new_internal name (Vsa val))"

definition gwyfile_item_new_internal_object_array :: "cstring \<Rightarrow> GwyfileObject list \<Rightarrow> nat \<Rightarrow> GwyfileItem" where
  "gwyfile_item_new_internal_object_array name val array_length =
     set_size (4 + sum_list (map object_size (take array_length val))) array_length
       (gwyfile_item_new_internal name (Voa val))"

definition gwyfile_object_append :: "GwyfileObject \<Rightarrow> GwyfileItem \<Rightarrow> failure + GwyfileObject" where
  "gwyfile_object_append object item =
     (if object_data_size object + item_size item > SIZE_MAX then Inl Abort
      else Inr (GwyfileObject (object_name object) (object_name_len object)
                  (object_items object @ [item])
                  (object_data_size object + item_size item)))"

fun adjacent_duplicate :: "GwyfileItem list \<Rightarrow> cstring option" where
  "adjacent_duplicate (a # b # items) =
     (if item_name a = item_name b then Some (item_name a) else adjacent_duplicate (b # items))"
| "adjacent_duplicate items = None"

definition gwyfile_object_find_duplicate_item :: "GwyfileObject \<Rightarrow> cstring option \<times> GwyfileObject" where
  "gwyfile_object_find_duplicate_item object =
     (if length (object_items object) < 2 then (None, object)
      else (let items = sort_key item_name (object_items object) in
            (adjacent_duplicate items,
             GwyfileObject (object_name object) (object_name_len object) items
               (object_data_size object))))"

subsection \<open>Reader\<close>

text \<open>
  \<open>fread_item_header\<close> is the beginning of \<^verbatim>\<open>gwyfile_item_fread_internal\<close>: name, type byte
  and, for an array type, the array length.  \<open>fread_plain_item\<close> holds its branches for
  the types that contain no object; the two branches that recurse are in the function
  itself, further below.  The argument \<open>mem\<close> gives the initial content of a buffer
  obtained from \<^verbatim>\<open>malloc\<close> (byte \<open>i\<close> of the buffer is \<open>mem i\<close>): it shows in the result where
  a buffer is not completely overwritten.
\<close>

definition fread_item_header :: "stream \<Rightarrow> nat \<Rightarrow> failure + (cstring \<times> byte \<times> nat \<times> nat \<times> stream)" where
  "fread_item_header stream max_size =
     (case gwyfile_fread_string stream max_size of
        Inl e \<Rightarrow> Inl e
      | Inr (name, max_size1, stream1) \<Rightarrow>
     (case gwyfile_check_size max_size1 1 of
        Inl e \<Rightarrow> Inl e
      | Inr max_size2 \<Rightarrow>
     (case stream1 of
        [] \<Rightarrow> Inl gwyfile_set_error_fread
      | c # stream2 \<Rightarrow>
     (if \<not> gwyfile_item_type_is_valid c
      then Inl (GwyfileError GWYFILE_ERROR_DOMAIN_DATA GWYFILE_ERROR_ITEM_TYPE)
      else if gwyfile_item_type_is_array c then
        (case gwyfile_check_size max_size2 4 of
           Inl e \<Rightarrow> Inl e
         | Inr max_size3 \<Rightarrow>
        (case gwyfile_fread_le 4 1 stream2 of
           None \<Rightarrow> Inl gwyfile_set_error_fread
         | Some (bs, stream3) \<Rightarrow>
             if le_nat bs = 0
             then Inl (GwyfileError GWYFILE_ERROR_DOMAIN_DATA GWYFILE_ERROR_ARRAY_SIZE)
             else Inr (name, c, le_nat bs, max_size3, stream3)))
      else Inr (name, c, 0, max_size2, stream2)))))"


fun fread_string_array :: "stream \<Rightarrow> nat \<Rightarrow> nat \<Rightarrow> cstring list \<Rightarrow> failure + (cstring list \<times> stream)" where
  "fread_string_array stream max_size 0 sa = Inr (sa, stream)"
| "fread_string_array stream max_size (Suc n) sa =
     (case gwyfile_fread_string stream max_size of
        Inl e \<Rightarrow> Inl e
      | Inr (s, max_size', stream') \<Rightarrow> fread_string_array stream' max_size' n (sa @ [s]))"

definition fread_plain_item ::
  "(nat \<Rightarrow> byte) \<Rightarrow> cstring \<Rightarrow> byte \<Rightarrow> nat \<Rightarrow> stream \<Rightarrow> nat \<Rightarrow> failure + (GwyfileItem \<times> stream)" where
  "fread_plain_item mem name type alen stream max_size =
     (if type = GWYFILE_ITEM_BOOL then
        (case gwyfile_check_size max_size 1 of
           Inl e \<Rightarrow> Inl e
         | Inr _ \<Rightarrow>
             (case stream of
                [] \<Rightarrow> Inl gwyfile_set_error_fread
              | c # stream' \<Rightarrow> Inr (gwyfile_item_new_internal_bool name (c \<noteq> 0), stream')))
      else if type = GWYFILE_ITEM_CHAR then
        (case gwyfile_check_size max_size 1 of
           Inl e \<Rightarrow> Inl e
         | Inr _ \<Rightarrow>
             (case stream of
                [] \<Rightarrow> Inl gwyfile_set_error_fread
              | c # stream' \<Rightarrow> Inr (gwyfile_item_new_internal_char name c, stream')))
      else if type = GWYFILE_ITEM_INT32 then
        (case gwyfile_check_size max_size 4 of
           Inl e \<Rightarrow> Inl e
         | Inr _ \<Rightarrow>
             (case gwyfile_fread_le 4 1 stream of
                None \<Rightarrow> Inl gwyfile_set_error_fread
              | Some (bs, stream') \<Rightarrow>
                  Inr (gwyfile_item_new_internal_int32 name (of_nat (le_nat bs)), stream')))
      else if type = GWYFILE_ITEM_INT64 then
        (case gwyfile_check_size max_size 8 of
           Inl e \<Rightarrow> Inl e
         | Inr _ \<Rightarrow>
             (case gwyfile_fread_le 8 1 stream of
                None \<Rightarrow> Inl gwyfile_set_error_fread
              | Some (bs, stream') \<Rightarrow>
                  Inr (gwyfile_item_new_internal_int64 name (of_nat (le_nat bs)), stream')))
      else if type = GWYFILE_ITEM_DOUBLE then
        (case gwyfile_check_size max_size 8 of
           Inl e \<Rightarrow> Inl e
         | Inr _ \<Rightarrow>
             (case gwyfile_fread_le 8 1 stream of
                None \<Rightarrow> Inl gwyfile_set_error_fread
              | Some (bs, stream') \<Rightarrow>
                  Inr (gwyfile_item_new_internal_double name (of_nat (le_nat bs)), stream')))
      else if type = GWYFILE_ITEM_STRING then
        (case gwyfile_fread_string stream max_size of
           Inl e \<Rightarrow> Inl e
         | Inr (s, _, stream') \<Rightarrow> Inr (gwyfile_item_new_internal_string name s, stream'))
      else if type = GWYFILE_ITEM_CHAR_ARRAY then
        (case gwyfile_check_size max_size alen of
           Inl e \<Rightarrow> Inl e
         | Inr _ \<Rightarrow>
             (case fread alen stream of
                (got, stream') \<Rightarrow>
                  if length got \<noteq> 0
                  then Inr (gwyfile_item_new_internal_char_array name
                              (got @ map mem [length got ..< alen]) alen, stream')
                  else Inl gwyfile_set_error_fread))
      else if type = GWYFILE_ITEM_INT32_ARRAY then
        (if alen > max_size div 4 then Inl gwyfile_set_error_overrun
         else (case gwyfile_fread_le 4 alen stream of
                 None \<Rightarrow> Inl gwyfile_set_error_fread
               | Some (bs, stream') \<Rightarrow>
                   Inr (gwyfile_item_new_internal_int32_array name
                          (map (\<lambda>b. of_nat (le_nat b)) (chunks 4 alen bs)) alen, stream')))
      else if type = GWYFILE_ITEM_INT64_ARRAY then
        (if alen > max_size div 8 then Inl gwyfile_set_error_overrun
         else (case gwyfile_fread_le 8 alen stream of
                 None \<Rightarrow> Inl gwyfile_set_error_fread
               | Some (bs, stream') \<Rightarrow>
                   Inr (gwyfile_item_new_internal_int64_array name
                          (map (\<lambda>b. of_nat (le_nat b)) (chunks 8 alen bs)) alen, stream')))
      else if type = GWYFILE_ITEM_DOUBLE_ARRAY then
        (if alen > max_size div 8 then Inl gwyfile_set_error_overrun
         else (case gwyfile_fread_le 8 alen stream of
                 None \<Rightarrow> Inl gwyfile_set_error_fread
               | Some (bs, stream') \<Rightarrow>
                   Inr (gwyfile_item_new_internal_double_array name
                          (map (\<lambda>b. of_nat (le_nat b)) (chunks 8 alen bs)) alen, stream')))
      else if type = GWYFILE_ITEM_STRING_ARRAY then
        (if alen > max_size then Inl gwyfile_set_error_overrun
         else (case fread_string_array stream max_size alen [] of
                 Inl e \<Rightarrow> Inl e
               | Inr (sa, stream') \<Rightarrow>
                   Inr (gwyfile_item_new_internal_string_array name sa alen, stream')))
      else Inl Abort)"

lemmas item_new_defs =
  gwyfile_item_new_internal_def set_size_def
  gwyfile_item_new_internal_bool_def gwyfile_item_new_internal_char_def
  gwyfile_item_new_internal_int32_def gwyfile_item_new_internal_int64_def
  gwyfile_item_new_internal_double_def gwyfile_item_new_internal_string_def
  gwyfile_item_new_internal_object_def gwyfile_item_new_internal_char_array_def
  gwyfile_item_new_internal_int32_array_def gwyfile_item_new_internal_int64_array_def
  gwyfile_item_new_internal_double_array_def gwyfile_item_new_internal_string_array_def
  gwyfile_item_new_internal_object_array_def

lemma fread_plain_item_data_size:
  "fread_plain_item mem name type alen stream max_size = Inr (item, stream') \<Longrightarrow>
     0 < item_data_size item"
  unfolding fread_plain_item_def
  by (auto simp: item_new_defs split: if_splits sum.splits list.splits option.splits prod.splits)

lemma fread_item_header_max:
  "fread_item_header stream max_size = Inr (name, type, alen, max_size', stream') \<Longrightarrow>
     max_size' < max_size"
  unfolding fread_item_header_def gwyfile_check_size_def
  by (auto split: if_splits sum.splits list.splits option.splits prod.splits
           dest!: gwyfile_fread_string_max)

text \<open>
  \<^verbatim>\<open>gwyfile_object_fread_internal\<close> and \<^verbatim>\<open>gwyfile_item_fread_internal\<close>.  The bound of the test
  \<^verbatim>\<open>depth >= GWYFILE_MAX_DEPTH\<close> is the parameter \<open>max_depth\<close>, which the public functions
  set to \<^verbatim>\<open>GWYFILE_MAX_DEPTH\<close>.  \<open>fread_object_items\<close> is the loop
  \<^verbatim>\<open>while (object->data_size < data_size)\<close> and \<open>fread_object_array\<close> the loop over the
  elements of an object array.  The recursion terminates because every object and every
  item consumes at least one byte of \<^verbatim>\<open>max_size\<close>.
\<close>

function gwyfile_object_fread_internal ::
    "nat \<Rightarrow> (nat \<Rightarrow> byte) \<Rightarrow> stream \<Rightarrow> nat \<Rightarrow> nat \<Rightarrow> failure + (GwyfileObject \<times> stream)"
  and fread_object_items ::
    "nat \<Rightarrow> (nat \<Rightarrow> byte) \<Rightarrow> stream \<Rightarrow> nat \<Rightarrow> nat \<Rightarrow> GwyfileObject \<Rightarrow> failure + (GwyfileObject \<times> stream)"
  and gwyfile_item_fread_internal ::
    "nat \<Rightarrow> (nat \<Rightarrow> byte) \<Rightarrow> stream \<Rightarrow> nat \<Rightarrow> nat \<Rightarrow> failure + (GwyfileItem \<times> stream)"
  and fread_object_array ::
    "nat \<Rightarrow> (nat \<Rightarrow> byte) \<Rightarrow> stream \<Rightarrow> nat \<Rightarrow> nat \<Rightarrow> nat \<Rightarrow> GwyfileObject list
       \<Rightarrow> failure + (GwyfileObject list \<times> stream)"
where
  "gwyfile_object_fread_internal max_depth mem stream max_size depth =
     (if depth \<ge> max_depth
      then Inl (GwyfileError GWYFILE_ERROR_DOMAIN_DATA GWYFILE_ERROR_TOO_DEEP_NESTING)
      else
     (case gwyfile_fread_string stream max_size of
        Inl e \<Rightarrow> Inl e
      | Inr (name, max_size1, stream1) \<Rightarrow>
     (case gwyfile_check_size max_size1 4 of
        Inl e \<Rightarrow> Inl e
      | Inr max_size2 \<Rightarrow>
     (case gwyfile_fread_le 4 1 stream1 of
        None \<Rightarrow> Inl gwyfile_set_error_fread
      | Some (bs, stream2) \<Rightarrow>
     (if max_size2 < le_nat bs then Inl gwyfile_set_error_overrun
      else
     (case fread_object_items max_depth mem stream2 (le_nat bs) depth
             (gwyfile_object_new_internal name) of
        Inl e \<Rightarrow> Inl e
      | Inr (object, stream3) \<Rightarrow>
     (if object_data_size object \<noteq> le_nat bs then Inl Abort
      else
     (case gwyfile_object_find_duplicate_item object of
        (Some dupname, object') \<Rightarrow>
          Inl (GwyfileError GWYFILE_ERROR_DOMAIN_DATA GWYFILE_ERROR_DUPLICATE_NAME)
      | (None, object') \<Rightarrow> Inr (object', stream3)))))))))"
| "fread_object_items max_depth mem stream data_size depth object =
     (if object_data_size object < data_size then
        (case gwyfile_item_fread_internal max_depth mem stream
                (data_size - object_data_size object) (unsigned_int (depth + 1)) of
           Inl e \<Rightarrow> Inl e
         | Inr (item, stream') \<Rightarrow>
             (case gwyfile_object_append object item of
                Inl e \<Rightarrow> Inl e
              | Inr object' \<Rightarrow> fread_object_items max_depth mem stream' data_size depth object'))
      else Inr (object, stream))"
| "gwyfile_item_fread_internal max_depth mem stream max_size depth =
     (case fread_item_header stream max_size of
        Inl e \<Rightarrow> Inl e
      | Inr (name, type, alen, max_size', stream') \<Rightarrow>
          if type = GWYFILE_ITEM_OBJECT then
            (case gwyfile_object_fread_internal max_depth mem stream' max_size' depth of
               Inl e \<Rightarrow> Inl e
             | Inr (object, stream'') \<Rightarrow>
                 Inr (gwyfile_item_new_internal_object name object, stream''))
          else if type = GWYFILE_ITEM_OBJECT_ARRAY then
            (if alen > max_size' div 5 then Inl gwyfile_set_error_overrun
             else (case fread_object_array max_depth mem stream' max_size' depth alen [] of
                     Inl e \<Rightarrow> Inl e
                   | Inr (oa, stream'') \<Rightarrow>
                       Inr (gwyfile_item_new_internal_object_array name oa alen, stream'')))
          else fread_plain_item mem name type alen stream' max_size')"
| "fread_object_array max_depth mem stream max_size depth n oa =
     (if n = 0 then Inr (oa, stream)
      else (case gwyfile_object_fread_internal max_depth mem stream max_size depth of
              Inl e \<Rightarrow> Inl e
            | Inr (object, stream') \<Rightarrow>
                if object_size object \<le> max_size
                then fread_object_array max_depth mem stream'
                       (max_size - object_size object) depth (n - 1) (oa @ [object])
                else Inl Abort))"
  by pat_completeness auto


termination
proof (relation "inv_image (less_than <*lex*> less_than)
     (\<lambda>x. case x of
        Inl (Inl (max_depth, mem, stream, max_size, depth)) \<Rightarrow> (max_size, 0)
      | Inl (Inr (max_depth, mem, stream, data_size, depth, object)) \<Rightarrow>
          (data_size - object_data_size object, 1)
      | Inr (Inl (max_depth, mem, stream, max_size, depth)) \<Rightarrow> (max_size, 0)
      | Inr (Inr (max_depth, mem, stream, max_size, depth, n, oa)) \<Rightarrow> (max_size, Suc n))",
    goal_cases)
  case 1
  show ?case by (intro wf_inv_image wf_lex_prod wf_less_than)
next
  case (2 max_depth mem stream max_size depth b name y max_size1 stream1 max_size2 x2 bs stream2)
  then have "max_size1 < max_size" "max_size2 \<le> max_size1"
    by (auto dest: gwyfile_fread_string_max simp: gwyfile_check_size_def split: if_splits)
  with 2 show ?case by (simp add: gwyfile_object_new_internal_def)
next
  case (3 max_depth mem stream data_size depth object)
  then show ?case by simp
next
  case (4 max_depth mem stream data_size depth object b item stream' object')
  from 4 have "gwyfile_item_fread_internal max_depth mem stream
      (data_size - object_data_size object) (unsigned_int (depth + 1)) = Inr (item, stream')"
    by simp
  then have "0 < item_data_size item"
    unfolding gwyfile_item_fread_internal.psimps[OF 4(5)]
    by (auto simp: item_new_defs object_size_def
             split: if_splits sum.splits prod.splits dest: fread_plain_item_data_size)
  moreover have "object_data_size object' = object_data_size object + item_size item"
    using 4 by (auto simp: gwyfile_object_append_def split: if_splits)
  ultimately show ?case using 4 by (simp add: item_size_def)
next
  case (5 max_depth mem stream max_size depth b name y type ya alen yb max_size' stream')
  then have "max_size' < max_size"
    using fread_item_header_max by metis
  then show ?case by simp
next
  case (6 max_depth mem stream max_size depth b name y type ya alen yb max_size' stream')
  then have "max_size' < max_size"
    using fread_item_header_max by metis
  then show ?case by simp
next
  case (7 max_depth mem stream max_size depth n oa)
  then show ?case by simp
next
  case (8 max_depth mem stream max_size depth n oa b object stream')
  then show ?case by auto
qed


declare gwyfile_object_fread_internal.simps [simp del] fread_object_items.simps [simp del]
  gwyfile_item_fread_internal.simps [simp del] fread_object_array.simps [simp del]

definition gwyfile_object_fread :: "(nat \<Rightarrow> byte) \<Rightarrow> stream \<Rightarrow> nat \<Rightarrow> failure + (GwyfileObject \<times> stream)" where
  "gwyfile_object_fread mem stream max_size =
     gwyfile_object_fread_internal GWYFILE_MAX_DEPTH mem stream max_size 0"

definition gwyfile_item_fread :: "(nat \<Rightarrow> byte) \<Rightarrow> stream \<Rightarrow> nat \<Rightarrow> failure + (GwyfileItem \<times> stream)" where
  "gwyfile_item_fread mem stream max_size =
     gwyfile_item_fread_internal GWYFILE_MAX_DEPTH mem stream max_size 0"

definition gwyfile_fread :: "(nat \<Rightarrow> byte) \<Rightarrow> stream \<Rightarrow> nat \<Rightarrow> failure + (GwyfileObject \<times> stream)" where
  "gwyfile_fread mem stream max_size =
     (case gwyfile_check_size max_size GWYFILE_MAGIC_LEN of
        Inl e \<Rightarrow> Inl e
      | Inr max_size' \<Rightarrow>
          (case fread GWYFILE_MAGIC_LEN stream of
             (magic, stream') \<Rightarrow>
               if length magic \<noteq> GWYFILE_MAGIC_LEN then Inl gwyfile_set_error_fread
               else if magic \<noteq> GWYFILE_MAGIC_HEADER2
               then Inl (GwyfileError GWYFILE_ERROR_DOMAIN_DATA GWYFILE_ERROR_MAGIC)
               else gwyfile_object_fread mem stream' max_size'))"

subsection \<open>Enumeration\<close>

text \<open>
  \<^verbatim>\<open>gwyfile_object_foreach\<close> calls the function on \<^verbatim>\<open>items[0]\<close>, \<^verbatim>\<open>items[1]\<close>, ... with the
  caller's \<^verbatim>\<open>user_data\<close>, here threaded as a state; \<^verbatim>\<open>gwyfile_object_item_names\<close> returns
  null for an object without items.
\<close>

definition gwyfile_object_foreach ::
  "GwyfileObject \<Rightarrow> (GwyfileItem \<Rightarrow> 'u \<Rightarrow> 'u) \<Rightarrow> 'u \<Rightarrow> 'u" where
  "gwyfile_object_foreach object function user_data =
     foldl (\<lambda>u item. function item u) user_data (object_items object)"

definition gwyfile_object_nitems :: "GwyfileObject \<Rightarrow> nat" where
  "gwyfile_object_nitems object = length (object_items object)"

definition gwyfile_object_item_names :: "GwyfileObject \<Rightarrow> cstring list option" where
  "gwyfile_object_item_names object =
     (if gwyfile_object_nitems object = 0 then None
      else Some (map item_name (object_items object)))"

subsection \<open>Conformance checker\<close>

text \<open>
  \<^verbatim>\<open>GwyfileCheckFlags\<close>: one bit per error domain, \<^verbatim>\<open>1 << GWYFILE_ERROR_DOMAIN_VALIDITY\<close> and
  \<^verbatim>\<open>1 << GWYFILE_ERROR_DOMAIN_WARNING\<close>; the \<^verbatim>\<open>flags\<close> argument is an \<^verbatim>\<open>unsigned int\<close>.
\<close>

definition GWYFILE_CHECK_FLAG_VALIDITY :: "32 word" where
  "GWYFILE_CHECK_FLAG_VALIDITY = push_bit 2 1"

definition GWYFILE_CHECK_FLAG_WARNING :: "32 word" where
  "GWYFILE_CHECK_FLAG_WARNING = push_bit 3 1"

text \<open>
  \<^verbatim>\<open>gwyfile_is_valid_utf8\<close>: the loop over the bytes of the string up to its nul, with the
  counter \<^verbatim>\<open>remains_10xxxxxx\<close> of continuation bytes still expected.
\<close>

fun utf8_loop :: "nat \<Rightarrow> cstring \<Rightarrow> bool" where
  "utf8_loop remains_10xxxxxx [] = (remains_10xxxxxx = 0)"
| "utf8_loop remains_10xxxxxx (b # s) =
     (if remains_10xxxxxx = 0 then
        (if b AND 0x80 = 0 then utf8_loop 0 s
         else if b AND 0xe0 = 0xc0 then utf8_loop 1 s
         else if b AND 0xf0 = 0xe0 then utf8_loop 2 s
         else if b AND 0xf8 = 0xf0 then utf8_loop 3 s
         else if b AND 0xfc = 0xf8 then utf8_loop 4 s
         else if b AND 0xfe = 0xfc then utf8_loop 5 s
         else False)
      else
        (if b AND 0xc0 \<noteq> 0x80 then False
         else utf8_loop (remains_10xxxxxx - 1) s))"

definition gwyfile_is_valid_utf8 :: "cstring \<Rightarrow> bool" where
  "gwyfile_is_valid_utf8 s = utf8_loop 0 s"

text \<open>
  \<^verbatim>\<open>gwyfile_is_valid_identifier\<close>: a letter followed by letters, digits and underscores.  The
  comparisons with character constants give the same result for signed and unsigned
  \<^verbatim>\<open>char\<close>, since all the constants are below 0x80.
\<close>

definition is_letter :: "byte \<Rightarrow> bool" where
  "is_letter c = ((0x41 \<le> c \<and> c \<le> 0x5A) \<or> (0x61 \<le> c \<and> c \<le> 0x7A))"

definition is_ident_char :: "byte \<Rightarrow> bool" where
  "is_ident_char c = ((0x41 \<le> c \<and> c \<le> 0x5A) \<or> (0x61 \<le> c \<and> c \<le> 0x7A)
                   \<or> (0x30 \<le> c \<and> c \<le> 0x39) \<or> c = 0x5F)"

fun gwyfile_is_valid_identifier :: "cstring \<Rightarrow> bool" where
  "gwyfile_is_valid_identifier [] = False"
| "gwyfile_is_valid_identifier (c # s) = (is_letter c \<and> list_all is_ident_char s)"

text \<open>
  \<^verbatim>\<open>gwyfile_double_isnormal\<close> reads the bit field \<^verbatim>\<open>biased_exponent\<close> of the union
  \<^verbatim>\<open>GwyfileDouble\<close>: on the little-endian host the 11 bits above the 52 bits of the mantissa.
\<close>

definition biased_exponent :: "64 word \<Rightarrow> 64 word" where
  "biased_exponent x = take_bit 11 (drop_bit 52 x)"

definition gwyfile_double_isnormal :: "64 word \<Rightarrow> bool" where
  "gwyfile_double_isnormal x = (\<not> (biased_exponent x = 0x7ff))"

text \<open>
  \<^verbatim>\<open>GwyfileErrorList\<close> is the list of the errors appended so far, each without its message
  (the path of the offending node); \<^verbatim>\<open>n\<close> is its length and the capacity \<^verbatim>\<open>nalloc\<close> is not
  kept.  The argument \<^verbatim>\<open>errlist\<close> of the checker is a pointer that may be null: \<open>None\<close>.
  The four functions \<^verbatim>\<open>gwyfile_check_\<close>... end in the same way when their test fails: with
  a null list they return false, otherwise they append one error and return false; this
  tail is \<open>append_violation\<close>.
\<close>

type_synonym GwyfileErrorList = "failure list"

definition error_list_n :: "GwyfileErrorList option \<Rightarrow> nat" where
  "error_list_n errlist = (case errlist of None \<Rightarrow> 0 | Some errors \<Rightarrow> length errors)"

definition gwyfile_error_list_append :: "GwyfileErrorList \<Rightarrow> failure \<Rightarrow> GwyfileErrorList" where
  "gwyfile_error_list_append errors err = errors @ [err]"

definition append_violation ::
  "GwyfileErrorDomain \<Rightarrow> int \<Rightarrow> GwyfileErrorList option \<Rightarrow> bool \<times> GwyfileErrorList option" where
  "append_violation error_domain error_code errlist =
     (case errlist of
        None \<Rightarrow> (False, None)
      | Some errors \<Rightarrow> (False, Some (gwyfile_error_list_append errors (GwyfileError error_domain error_code))))"

definition gwyfile_check_valid_utf8 ::
  "cstring \<Rightarrow> int \<Rightarrow> GwyfileErrorList option \<Rightarrow> bool \<times> GwyfileErrorList option" where
  "gwyfile_check_valid_utf8 s c errlist =
     (if gwyfile_is_valid_utf8 s then (True, errlist)
      else append_violation GWYFILE_ERROR_DOMAIN_VALIDITY c errlist)"

definition gwyfile_check_valid_identifier ::
  "cstring \<Rightarrow> GwyfileErrorList option \<Rightarrow> bool \<times> GwyfileErrorList option" where
  "gwyfile_check_valid_identifier s errlist =
     (if gwyfile_is_valid_identifier s then (True, errlist)
      else append_violation GWYFILE_ERROR_DOMAIN_WARNING GWYFILE_WARNING_TYPE_IDENTIFIER errlist)"

definition gwyfile_check_nonempty_name ::
  "cstring \<Rightarrow> GwyfileErrorList option \<Rightarrow> bool \<times> GwyfileErrorList option" where
  "gwyfile_check_nonempty_name s errlist =
     (if length s \<noteq> 0 then (True, errlist)
      else append_violation GWYFILE_ERROR_DOMAIN_WARNING GWYFILE_WARNING_EMPTY_NAME errlist)"

definition gwyfile_check_double ::
  "64 word \<Rightarrow> GwyfileErrorList option \<Rightarrow> bool \<times> GwyfileErrorList option" where
  "gwyfile_check_double x errlist =
     (if gwyfile_double_isnormal x then (True, errlist)
      else append_violation GWYFILE_ERROR_DOMAIN_VALIDITY GWYFILE_INVALID_DOUBLE errlist)"

text \<open>
  \<^verbatim>\<open>gwyfile_check_item_internal\<close> and \<^verbatim>\<open>gwyfile_check_object_internal\<close>.  Every call is followed by
  \<^verbatim>\<open>if (!check(...) && !errlist) return false;\<close>.  A loop of the source is a function of its own
  whose first result tells whether the loop ran to its end (\<open>True\<close>) or left the enclosing
  function with \<^verbatim>\<open>return false\<close> (\<open>False\<close>); \<open>check_value\<close> is the chain of \<^verbatim>\<open>if (type == ...)\<close>
  on strings and doubles.  An array is the first \<^verbatim>\<open>array_length\<close> elements of its list.
\<close>

fun check_strings ::
  "nat \<Rightarrow> cstring list \<Rightarrow> GwyfileErrorList option \<Rightarrow> bool \<times> GwyfileErrorList option" where
  "check_strings 0 sa errlist = (True, errlist)"
| "check_strings (Suc n) [] errlist = (True, errlist)"
| "check_strings (Suc n) (s # sa) errlist =
     (case gwyfile_check_valid_utf8 s GWYFILE_INVALID_UTF8_STRING errlist of
        (ok, errlist') \<Rightarrow>
          if \<not> ok \<and> errlist = None then (False, errlist')
          else check_strings n sa errlist')"

fun check_doubles ::
  "nat \<Rightarrow> 64 word list \<Rightarrow> GwyfileErrorList option \<Rightarrow> bool \<times> GwyfileErrorList option" where
  "check_doubles 0 da errlist = (True, errlist)"
| "check_doubles (Suc n) [] errlist = (True, errlist)"
| "check_doubles (Suc n) (x # da) errlist =
     (case gwyfile_check_double x errlist of
        (ok, errlist') \<Rightarrow>
          if \<not> ok \<and> errlist = None then (False, errlist')
          else check_doubles n da errlist')"

definition check_value ::
  "nat \<Rightarrow> item_value \<Rightarrow> GwyfileErrorList option \<Rightarrow> bool \<times> GwyfileErrorList option" where
  "check_value array_length val errlist =
     (case val of
        Vs s \<Rightarrow>
          (case gwyfile_check_valid_utf8 s GWYFILE_INVALID_UTF8_STRING errlist of
             (ok, errlist') \<Rightarrow> (\<not> (\<not> ok \<and> errlist = None), errlist'))
      | Vsa sa \<Rightarrow> check_strings array_length sa errlist
      | Vd x \<Rightarrow>
          (case gwyfile_check_double x errlist of
             (ok, errlist') \<Rightarrow> (\<not> (\<not> ok \<and> errlist = None), errlist'))
      | Vda da \<Rightarrow> check_doubles array_length da errlist
      | _ \<Rightarrow> (True, errlist))"

function (sequential) gwyfile_check_object_internal ::
    "GwyfileObject \<Rightarrow> 32 word \<Rightarrow> GwyfileErrorList option \<Rightarrow> bool \<times> GwyfileErrorList option"
  and check_items ::
    "GwyfileItem list \<Rightarrow> 32 word \<Rightarrow> GwyfileErrorList option \<Rightarrow> bool \<times> GwyfileErrorList option"
  and gwyfile_check_item_internal ::
    "GwyfileItem \<Rightarrow> 32 word \<Rightarrow> GwyfileErrorList option \<Rightarrow> bool \<times> GwyfileErrorList option"
  and check_objects ::
    "nat \<Rightarrow> GwyfileObject list \<Rightarrow> 32 word \<Rightarrow> GwyfileErrorList option
      \<Rightarrow> bool \<times> GwyfileErrorList option"
where
  "gwyfile_check_object_internal (GwyfileObject name name_len items data_size) flags errlist =
     (let oldn = error_list_n errlist in
      case (if flags AND GWYFILE_CHECK_FLAG_VALIDITY \<noteq> 0
            then gwyfile_check_valid_utf8 name GWYFILE_INVALID_UTF8_TYPE errlist
            else (True, errlist)) of
        (ok1, errlist1) \<Rightarrow>
      if \<not> ok1 \<and> errlist = None then (False, errlist1) else
      case (if flags AND GWYFILE_CHECK_FLAG_WARNING \<noteq> 0
            then gwyfile_check_valid_identifier name errlist1
            else (True, errlist1)) of
        (ok2, errlist2) \<Rightarrow>
      if \<not> ok2 \<and> errlist = None then (False, errlist2) else
      case check_items items flags errlist2 of
        (finished, errlist3) \<Rightarrow>
      if \<not> finished then (False, errlist3)
      else (errlist = None \<or> error_list_n errlist3 = oldn, errlist3))"
| "check_items [] flags errlist = (True, errlist)"
| "check_items (item # items) flags errlist =
     (case gwyfile_check_item_internal item flags errlist of
        (ok, errlist') \<Rightarrow>
          if \<not> ok \<and> errlist = None then (False, errlist')
          else check_items items flags errlist')"
| "gwyfile_check_item_internal (GwyfileItem array_length name name_len data_owned data_size val)
       flags errlist =
     (let oldn = error_list_n errlist in
      case (if flags AND GWYFILE_CHECK_FLAG_VALIDITY \<noteq> 0
            then gwyfile_check_valid_utf8 name GWYFILE_INVALID_UTF8_NAME errlist
            else (True, errlist)) of
        (ok1, errlist1) \<Rightarrow>
      if \<not> ok1 \<and> errlist = None then (False, errlist1) else
      case (if flags AND GWYFILE_CHECK_FLAG_WARNING \<noteq> 0
            then gwyfile_check_nonempty_name name errlist1
            else (True, errlist1)) of
        (ok2, errlist2) \<Rightarrow>
      if \<not> ok2 \<and> errlist = None then (False, errlist2) else
      case (if flags AND GWYFILE_CHECK_FLAG_VALIDITY \<noteq> 0
            then check_value array_length val errlist2
            else (True, errlist2)) of
        (finished3, errlist3) \<Rightarrow>
      if \<not> finished3 then (False, errlist3) else
      case (case val of
              Vo object \<Rightarrow>
                (case gwyfile_check_object_internal object flags errlist3 of
                   (ok, errlist') \<Rightarrow> (\<not> (\<not> ok \<and> errlist = None), errlist'))
            | Voa oa \<Rightarrow> check_objects array_length oa flags errlist3
            | _ \<Rightarrow> (True, errlist3)) of
        (finished4, errlist4) \<Rightarrow>
      if \<not> finished4 then (False, errlist4)
      else (errlist = None \<or> error_list_n errlist4 = oldn, errlist4))"
| "check_objects 0 oa flags errlist = (True, errlist)"
| "check_objects (Suc n) [] flags errlist = (True, errlist)"
| "check_objects (Suc n) (object # oa) flags errlist =
     (case gwyfile_check_object_internal object flags errlist of
        (ok, errlist') \<Rightarrow>
          if \<not> ok \<and> errlist = None then (False, errlist')
          else check_objects n oa flags errlist')"
  by pat_completeness auto

termination
  by (relation "measure (\<lambda>x. case x of
          Inl (Inl (object, flags, errlist)) \<Rightarrow> size object
        | Inl (Inr (items, flags, errlist)) \<Rightarrow> size_list size items
        | Inr (Inl (item, flags, errlist)) \<Rightarrow> size item
        | Inr (Inr (n, oa, flags, errlist)) \<Rightarrow> size_list size oa)")
    simp_all

declare gwyfile_check_object_internal.simps [simp del] gwyfile_check_item_internal.simps [simp del]

text \<open>
  \<^verbatim>\<open>gwyfile_check_object\<close> masks the flags and returns true at once when no category is
  selected.
\<close>

definition gwyfile_check_object ::
  "GwyfileObject \<Rightarrow> 32 word \<Rightarrow> GwyfileErrorList option \<Rightarrow> bool \<times> GwyfileErrorList option" where
  "gwyfile_check_object object flags errlist =
     (let flags' = flags AND (GWYFILE_CHECK_FLAG_VALIDITY OR GWYFILE_CHECK_FLAG_WARNING) in
      if flags' = 0 then (True, errlist)
      else gwyfile_check_object_internal object flags' errlist)"

subsection \<open>Violations, as the specification lists them\<close>

text \<open>
  The rules of the conformance checker as the specification words them, written without
  reference to the code above.

  UTF-8: a string is a sequence of 1- to 6-byte sequences.  The lead byte tells the length
  (\<open>0x00\<close>--\<open>0x7F\<close> one byte, \<open>0xC0\<close>--\<open>0xDF\<close> two, \<open>0xE0\<close>--\<open>0xEF\<close> three, \<open>0xF0\<close>--\<open>0xF7\<close>
  four, \<open>0xF8\<close>--\<open>0xFB\<close> five, \<open>0xFC\<close>--\<open>0xFD\<close> six; any other byte is a malformed lead) and is
  followed by that many less one continuation bytes \<open>0x80\<close>--\<open>0xBF\<close>; a sequence cut short is
  rejected.
\<close>

definition spec_continuation_byte :: "byte \<Rightarrow> bool" where
  "spec_continuation_byte b = (0x80 \<le> unat b \<and> unat b \<le> 0xBF)"

definition spec_sequence_length :: "byte \<Rightarrow> nat option" where
  "spec_sequence_length b =
     (if unat b \<le> 0x7F then Some 1
      else if 0xC0 \<le> unat b \<and> unat b \<le> 0xDF then Some 2
      else if 0xE0 \<le> unat b \<and> unat b \<le> 0xEF then Some 3
      else if 0xF0 \<le> unat b \<and> unat b \<le> 0xF7 then Some 4
      else if 0xF8 \<le> unat b \<and> unat b \<le> 0xFB then Some 5
      else if 0xFC \<le> unat b \<and> unat b \<le> 0xFD then Some 6
      else None)"

function spec_valid_utf8 :: "cstring \<Rightarrow> bool" where
  "spec_valid_utf8 [] = True"
| "spec_valid_utf8 (b # s) =
     (case spec_sequence_length b of
        None \<Rightarrow> False
      | Some n \<Rightarrow>
          n - 1 \<le> length s \<and> list_all spec_continuation_byte (take (n - 1) s)
          \<and> spec_valid_utf8 (drop (n - 1) s))"
  by pat_completeness auto

termination
  by (relation "measure length") simp_all

text \<open>
  Identifier: the pattern \<^verbatim>\<open>[A-Za-z][A-Za-z0-9_]*\<close>, with the character classes as ranges of
  character codes.
\<close>

definition spec_in_range :: "char \<Rightarrow> char \<Rightarrow> byte \<Rightarrow> bool" where
  "spec_in_range lo hi c = (of_char lo \<le> unat c \<and> unat c \<le> of_char hi)"

definition spec_first_char :: "byte \<Rightarrow> bool" where
  "spec_first_char c = (spec_in_range CHR ''A'' CHR ''Z'' c \<or> spec_in_range CHR ''a'' CHR ''z'' c)"

definition spec_next_char :: "byte \<Rightarrow> bool" where
  "spec_next_char c =
     (spec_in_range CHR ''A'' CHR ''Z'' c \<or> spec_in_range CHR ''a'' CHR ''z'' c
      \<or> spec_in_range CHR ''0'' CHR ''9'' c \<or> unat c = of_char CHR ''_'')"

definition spec_identifier :: "cstring \<Rightarrow> bool" where
  "spec_identifier s = (s \<noteq> [] \<and> spec_first_char (hd s) \<and> list_all spec_next_char (tl s))"

text \<open>
  Doubles: in the IEEE 754 binary64 format the low 52 bits are the fraction, the next 11
  bits the biased exponent and the top bit the sign.  A value is infinite when all
  exponent bits are set and the fraction is zero, and a NaN when all exponent bits are set
  and the fraction is not zero.
\<close>

definition spec_fraction :: "64 word \<Rightarrow> nat" where
  "spec_fraction x = unat x mod 2 ^ 52"

definition spec_exponent :: "64 word \<Rightarrow> nat" where
  "spec_exponent x = unat x div 2 ^ 52 mod 2 ^ 11"

definition spec_infinite :: "64 word \<Rightarrow> bool" where
  "spec_infinite x = (spec_exponent x = 0x7FF \<and> spec_fraction x = 0)"

definition spec_nan :: "64 word \<Rightarrow> bool" where
  "spec_nan x = (spec_exponent x = 0x7FF \<and> spec_fraction x > 0)"

definition spec_nan_or_infinite :: "64 word \<Rightarrow> bool" where
  "spec_nan_or_infinite x = (spec_nan x \<or> spec_infinite x)"

text \<open>
  The violations of a tree in the selected categories, node by node.  Validity: an object
  name (\<^verbatim>\<open>INVALID_UTF8_TYPE\<close>), an item name (\<^verbatim>\<open>INVALID_UTF8_NAME\<close>), a string or an element of a
  string array (\<^verbatim>\<open>INVALID_UTF8_STRING\<close>) that is not valid UTF-8; a double or an element of
  a double array that is NaN or infinite (\<^verbatim>\<open>INVALID_DOUBLE\<close>).  Warning: an object name
  that is not an identifier (\<^verbatim>\<open>TYPE_IDENTIFIER\<close>); an empty item name (\<^verbatim>\<open>EMPTY_NAME\<close>).
\<close>

definition spec_value_violations :: "nat \<Rightarrow> item_value \<Rightarrow> failure list" where
  "spec_value_violations array_length val =
     (case val of
        Vs s \<Rightarrow> (if spec_valid_utf8 s then []
                 else [GwyfileError GWYFILE_ERROR_DOMAIN_VALIDITY GWYFILE_INVALID_UTF8_STRING])
      | Vsa sa \<Rightarrow>
          map (\<lambda>s. GwyfileError GWYFILE_ERROR_DOMAIN_VALIDITY GWYFILE_INVALID_UTF8_STRING)
            (filter (\<lambda>s. \<not> spec_valid_utf8 s) (take array_length sa))
      | Vd x \<Rightarrow> (if spec_nan_or_infinite x
                 then [GwyfileError GWYFILE_ERROR_DOMAIN_VALIDITY GWYFILE_INVALID_DOUBLE]
                 else [])
      | Vda da \<Rightarrow>
          map (\<lambda>x. GwyfileError GWYFILE_ERROR_DOMAIN_VALIDITY GWYFILE_INVALID_DOUBLE)
            (filter spec_nan_or_infinite (take array_length da))
      | _ \<Rightarrow> [])"

function (sequential) spec_object_violations :: "bool \<Rightarrow> bool \<Rightarrow> GwyfileObject \<Rightarrow> failure list"
  and spec_item_violations :: "bool \<Rightarrow> bool \<Rightarrow> GwyfileItem \<Rightarrow> failure list"
where
  "spec_object_violations validity warning (GwyfileObject name name_len items data_size) =
     (if validity \<and> \<not> spec_valid_utf8 name
      then [GwyfileError GWYFILE_ERROR_DOMAIN_VALIDITY GWYFILE_INVALID_UTF8_TYPE] else [])
     @ (if warning \<and> \<not> spec_identifier name
        then [GwyfileError GWYFILE_ERROR_DOMAIN_WARNING GWYFILE_WARNING_TYPE_IDENTIFIER] else [])
     @ concat (map (spec_item_violations validity warning) items)"
| "spec_item_violations validity warning
       (GwyfileItem array_length name name_len data_owned data_size val) =
     (if validity \<and> \<not> spec_valid_utf8 name
      then [GwyfileError GWYFILE_ERROR_DOMAIN_VALIDITY GWYFILE_INVALID_UTF8_NAME] else [])
     @ (if warning \<and> name = []
        then [GwyfileError GWYFILE_ERROR_DOMAIN_WARNING GWYFILE_WARNING_EMPTY_NAME] else [])
     @ (if validity then spec_value_violations array_length val else [])
     @ (case val of
          Vo object \<Rightarrow> spec_object_violations validity warning object
        | Voa oa \<Rightarrow> concat (map (spec_object_violations validity warning) (take array_length oa))
        | _ \<Rightarrow> [])"
  by pat_completeness auto

termination
proof (relation "measure (\<lambda>x. case x of
          Inl (validity, warning, object) \<Rightarrow> size object
        | Inr (validity, warning, item) \<Rightarrow> size item)", goal_cases)
  case 1
  show ?case by simp
next
  case (2 validity warning name name_len items data_size x)
  then show ?case using size_list_estimation'[of x items "size x" size] by simp
next
  case 3
  then show ?case by simp
next
  case (4 validity warning array_length name name_len data_owned data_size val oa x)
  then have "x \<in> set oa" by (auto dest: in_set_takeD)
  then show ?case using 4 size_list_estimation'[of x oa "size x" size] by simp
qed

definition spec_violations :: "32 word \<Rightarrow> GwyfileObject \<Rightarrow> failure list" where
  "spec_violations flags object =
     spec_object_violations (flags AND GWYFILE_CHECK_FLAG_VALIDITY \<noteq> 0)
       (flags AND GWYFILE_CHECK_FLAG_WARNING \<noteq> 0) object"

text \<open>
  Object \<^verbatim>\<open>"T"\<close> with a single boolean item named \<^verbatim>\<open>"\xC3\x28"\<close>; and an object with six
  violations: its name \<^verbatim>\<open>"9"\<close> is no identifier, it holds a double with an empty name and
  the value infinity, a string array whose second string is a truncated sequence, and an
  object whose name is a lone continuation byte.
\<close>

definition invalid_name_object :: GwyfileObject where
  "invalid_name_object =
     GwyfileObject [0x54] 1 [GwyfileItem 0 [0xC3, 0x28] 2 True 1 (Vb True)] 5"

definition many_violations_object :: GwyfileObject where
  "many_violations_object =
     GwyfileObject [0x39] 1
       [GwyfileItem 0 [] 0 True 8 (Vd 0x7FF0000000000000),
        GwyfileItem 2 [0x61] 1 True 11 (Vsa [[0xE2, 0x82, 0xAC], [0xE2, 0x82]]),
        GwyfileItem 0 [0x6F] 1 True 6 (Vo (GwyfileObject [0x80] 1 [] 0))] 33"


subsection \<open>Nesting depth\<close>

text \<open>
  The number of object levels of a tree: an object without object-valued items has nesting
  1; an item has the nesting of the object, or the deepest of the objects, that it holds,
  and 0 otherwise.  An item read at depth \<open>e\<close> \<^emph>\<open>fits\<close> the bound \<open>L\<close> if it holds no
  object or if its objects stay within the bound.
\<close>

fun object_nesting :: "GwyfileObject \<Rightarrow> nat"
  and items_nesting :: "GwyfileItem list \<Rightarrow> nat"
  and item_nesting :: "GwyfileItem \<Rightarrow> nat"
  and value_nesting :: "item_value \<Rightarrow> nat"
  and objects_nesting :: "GwyfileObject list \<Rightarrow> nat"
where
  "object_nesting (GwyfileObject name name_len items data_size) = Suc (items_nesting items)"
| "items_nesting [] = 0"
| "items_nesting (item # items) = max (item_nesting item) (items_nesting items)"
| "item_nesting (GwyfileItem alen name name_len data_owned data_size val) = value_nesting val"
| "value_nesting (Vo object) = object_nesting object"
| "value_nesting (Voa oa) = objects_nesting oa"
| "value_nesting (Vb _) = 0"
| "value_nesting (Vc _) = 0"
| "value_nesting (Vi _) = 0"
| "value_nesting (Vq _) = 0"
| "value_nesting (Vd _) = 0"
| "value_nesting (Vs _) = 0"
| "value_nesting (Vca _) = 0"
| "value_nesting (Via _) = 0"
| "value_nesting (Vqa _) = 0"
| "value_nesting (Vda _) = 0"
| "value_nesting (Vsa _) = 0"
| "objects_nesting [] = 0"
| "objects_nesting (object # oa) = max (object_nesting object) (objects_nesting oa)"

definition too_deep :: failure where
  "too_deep = GwyfileError GWYFILE_ERROR_DOMAIN_DATA GWYFILE_ERROR_TOO_DEEP_NESTING"

definition item_fits :: "nat \<Rightarrow> nat \<Rightarrow> GwyfileItem \<Rightarrow> bool" where
  "item_fits L e item = (item_nesting item = 0 \<or> e + item_nesting item \<le> L)"

text \<open>
  A chain of \<open>n + 1\<close> objects, each but the innermost holding the next one in a single
  object-valued item; all names are empty.  \<open>nested_bytes n\<close> is its encoding.
\<close>

fun nested_object :: "nat \<Rightarrow> GwyfileObject" where
  "nested_object 0 = GwyfileObject [] 0 [] 0"
| "nested_object (Suc n) =
     GwyfileObject [] 0
       [GwyfileItem 0 [] 0 True (object_size (nested_object n)) (Vo (nested_object n))]
       (2 + object_size (nested_object n))"

fun nested_bytes :: "nat \<Rightarrow> byte list" where
  "nested_bytes 0 = [0, 0, 0, 0, 0]"
| "nested_bytes (Suc n) =
     [0] @ le_bytes 4 (length (nested_bytes n) + 2) @ [0, 0x6F] @ nested_bytes n"

subsection \<open>Ownership on a store\<close>

text \<open>
  The operations that follow \<^verbatim>\<open>owner\<close> links work on shared, mutable structs.  Here an
  item or an object is a cell of a store, a pointer is an address (\<open>None\<close> is the null
  pointer), and each operation returns the new store.  An operation returns \<open>None\<close> when
  the call does not return normally: an \<^verbatim>\<open>assert\<close> fails, a pointer does not point to a
  live cell, or the walk along the \<^verbatim>\<open>owner\<close> links does not end.  A cell keeps the type tag
  of the struct in \<open>c_type\<close> next to the union \<open>c_v\<close>; \<^verbatim>\<open>calloc\<close> hands out the next unused
  address.
\<close>

type_synonym addr = nat

datatype cell_value =
    Cb bool
  | Cc byte
  | Ci "32 word"
  | Cq "64 word"
  | Cd "64 word"
  | Cs cstring
  | Co addr
  | Cca "byte list"
  | Cia "32 word list"
  | Cqa "64 word list"
  | Cda "64 word list"
  | Csa "cstring list"
  | Coa "addr list"

record item_cell =
  c_type :: byte
  c_array_length :: nat
  c_name :: cstring
  c_name_len :: nat
  c_data_owned :: bool
  c_owner :: "addr option"
  c_data_size :: nat
  c_v :: cell_value

record object_cell =
  o_owner :: "addr option"
  o_name :: cstring
  o_name_len :: nat
  o_items :: "addr list"
  o_data_size :: nat

record store =
  item_cells :: "addr \<Rightarrow> item_cell option"
  object_cells :: "addr \<Rightarrow> object_cell option"
  next_item :: addr
  next_object :: addr

definition empty_store :: store where
  "empty_store = \<lparr>item_cells = (\<lambda>_. None), object_cells = (\<lambda>_. None), next_item = 0, next_object = 0\<rparr>"

definition put_item :: "store \<Rightarrow> addr \<Rightarrow> item_cell \<Rightarrow> store" where
  "put_item st a c = st\<lparr>item_cells := (item_cells st)(a \<mapsto> c)\<rparr>"

definition put_object :: "store \<Rightarrow> addr \<Rightarrow> object_cell \<Rightarrow> store" where
  "put_object st a c = st\<lparr>object_cells := (object_cells st)(a \<mapsto> c)\<rparr>"

subsubsection \<open>Sizes and accessors\<close>

text \<open>
  \<^verbatim>\<open>gwyfile_object_size\<close> returns \<^verbatim>\<open>object->name_len+1 + sizeof(uint32_t) + object->data_size\<close>
  and \<^verbatim>\<open>gwyfile_item_size\<close> returns \<^verbatim>\<open>1 + item->name_len+1 + item->data_size\<close>.  The field
  \<^verbatim>\<open>name_len\<close> is a \<^verbatim>\<open>uint32_t\<close>, so the additions that involve only it and the constants
  are done modulo \<open>2^32\<close>; the operand \<^verbatim>\<open>sizeof\<close> or \<^verbatim>\<open>data_size\<close> then makes the rest of the sum
  \<^verbatim>\<open>size_t\<close> arithmetic, modulo \<open>2^64\<close>.  Both item functions return 0 for a null pointer and
  for a type tag of zero; the other accessors assert that the item is not null.
\<close>

definition gwyfile_object_size :: "store \<Rightarrow> addr \<Rightarrow> nat option" where
  "gwyfile_object_size st object =
     (case object_cells st object of
        None \<Rightarrow> None
      | Some oc \<Rightarrow> Some (size_t (unsigned_int (o_name_len oc + 1) + 4 + o_data_size oc)))"

definition gwyfile_object_data_size :: "store \<Rightarrow> addr \<Rightarrow> nat option" where
  "gwyfile_object_data_size st object = map_option o_data_size (object_cells st object)"

definition gwyfile_item_data_size :: "store \<Rightarrow> addr option \<Rightarrow> nat option" where
  "gwyfile_item_data_size st item =
     (case item of
        None \<Rightarrow> Some 0
      | Some a \<Rightarrow>
          (case item_cells st a of
             None \<Rightarrow> None
           | Some c \<Rightarrow> if c_type c = 0 then Some 0 else Some (c_data_size c)))"

definition gwyfile_item_size :: "store \<Rightarrow> addr option \<Rightarrow> nat option" where
  "gwyfile_item_size st item =
     (case item of
        None \<Rightarrow> Some 0
      | Some a \<Rightarrow>
          (case item_cells st a of
             None \<Rightarrow> None
           | Some c \<Rightarrow>
               if c_type c = 0 then Some 0
               else Some (size_t (unsigned_int (1 + c_name_len c + 1) + c_data_size c))))"




subsubsection \<open>Propagation of size changes\<close>

datatype node = Object_node addr | Item_node addr

partial_function (option) propagate_size_change ::
  "store \<Rightarrow> node \<Rightarrow> nat \<Rightarrow> bool \<Rightarrow> store option" where
  "propagate_size_change st n size_change increase =
     (case n of
        Object_node object \<Rightarrow>
          (case object_cells st object of
             None \<Rightarrow> None
           | Some oc \<Rightarrow>
               if increase \<and> o_data_size oc + size_change > SIZE_MAX then None
               else if \<not> increase \<and> size_change > o_data_size oc then None
               else
                 (let st' = put_object st object
                        (oc\<lparr>o_data_size := (if increase then o_data_size oc + size_change
                                             else o_data_size oc - size_change)\<rparr>)
                  in case o_owner oc of
                       None \<Rightarrow> Some st'
                     | Some item \<Rightarrow> propagate_size_change st' (Item_node item) size_change increase))
      | Item_node item \<Rightarrow>
          (case item_cells st item of
             None \<Rightarrow> None
           | Some ic \<Rightarrow>
               if c_type ic \<noteq> GWYFILE_ITEM_OBJECT \<and> c_type ic \<noteq> GWYFILE_ITEM_OBJECT_ARRAY then None
               else if increase \<and> c_data_size ic + size_change > SIZE_MAX then None
               else if \<not> increase \<and> size_change > c_data_size ic then None
               else
                 (let st' = put_item st item
                        (ic\<lparr>c_data_size := (if increase then c_data_size ic + size_change
                                             else c_data_size ic - size_change)\<rparr>)
                  in case c_owner ic of
                       None \<Rightarrow> Some st'
                     | Some object \<Rightarrow>
                         propagate_size_change st' (Object_node object) size_change increase)))"

definition gwyfile_object_propagate_size_change ::
  "store \<Rightarrow> addr \<Rightarrow> nat \<Rightarrow> bool \<Rightarrow> store option" where
  "gwyfile_object_propagate_size_change st object size_change increase =
     propagate_size_change st (Object_node object) size_change increase"

definition gwyfile_item_propagate_size_change ::
  "store \<Rightarrow> addr \<Rightarrow> nat \<Rightarrow> bool \<Rightarrow> store option" where
  "gwyfile_item_propagate_size_change st item size_change increase =
     propagate_size_change st (Item_node item) size_change increase"

definition gwyfile_item_notify_size_change :: "store \<Rightarrow> addr \<Rightarrow> nat \<Rightarrow> store option" where
  "gwyfile_item_notify_size_change st item oldsize =
     (case item_cells st item of
        None \<Rightarrow> None
      | Some ic \<Rightarrow>
          (case c_owner ic of
             None \<Rightarrow> Some st
           | Some owner \<Rightarrow>
               if c_data_size ic > oldsize
               then gwyfile_object_propagate_size_change st owner (c_data_size ic - oldsize) True
               else gwyfile_object_propagate_size_change st owner (oldsize - c_data_size ic) False))"

subsubsection \<open>Attaching items\<close>

definition gwyfile_object_append_st :: "store \<Rightarrow> addr \<Rightarrow> addr \<Rightarrow> store option" where
  "gwyfile_object_append_st st object item =
     (case object_cells st object of
        None \<Rightarrow> None
      | Some oc \<Rightarrow>
          (case item_cells st item of
             None \<Rightarrow> None
           | Some ic \<Rightarrow>
               (let st1 = put_object st object (oc\<lparr>o_items := o_items oc @ [item]\<rparr>);
                    st2 = put_item st1 item (ic\<lparr>c_owner := Some object\<rparr>)
                in case gwyfile_item_size st2 (Some item) of
                     None \<Rightarrow> None
                   | Some sz \<Rightarrow> gwyfile_object_propagate_size_change st2 object sz True)))"

fun name_present :: "store \<Rightarrow> addr list \<Rightarrow> cstring \<Rightarrow> bool option" where
  "name_present st [] name = Some False"
| "name_present st (a # items) name =
     (case item_cells st a of
        None \<Rightarrow> None
      | Some c \<Rightarrow> if c_name c = name then Some True else name_present st items name)"

definition gwyfile_object_add :: "store \<Rightarrow> addr \<Rightarrow> addr \<Rightarrow> (bool \<times> store) option" where
  "gwyfile_object_add st object item =
     (case object_cells st object of
        None \<Rightarrow> None
      | Some oc \<Rightarrow>
          (case item_cells st item of
             None \<Rightarrow> None
           | Some ic \<Rightarrow>
               if c_owner ic \<noteq> None then None
               else
                 (case name_present st (o_items oc) (c_name ic) of
                    None \<Rightarrow> None
                  | Some True \<Rightarrow> Some (False, st)
                  | Some False \<Rightarrow>
                      map_option (Pair True) (gwyfile_object_append_st st object item))))"


subsubsection \<open>Freeing\<close>

function gwyfile_object_free_fuel :: "nat \<Rightarrow> store \<Rightarrow> addr \<Rightarrow> store option"
  and free_object_items :: "nat \<Rightarrow> store \<Rightarrow> addr \<Rightarrow> nat \<Rightarrow> store option"
  and gwyfile_object_remove_last_fuel :: "nat \<Rightarrow> store \<Rightarrow> addr \<Rightarrow> bool \<Rightarrow> store option"
  and gwyfile_item_free_fuel :: "nat \<Rightarrow> store \<Rightarrow> addr \<Rightarrow> store option"
  and free_object_array :: "nat \<Rightarrow> store \<Rightarrow> addr list \<Rightarrow> store option"
where
  "gwyfile_object_free_fuel fuel st object =
     (case fuel of
        0 \<Rightarrow> None
      | Suc k \<Rightarrow>
          (case object_cells st object of
             None \<Rightarrow> None
           | Some oc \<Rightarrow>
               if o_owner oc \<noteq> None then None
               else (case free_object_items k st object (length (o_items oc)) of
                       None \<Rightarrow> None
                     | Some st' \<Rightarrow>
                         Some (st'\<lparr>object_cells := (object_cells st')(object := None)\<rparr>))))"
| "free_object_items k st object n =
     (case object_cells st object of
        None \<Rightarrow> None
      | Some oc \<Rightarrow>
          if o_items oc = [] then Some st
          else (case n of
                  0 \<Rightarrow> None
                | Suc n' \<Rightarrow>
                    (case gwyfile_object_remove_last_fuel k st object True of
                       None \<Rightarrow> None
                     | Some st' \<Rightarrow> free_object_items k st' object n')))"
| "gwyfile_object_remove_last_fuel k st object freeitem =
     (case object_cells st object of
        None \<Rightarrow> None
      | Some oc \<Rightarrow>
          if o_items oc = [] then None
          else
            (case item_cells st (last (o_items oc)) of
               None \<Rightarrow> None
             | Some ic \<Rightarrow>
                 if c_owner ic \<noteq> Some object then None
                 else
                   (case gwyfile_item_size st (Some (last (o_items oc))) of
                      None \<Rightarrow> None
                    | Some sz \<Rightarrow>
                   (case gwyfile_object_propagate_size_change st object sz False of
                      None \<Rightarrow> None
                    | Some st1 \<Rightarrow>
                   (case (if freeitem
                          then gwyfile_item_free_fuel k
                                 (put_item st1 (last (o_items oc)) (ic\<lparr>c_owner := None\<rparr>))
                                 (last (o_items oc))
                          else Some (put_item st1 (last (o_items oc)) (ic\<lparr>c_owner := None\<rparr>))) of
                      None \<Rightarrow> None
                    | Some st2 \<Rightarrow>
                   (case object_cells st2 object of
                      None \<Rightarrow> None
                    | Some oc2 \<Rightarrow>
                        Some (put_object st2 object (oc2\<lparr>o_items := butlast (o_items oc2)\<rparr>))))))))"
| "gwyfile_item_free_fuel k st item =
     (case item_cells st item of
        None \<Rightarrow> None
      | Some ic \<Rightarrow>
          if c_owner ic \<noteq> None then None
          else
            (case (if c_type ic = GWYFILE_ITEM_OBJECT \<and> c_data_owned ic then
                     (case c_v ic of
                        Co object \<Rightarrow>
                          (case object_cells st object of
                             None \<Rightarrow> None
                           | Some oc \<Rightarrow>
                               gwyfile_object_free_fuel k
                                 (put_object st object (oc\<lparr>o_owner := None\<rparr>)) object)
                      | _ \<Rightarrow> None)
                   else if c_type ic = GWYFILE_ITEM_OBJECT_ARRAY \<and> c_data_owned ic then
                     (case c_v ic of
                        Coa oa \<Rightarrow>
                          if length oa < c_array_length ic then None
                          else free_object_array k st (take (c_array_length ic) oa)
                      | _ \<Rightarrow> None)
                   else Some st) of
               None \<Rightarrow> None
             | Some st' \<Rightarrow> Some (st'\<lparr>item_cells := (item_cells st')(item := None)\<rparr>)))"
| "free_object_array k st oa =
     (case oa of
        [] \<Rightarrow> Some st
      | object # oa' \<Rightarrow>
          (case object_cells st object of
             None \<Rightarrow> None
           | Some oc \<Rightarrow>
               (case gwyfile_object_free_fuel k (put_object st object (oc\<lparr>o_owner := None\<rparr>))
                       object of
                  None \<Rightarrow> None
                | Some st' \<Rightarrow> free_object_array k st' oa')))"
  by pat_completeness auto

termination
  by (relation "inv_image (less_than <*lex*> less_than <*lex*> less_than)
     (\<lambda>x. case x of
        Inl (Inl (k, st, object)) \<Rightarrow> (k, 0, 0)
      | Inl (Inr (k, st, object, n)) \<Rightarrow> (k, 4, n)
      | Inr (Inl (k, st, object, freeitem)) \<Rightarrow> (k, 3, 0)
      | Inr (Inr (Inl (k, st, item))) \<Rightarrow> (k, 2, 0)
      | Inr (Inr (Inr (k, st, oa))) \<Rightarrow> (k, 1, length oa))")
    (auto intro!: wf_inv_image wf_lex_prod)

declare gwyfile_object_free_fuel.simps [simp del] free_object_items.simps [simp del]
  gwyfile_object_remove_last_fuel.simps [simp del] gwyfile_item_free_fuel.simps [simp del]
  free_object_array.simps [simp del]

text \<open>
  The recursion of \<^verbatim>\<open>gwyfile_object_free\<close> and \<^verbatim>\<open>gwyfile_item_free\<close> through each other is
  bounded by a fuel that is decremented per object level entered; the public functions
  start with more fuel than the store has objects.
\<close>

definition free_fuel :: "store \<Rightarrow> nat" where
  "free_fuel st = Suc (next_object st)"

definition gwyfile_object_free :: "store \<Rightarrow> addr option \<Rightarrow> store option" where
  "gwyfile_object_free st object =
     (case object of
        None \<Rightarrow> Some st
      | Some a \<Rightarrow> gwyfile_object_free_fuel (free_fuel st) st a)"

definition gwyfile_item_free :: "store \<Rightarrow> addr option \<Rightarrow> store option" where
  "gwyfile_item_free st item =
     (case item of
        None \<Rightarrow> Some st
      | Some a \<Rightarrow> gwyfile_item_free_fuel (free_fuel st) st a)"

definition gwyfile_object_remove_last :: "store \<Rightarrow> addr \<Rightarrow> bool \<Rightarrow> store option" where
  "gwyfile_object_remove_last st object freeitem =
     gwyfile_object_remove_last_fuel (free_fuel st) st object freeitem"

subsubsection \<open>Lookup, removal\<close>

fun find_index_name :: "store \<Rightarrow> addr list \<Rightarrow> cstring \<Rightarrow> nat \<Rightarrow> nat option" where
  "find_index_name st [] name i = Some i"
| "find_index_name st (a # items) name i =
     (case item_cells st a of
        None \<Rightarrow> None
      | Some c \<Rightarrow> if c_name c = name then Some i else find_index_name st items name (Suc i))"

definition gwyfile_object_find :: "store \<Rightarrow> addr \<Rightarrow> cstring \<Rightarrow> nat option" where
  "gwyfile_object_find st object name =
     (case object_cells st object of
        None \<Rightarrow> None
      | Some oc \<Rightarrow> find_index_name st (o_items oc) name 0)"

definition gwyfile_object_get :: "store \<Rightarrow> addr \<Rightarrow> cstring \<Rightarrow> addr option option" where
  "gwyfile_object_get st object name =
     (case object_cells st object of
        None \<Rightarrow> None
      | Some oc \<Rightarrow>
          (case gwyfile_object_find st object name of
             None \<Rightarrow> None
           | Some i \<Rightarrow> if i < length (o_items oc) then Some (Some (o_items oc ! i)) else Some None))"

definition swap_with_last :: "addr list \<Rightarrow> nat \<Rightarrow> addr list" where
  "swap_with_last items i =
     (if i < length items - 1
      then (items[i := items ! (length items - 1)])[length items - 1 := items ! i]
      else items)"

definition gwyfile_object_remove :: "store \<Rightarrow> addr \<Rightarrow> cstring \<Rightarrow> (bool \<times> store) option" where
  "gwyfile_object_remove st object name =
     (case object_cells st object of
        None \<Rightarrow> None
      | Some oc \<Rightarrow>
          (case gwyfile_object_find st object name of
             None \<Rightarrow> None
           | Some i \<Rightarrow>
               if i < length (o_items oc) then
                 map_option (Pair True)
                   (gwyfile_object_remove_last
                      (put_object st object (oc\<lparr>o_items := swap_with_last (o_items oc) i\<rparr>))
                      object True)
               else Some (False, st)))"

definition gwyfile_object_take :: "store \<Rightarrow> addr \<Rightarrow> cstring \<Rightarrow> (addr option \<times> store) option" where
  "gwyfile_object_take st object name =
     (case object_cells st object of
        None \<Rightarrow> None
      | Some oc \<Rightarrow>
          (case gwyfile_object_find st object name of
             None \<Rightarrow> None
           | Some i \<Rightarrow>
               if i < length (o_items oc) then
                 map_option (Pair (Some (o_items oc ! i)))
                   (gwyfile_object_remove_last
                      (put_object st object (oc\<lparr>o_items := swap_with_last (o_items oc) i\<rparr>))
                      object False)
               else Some (None, st)))"

subsubsection \<open>Constructors\<close>

definition gwyfile_object_new_internal_st :: "store \<Rightarrow> cstring \<Rightarrow> addr \<times> store" where
  "gwyfile_object_new_internal_st st name =
     (next_object st,
      (put_object st (next_object st)
         \<lparr>o_owner = None, o_name = name, o_name_len = unsigned_int (length name),
          o_items = [], o_data_size = 0\<rparr>)
        \<lparr>next_object := Suc (next_object st)\<rparr>)"

definition gwyfile_item_new_internal_st :: "store \<Rightarrow> byte \<Rightarrow> cstring \<Rightarrow> cell_value \<Rightarrow> addr \<times> store" where
  "gwyfile_item_new_internal_st st type name val =
     (next_item st,
      (put_item st (next_item st)
         \<lparr>c_type = type, c_array_length = 0, c_name = name,
          c_name_len = unsigned_int (length name), c_data_owned = True, c_owner = None,
          c_data_size = 0, c_v = val\<rparr>)
        \<lparr>next_item := Suc (next_item st)\<rparr>)"

definition gwyfile_item_new_bool :: "store \<Rightarrow> cstring \<Rightarrow> bool \<Rightarrow> (addr \<times> store) option" where
  "gwyfile_item_new_bool st name val =
     (case gwyfile_item_new_internal_st st GWYFILE_ITEM_BOOL name (Cb val) of
        (item, st') \<Rightarrow>
          (case item_cells st' item of
             None \<Rightarrow> None
           | Some ic \<Rightarrow> Some (item, put_item st' item (ic\<lparr>c_data_size := 1\<rparr>))))"

definition gwyfile_item_new_string_copy :: "store \<Rightarrow> cstring \<Rightarrow> cstring \<Rightarrow> (addr \<times> store) option" where
  "gwyfile_item_new_string_copy st name val =
     (case gwyfile_item_new_internal_st st GWYFILE_ITEM_STRING name (Cs val) of
        (item, st') \<Rightarrow>
          (case item_cells st' item of
             None \<Rightarrow> None
           | Some ic \<Rightarrow> Some (item, put_item st' item (ic\<lparr>c_data_size := length val + 1\<rparr>))))"

text \<open>
  \<^verbatim>\<open>for (i = 0; i < array_length; i++) { value[i]->owner = item; item->data_size +=
  gwyfile_object_size(value[i]); }\<close>
\<close>

fun adopt_objects :: "store \<Rightarrow> addr \<Rightarrow> addr list \<Rightarrow> store option" where
  "adopt_objects st item [] = Some st"
| "adopt_objects st item (object # oa) =
     (case object_cells st object of
        None \<Rightarrow> None
      | Some oc \<Rightarrow>
          (case item_cells st item of
             None \<Rightarrow> None
           | Some ic \<Rightarrow>
               (let st1 = put_object st object (oc\<lparr>o_owner := Some item\<rparr>) in
                case gwyfile_object_size st1 object of
                  None \<Rightarrow> None
                | Some sz \<Rightarrow>
                    adopt_objects (put_item st1 item (ic\<lparr>c_data_size := c_data_size ic + sz\<rparr>))
                      item oa)))"

fun all_roots :: "store \<Rightarrow> addr list \<Rightarrow> bool" where
  "all_roots st [] = True"
| "all_roots st (object # oa) =
     (case object_cells st object of
        None \<Rightarrow> False
      | Some oc \<Rightarrow> o_owner oc = None \<and> all_roots st oa)"

definition gwyfile_item_new_object_array ::
  "store \<Rightarrow> cstring \<Rightarrow> addr list \<Rightarrow> nat \<Rightarrow> (addr \<times> store) option" where
  "gwyfile_item_new_object_array st name val array_length =
     (if array_length = 0 \<or> length val < array_length
         \<or> \<not> all_roots st (take array_length val) then None
      else
        (case gwyfile_item_new_internal_st st GWYFILE_ITEM_OBJECT_ARRAY name (Coa val) of
           (item, st') \<Rightarrow>
             (case item_cells st' item of
                None \<Rightarrow> None
              | Some ic \<Rightarrow>
                  (case adopt_objects (put_item st' item (ic\<lparr>c_data_size := 4\<rparr>)) item
                          (take array_length val) of
                     None \<Rightarrow> None
                   | Some st'' \<Rightarrow>
                       (case item_cells st'' item of
                          None \<Rightarrow> None
                        | Some ic' \<Rightarrow>
                            Some (item, put_item st'' item
                                    (ic'\<lparr>c_array_length := array_length\<rparr>)))))))"

definition gwyfile_item_new_object :: "store \<Rightarrow> cstring \<Rightarrow> addr \<Rightarrow> (addr \<times> store) option" where
  "gwyfile_item_new_object st name val =
     (case object_cells st val of
        None \<Rightarrow> None
      | Some oc \<Rightarrow>
          if o_owner oc \<noteq> None then None
          else
            (case gwyfile_item_new_internal_st st GWYFILE_ITEM_OBJECT name (Co val) of
               (item, st') \<Rightarrow>
                 (case (item_cells st' item, gwyfile_object_size st' val) of
                    (Some ic, Some sz) \<Rightarrow>
                      Some (item,
                            put_object (put_item st' item (ic\<lparr>c_data_size := sz\<rparr>)) val
                              (oc\<lparr>o_owner := Some item\<rparr>))
                  | _ \<Rightarrow> None)))"


fun append_all :: "store \<Rightarrow> addr \<Rightarrow> addr list \<Rightarrow> store option" where
  "append_all st object [] = Some st"
| "append_all st object (item # items) =
     (case gwyfile_object_append_st st object item of
        None \<Rightarrow> None
      | Some st' \<Rightarrow> append_all st' object items)"

fun adjacent_equal :: "cstring list \<Rightarrow> cstring option" where
  "adjacent_equal (a # b # names) = (if a = b then Some a else adjacent_equal (b # names))"
| "adjacent_equal names = None"

definition gwyfile_object_find_duplicate_item_st ::
  "store \<Rightarrow> addr \<Rightarrow> (cstring option \<times> store) option" where
  "gwyfile_object_find_duplicate_item_st st object =
     (case object_cells st object of
        None \<Rightarrow> None
      | Some oc \<Rightarrow>
          if length (o_items oc) < 2 then Some (None, st)
          else
            (case those (map (\<lambda>a. map_option (\<lambda>c. (c_name c, a)) (item_cells st a)) (o_items oc)) of
               None \<Rightarrow> None
             | Some named \<Rightarrow>
                 Some (adjacent_equal (map fst (sort_key fst named)),
                       put_object st object (oc\<lparr>o_items := map snd (sort_key fst named)\<rparr>))))"

definition gwyfile_object_newv :: "store \<Rightarrow> cstring \<Rightarrow> addr list \<Rightarrow> nat \<Rightarrow> (addr \<times> store) option" where
  "gwyfile_object_newv st name items nitems =
     (if length items < nitems then None
      else
        (case gwyfile_object_new_internal_st st name of
           (object, st1) \<Rightarrow>
             (case append_all st1 object (take nitems items) of
                None \<Rightarrow> None
              | Some st2 \<Rightarrow>
                  (case gwyfile_object_find_duplicate_item_st st2 object of
                     Some (None, st3) \<Rightarrow> Some (object, st3)
                   | _ \<Rightarrow> None))))"

subsubsection \<open>Setters\<close>

definition gwyfile_item_set_string_copy :: "store \<Rightarrow> addr \<Rightarrow> cstring \<Rightarrow> store option" where
  "gwyfile_item_set_string_copy st item val =
     (case item_cells st item of
        None \<Rightarrow> None
      | Some ic \<Rightarrow>
          if c_type ic \<noteq> GWYFILE_ITEM_STRING then None
          else gwyfile_item_notify_size_change
                 (put_item st item
                    (ic\<lparr>c_data_size := length val + 1, c_v := Cs val, c_data_owned := True\<rparr>))
                 item (c_data_size ic))"

definition gwyfile_item_set_object :: "store \<Rightarrow> addr \<Rightarrow> addr \<Rightarrow> store option" where
  "gwyfile_item_set_object st item val =
     (case item_cells st item of
        None \<Rightarrow> None
      | Some ic \<Rightarrow>
          if c_type ic \<noteq> GWYFILE_ITEM_OBJECT then None
          else
            (case object_cells st val of
               None \<Rightarrow> None
             | Some oc \<Rightarrow>
                 if o_owner oc \<noteq> None then None
                 else
                   (case c_v ic of
                      Co old \<Rightarrow>
                        (case gwyfile_object_free st (Some old) of
                           None \<Rightarrow> None
                         | Some st1 \<Rightarrow>
                             (case (item_cells st1 item, gwyfile_object_size st1 val) of
                                (Some ic1, Some sz) \<Rightarrow>
                                  gwyfile_item_notify_size_change
                                    (put_item st1 item (ic1\<lparr>c_data_size := sz, c_v := Co val\<rparr>))
                                    item (c_data_size ic)
                              | _ \<Rightarrow> None))
                    | _ \<Rightarrow> None)))"

definition gwyfile_item_set_object_array ::
  "store \<Rightarrow> addr \<Rightarrow> addr list \<Rightarrow> nat \<Rightarrow> store option" where
  "gwyfile_item_set_object_array st item val array_length =
     (case item_cells st item of
        None \<Rightarrow> None
      | Some ic \<Rightarrow>
          if c_type ic \<noteq> GWYFILE_ITEM_OBJECT_ARRAY \<or> array_length = 0
             \<or> length val < array_length \<or> \<not> all_roots st (take array_length val) then None
          else
            (case (if c_data_owned ic then
                     (case c_v ic of
                        Coa old \<Rightarrow>
                          if length old < c_array_length ic then None
                          else free_object_array (free_fuel st) st (take (c_array_length ic) old)
                      | _ \<Rightarrow> None)
                   else Some st) of
               None \<Rightarrow> None
             | Some st1 \<Rightarrow>
                 (case those (map (gwyfile_object_size st1) (take array_length val)) of
                    None \<Rightarrow> None
                  | Some sizes \<Rightarrow>
                      (case item_cells st1 item of
                         None \<Rightarrow> None
                       | Some ic1 \<Rightarrow>
                           gwyfile_item_notify_size_change
                             (put_item st1 item
                                (ic1\<lparr>c_data_size := 4 + sum_list sizes,
                                      c_array_length := array_length,
                                      c_v := Coa val, c_data_owned := True\<rparr>))
                             item (c_data_size ic)))))"

subsubsection \<open>The size invariant on a store\<close>

definition object_sizes_ok :: "store \<Rightarrow> addr \<Rightarrow> bool" where
  "object_sizes_ok st a =
     (case object_cells st a of
        None \<Rightarrow> True
      | Some oc \<Rightarrow>
          (case those (map (\<lambda>i. gwyfile_item_size st (Some i)) (o_items oc)) of
             None \<Rightarrow> False
           | Some sizes \<Rightarrow> o_data_size oc = sum_list sizes))"

definition item_sizes_ok :: "store \<Rightarrow> addr \<Rightarrow> bool" where
  "item_sizes_ok st a =
     (case item_cells st a of
        None \<Rightarrow> True
      | Some ic \<Rightarrow>
          (case c_v ic of
             Co object \<Rightarrow> gwyfile_object_size st object = Some (c_data_size ic)
           | Coa oa \<Rightarrow>
               (case those (map (gwyfile_object_size st) (take (c_array_length ic) oa)) of
                  None \<Rightarrow> False
                | Some sizes \<Rightarrow> c_data_size ic = 4 + sum_list sizes)
           | _ \<Rightarrow> True))"

definition sizes_ok :: "store \<Rightarrow> bool" where
  "sizes_ok st =
     (list_all (object_sizes_ok st) [0..<next_object st]
      \<and> list_all (item_sizes_ok st) [0..<next_item st])"

subsubsection \<open>A sequence of calls\<close>

definition calls_before :: "(addr \<times> addr \<times> store) option" where
  "calls_before =
     (case gwyfile_object_newv empty_store [0x50] [] 0 of None \<Rightarrow> None | Some (p0, st1) \<Rightarrow>
      case gwyfile_item_new_object_array st1 [0x61] [p0] 1 of None \<Rightarrow> None | Some (i, st2) \<Rightarrow>
      case gwyfile_object_newv st2 [0x4F] [i] 1 of None \<Rightarrow> None | Some (obj, st3) \<Rightarrow>
      case gwyfile_object_newv st3 [0x50] [] 0 of None \<Rightarrow> None | Some (p1, st4) \<Rightarrow>
      case gwyfile_item_set_object_array st4 i [p1] 1 of None \<Rightarrow> None | Some st5 \<Rightarrow>
      case gwyfile_item_new_bool st5 [0x62] True of None \<Rightarrow> None | Some (b, st6) \<Rightarrow>
      Some (p1, b, st6))"

subsection \<open>Item names of an object in the store\<close>

text \<open>
  The names of the items of an object, in the order of its \<^verbatim>\<open>items\<close> array (what
  \<^verbatim>\<open>gwyfile_object_item_names\<close> returns); undefined when the object or one of its items is not
  allocated.  \<open>same_names\<close> relates two stores in which every item has kept its name and every
  object its item array.
\<close>

definition item_names :: "store \<Rightarrow> addr \<Rightarrow> cstring list option" where
  "item_names st object =
     (case object_cells st object of
        None \<Rightarrow> None
      | Some oc \<Rightarrow>
          if \<forall>a\<in>set (o_items oc). item_cells st a \<noteq> None
          then Some (map (\<lambda>a. c_name (the (item_cells st a))) (o_items oc))
          else None)"

definition same_names :: "store \<Rightarrow> store \<Rightarrow> bool" where
  "same_names st st' =
     ((\<forall>a. map_option c_name (item_cells st' a) = map_option c_name (item_cells st a))
      \<and> (\<forall>a. map_option o_items (object_cells st' a) = map_option o_items (object_cells st a)))"


text \<open>
  A small store: object \<^verbatim>\<open>"O"\<close> holding the boolean item \<^verbatim>\<open>"x"\<close>; two root items, a character
  named \<^verbatim>\<open>"x"\<close> and a boolean named \<^verbatim>\<open>"y"\<close>; and a zeroed item structure (type tag 0).
\<close>

definition example_store :: store where
  "example_store =
     \<lparr>item_cells =
        [0 \<mapsto> \<lparr>c_type = GWYFILE_ITEM_BOOL, c_array_length = 0, c_name = [0x78], c_name_len = 1,
                 c_data_owned = True, c_owner = Some 0, c_data_size = 1, c_v = Cb True\<rparr>,
         1 \<mapsto> \<lparr>c_type = GWYFILE_ITEM_CHAR, c_array_length = 0, c_name = [0x78], c_name_len = 1,
                 c_data_owned = True, c_owner = None, c_data_size = 1, c_v = Cc 0x41\<rparr>,
         2 \<mapsto> \<lparr>c_type = GWYFILE_ITEM_BOOL, c_array_length = 0, c_name = [0x79], c_name_len = 1,
                 c_data_owned = True, c_owner = None, c_data_size = 1, c_v = Cb False\<rparr>,
         3 \<mapsto> \<lparr>c_type = 0, c_array_length = 0, c_name = [], c_name_len = 0,
                 c_data_owned = False, c_owner = None, c_data_size = 0, c_v = Cb False\<rparr>],
      object_cells =
        [0 \<mapsto> \<lparr>o_owner = None, o_name = [0x4F], o_name_len = 1, o_items = [0],
                 o_data_size = 4\<rparr>],
      next_item = 4, next_object = 1\<rparr>"


section \<open>Properties\<close>

subsection \<open>The size test of the writer\<close>

lemma size_t_sub_simple: "b \<le> a \<Longrightarrow> a < 2 ^ 64 \<Longrightarrow> size_t_sub a b = a - b"
proof -
  assume a: "b \<le> a" "a < 2 ^ 64"
  then have "2 ^ 64 + a - b = (a - b) + 1 * 2 ^ 64" by simp
  then have "(2 ^ 64 + a - b) mod 2 ^ 64 = (a - b) mod 2 ^ 64"
    by (metis mod_mult_self1)
  also have "\<dots> = a - b" using a by simp
  finally show ?thesis by (simp add: size_t_sub_def)
qed

text \<open>
  Claim C7, as the code has it.  \<^verbatim>\<open>gwyfile_object_fwrite\<close> compares \<^verbatim>\<open>data_size\<close> with
  \<^verbatim>\<open>0xffffffff - sizeof(uint32_t) - name_len\<close>, not with \<^verbatim>\<open>0xffffffff\<close>: for an object
  whose name is at most \<open>0xFFFFFFFB\<close> bytes long, the call fails with \<^verbatim>\<open>OBJECT_SIZE\<close> in
  domain \<^verbatim>\<open>DATA\<close> having written nothing exactly when name length, the four bytes of the
  length prefix and the payload together exceed \<open>0xFFFFFFFF\<close>; otherwise the test passes,
  the name and the 32-bit payload length are written and the items follow.
\<close>

theorem gwyfile_object_fwrite_size_check:
  assumes "object_name_len object \<le> 0xFFFFFFFB"
  shows "((gwyfile_object_fwrite object =
            ([], Some (GwyfileError GWYFILE_ERROR_DOMAIN_DATA GWYFILE_ERROR_OBJECT_SIZE)))
          \<longleftrightarrow> object_name_len object + 4 + object_data_size object > 0xFFFFFFFF)
       \<and> (object_name_len object + 4 + object_data_size object \<le> 0xFFFFFFFF \<longrightarrow>
          gwyfile_object_fwrite object =
            (fwrite_name (object_name object) (object_name_len object)
               @ le_bytes 4 (object_data_size object) @ fst (fwrite_items (object_items object)),
             snd (fwrite_items (object_items object))))"
proof -
  obtain name name_len items data_size
    where ob: "object = GwyfileObject name name_len items data_size"
    by (cases object)
  have nl: "name_len \<le> 0xFFFFFFFB" using assms ob by simp
  have lim: "size_t_sub (size_t_sub 0xffffffff 4) name_len = 0xFFFFFFFB - name_len"
    using nl by (simp add: size_t_sub_simple)
  have ne: "fwrite_name name name_len \<noteq> []"
    using nl by (simp add: fwrite_name_def unsigned_int_def)
  have "(gwyfile_object_fwrite object =
            ([], Some (GwyfileError GWYFILE_ERROR_DOMAIN_DATA GWYFILE_ERROR_OBJECT_SIZE)))
         \<longleftrightarrow> object_name_len object + 4 + object_data_size object > 0xFFFFFFFF"
    using nl ne by (auto simp: ob lim split: prod.splits)
  moreover have "object_name_len object + 4 + object_data_size object \<le> 0xFFFFFFFF \<Longrightarrow>
         gwyfile_object_fwrite object =
           (fwrite_name (object_name object) (object_name_len object)
              @ le_bytes 4 (object_data_size object) @ fst (fwrite_items (object_items object)),
            snd (fwrite_items (object_items object)))"
    using nl by (auto simp: ob lim split: prod.splits)
  ultimately show ?thesis by blast
qed

theorem gwyfile_object_fwrite_size_check_witness:
  "object_name_len (GwyfileObject [0x54] 1 [] 0) \<le> 0xFFFFFFFB
   \<and> object_name_len (GwyfileObject [0x54] 1 [] 0) + 4
       + object_data_size (GwyfileObject [0x54] 1 [] 0) \<le> 0xFFFFFFFF
   \<and> gwyfile_object_fwrite (GwyfileObject [0x54] 1 [] 0) = ([0x54, 0, 0, 0, 0, 0], None)"
  using gwyfile_object_fwrite_size_check [of "GwyfileObject [0x54] 1 [] 0"]
  by (simp add: fwrite_name_def unsigned_int_def le_bytes_4)

text \<open>
  The claim as stated fails: an object holding one character array of 4294967286 bytes has
  a payload of \<open>0xFFFFFFFC\<close> bytes, which fits the 32-bit prefix, and is refused.
\<close>

theorem gwyfile_object_fwrite_size_counterexample:
  "gwyfile_object_append (gwyfile_object_new_internal [])
      (gwyfile_item_new_internal_char_array [] (replicate 4294967286 0) 4294967286)
    = Inr (GwyfileObject [] 0
        [GwyfileItem 4294967286 [] 0 True 4294967290 (Vca (replicate 4294967286 0))] 4294967292)
   \<and> object_data_size (GwyfileObject [] 0
        [GwyfileItem 4294967286 [] 0 True 4294967290 (Vca (replicate 4294967286 0))] 4294967292)
       \<le> 0xFFFFFFFF
   \<and> gwyfile_object_fwrite (GwyfileObject [] 0
        [GwyfileItem 4294967286 [] 0 True 4294967290 (Vca (replicate 4294967286 0))] 4294967292)
     = ([], Some (GwyfileError GWYFILE_ERROR_DOMAIN_DATA GWYFILE_ERROR_OBJECT_SIZE))"
  by (simp add: gwyfile_object_append_def gwyfile_object_new_internal_def item_new_defs
      item_size_def unsigned_int_def SIZE_MAX_def size_t_sub_def)

subsection \<open>Reading and writing concrete files\<close>

lemma le_bytes_8:
  "le_bytes 8 x = [of_nat (x mod 256), of_nat (x div 256 mod 256),
     of_nat (x div 256 div 256 mod 256), of_nat (x div 256 div 256 div 256 mod 256),
     of_nat (x div 256 div 256 div 256 div 256 mod 256),
     of_nat (x div 256 div 256 div 256 div 256 div 256 mod 256),
     of_nat (x div 256 div 256 div 256 div 256 div 256 div 256 mod 256),
     of_nat (x div 256 div 256 div 256 div 256 div 256 div 256 div 256 mod 256)]"
proof -
  have "le_bytes (Suc (Suc (Suc (Suc (Suc (Suc (Suc (Suc 0)))))))) x =
    [of_nat (x mod 256), of_nat (x div 256 mod 256),
     of_nat (x div 256 div 256 mod 256), of_nat (x div 256 div 256 div 256 mod 256),
     of_nat (x div 256 div 256 div 256 div 256 mod 256),
     of_nat (x div 256 div 256 div 256 div 256 div 256 mod 256),
     of_nat (x div 256 div 256 div 256 div 256 div 256 div 256 mod 256),
     of_nat (x div 256 div 256 div 256 div 256 div 256 div 256 div 256 mod 256)]"
    by simp
  moreover have "(8::nat) = Suc (Suc (Suc (Suc (Suc (Suc (Suc (Suc 0)))))))" by simp
  ultimately show ?thesis by metis
qed

lemmas fread_eval = gwyfile_object_fread_internal.simps fread_object_items.simps
  gwyfile_item_fread_internal.simps fread_object_array.simps
  gwyfile_fread_def gwyfile_object_fread_def gwyfile_check_size_def fread_def gwyfile_fread_le_def
  gwyfile_fread_string_def fread_item_header_def fread_plain_item_def
  gwyfile_item_type_is_valid_def gwyfile_item_type_is_array_def valid_types_def array_types_def
  item_type_defs item_new_defs gwyfile_object_new_internal_def gwyfile_object_append_def
  gwyfile_object_find_duplicate_item_def item_size_def object_size_def
  unsigned_int_def SIZE_MAX_def GWYFILE_MAX_DEPTH_def GWYFILE_MAGIC_LEN_def
  GWYFILE_MAGIC_HEADER2_def gwyfile_set_error_fread_def gwyfile_set_error_overrun_def

lemmas fwrite_eval = gwyfile_fwrite_def fwrite_name_def size_t_sub_def unsigned_int_def
  le_bytes_4 le_bytes_8 item_type_defs GWYFILE_MAGIC_HEADER2_def

text \<open>
  Claim C1 at a concrete file.  The file holds the object \<^verbatim>\<open>"T"\<close> with the items
  \<^verbatim>\<open>"b"\<close> (a boolean) and \<^verbatim>\<open>"a"\<close> (a character), in this order.  \<^verbatim>\<open>gwyfile_fread\<close> accepts all
  of it; \<^verbatim>\<open>gwyfile_fwrite\<close> of the object it returns writes \<^verbatim>\<open>"a"\<close> before \<^verbatim>\<open>"b"\<close>, which is
  not the byte sequence that was read.
\<close>

theorem fread_fwrite_changes_bytes:
  "gwyfile_fread (\<lambda>_. 0)
     [0x47, 0x57, 0x59, 0x50, 0x54, 0, 8, 0, 0, 0, 0x62, 0, 0x62, 1, 0x61, 0, 0x63, 0x41] SIZE_MAX
   = Inr (GwyfileObject [0x54] 1
            [GwyfileItem 0 [0x61] 1 True 1 (Vc 0x41), GwyfileItem 0 [0x62] 1 True 1 (Vb True)] 8, [])
   \<and> gwyfile_fwrite (GwyfileObject [0x54] 1
            [GwyfileItem 0 [0x61] 1 True 1 (Vc 0x41), GwyfileItem 0 [0x62] 1 True 1 (Vb True)] 8)
     = ([0x47, 0x57, 0x59, 0x50, 0x54, 0, 8, 0, 0, 0, 0x61, 0, 0x63, 0x41, 0x62, 0, 0x62, 1], None)"
  by (simp add: fread_eval fwrite_eval)

text \<open>
  Claim C2 at a concrete file.  On the wire the object \<^verbatim>\<open>"T"\<close> holds \<^verbatim>\<open>"z"\<close>, then \<^verbatim>\<open>"m"\<close>,
  then \<^verbatim>\<open>"a"\<close>.  After \<^verbatim>\<open>gwyfile_fread\<close>, both \<^verbatim>\<open>gwyfile_object_item_names\<close> and
  \<^verbatim>\<open>gwyfile_object_foreach\<close> yield \<^verbatim>\<open>"a"\<close>, \<^verbatim>\<open>"m"\<close>, \<^verbatim>\<open>"z"\<close>: the order \<^verbatim>\<open>qsort\<close> left in the
  array in \<^verbatim>\<open>gwyfile_object_find_duplicate_item\<close>, not the order of the wire.
\<close>

theorem fread_item_order_is_sorted:
  "gwyfile_fread (\<lambda>_. 0)
     [0x47, 0x57, 0x59, 0x50, 0x54, 0, 12, 0, 0, 0,
      0x7A, 0, 0x62, 1, 0x6D, 0, 0x62, 0, 0x61, 0, 0x63, 0x41] SIZE_MAX
   = Inr (GwyfileObject [0x54] 1
            [GwyfileItem 0 [0x61] 1 True 1 (Vc 0x41), GwyfileItem 0 [0x6D] 1 True 1 (Vb False),
             GwyfileItem 0 [0x7A] 1 True 1 (Vb True)] 12, [])
   \<and> gwyfile_object_item_names (GwyfileObject [0x54] 1
            [GwyfileItem 0 [0x61] 1 True 1 (Vc 0x41), GwyfileItem 0 [0x6D] 1 True 1 (Vb False),
             GwyfileItem 0 [0x7A] 1 True 1 (Vb True)] 12)
     = Some [[0x61], [0x6D], [0x7A]]
   \<and> gwyfile_object_foreach (GwyfileObject [0x54] 1
            [GwyfileItem 0 [0x61] 1 True 1 (Vc 0x41), GwyfileItem 0 [0x6D] 1 True 1 (Vb False),
             GwyfileItem 0 [0x7A] 1 True 1 (Vb True)] 12)
          (\<lambda>item names. names @ [item_name item]) []
     = [[0x61], [0x6D], [0x7A]]"
  by (simp add: fread_eval gwyfile_object_item_names_def gwyfile_object_foreach_def
      gwyfile_object_nitems_def)

text \<open>
  Claim C5 at a concrete file.  The first file is what \<^verbatim>\<open>gwyfile_fwrite\<close> writes for the
  object \<^verbatim>\<open>"T"\<close> with the character array \<^verbatim>\<open>"a"\<close> of two bytes, and it reads back.  With
  its last byte cut off, \<^verbatim>\<open>fread(ca, sizeof(char), alen, stream)\<close> returns 1, which the
  code tests only for being non-zero: \<^verbatim>\<open>gwyfile_fread\<close> succeeds, and the second byte of
  the array is whatever the allocated buffer held.
\<close>

theorem fread_truncated_char_array_succeeds:
  "gwyfile_fwrite (GwyfileObject [0x54] 1 [GwyfileItem 2 [0x61] 1 True 6 (Vca [7, 8])] 9)
     = ([0x47, 0x57, 0x59, 0x50, 0x54, 0, 9, 0, 0, 0, 0x61, 0, 0x43, 2, 0, 0, 0, 7, 8], None)
   \<and> gwyfile_fread mem
     [0x47, 0x57, 0x59, 0x50, 0x54, 0, 9, 0, 0, 0, 0x61, 0, 0x43, 2, 0, 0, 0, 7, 8] SIZE_MAX
     = Inr (GwyfileObject [0x54] 1 [GwyfileItem 2 [0x61] 1 True 6 (Vca [7, 8])] 9, [])
   \<and> gwyfile_fread mem
     [0x47, 0x57, 0x59, 0x50, 0x54, 0, 9, 0, 0, 0, 0x61, 0, 0x43, 2, 0, 0, 0, 7] SIZE_MAX
     = Inr (GwyfileObject [0x54] 1 [GwyfileItem 2 [0x61] 1 True 6 (Vca [7, mem 1])] 9, [])"
  by (simp add: fread_eval fwrite_eval upt_conv_Cons)

subsection \<open>Inversion of the reader equations\<close>

lemma object_fread_InrE:
  assumes "gwyfile_object_fread_internal L mem s m d = Inr (object, rest)"
  obtains name m1 s1 m2 bs s2 ob1 where
    "d < L" "gwyfile_fread_string s m = Inr (name, m1, s1)"
    "gwyfile_check_size m1 4 = Inr m2" "gwyfile_fread_le 4 1 s1 = Some (bs, s2)"
    "le_nat bs \<le> m2"
    "fread_object_items L mem s2 (le_nat bs) d (gwyfile_object_new_internal name) = Inr (ob1, rest)"
    "object_data_size ob1 = le_nat bs"
    "gwyfile_object_find_duplicate_item ob1 = (None, object)"
  using assms unfolding gwyfile_object_fread_internal.simps[of L mem s m d]
  by (auto split: if_splits sum.splits prod.splits option.splits)

lemma object_fread_header:
  assumes "gwyfile_fread_string s m = Inr (name, m1, s1)"
    "gwyfile_check_size m1 4 = Inr m2" "gwyfile_fread_le 4 1 s1 = Some (bs, s2)"
    "le_nat bs \<le> m2"
  shows "gwyfile_object_fread_internal L mem s m d =
     (if L \<le> d then Inl too_deep
      else case fread_object_items L mem s2 (le_nat bs) d (gwyfile_object_new_internal name) of
             Inl e \<Rightarrow> Inl e
           | Inr (ob1, s3) \<Rightarrow>
               if object_data_size ob1 \<noteq> le_nat bs then Inl Abort
               else (case gwyfile_object_find_duplicate_item ob1 of
                       (Some dupname, object') \<Rightarrow>
                          Inl (GwyfileError GWYFILE_ERROR_DOMAIN_DATA GWYFILE_ERROR_DUPLICATE_NAME)
                     | (None, object') \<Rightarrow> Inr (object', s3)))"
  using assms unfolding gwyfile_object_fread_internal.simps[of L mem s m d] too_deep_def
  by (simp split: sum.splits prod.splits option.splits)

lemma item_fread_InrE:
  assumes "gwyfile_item_fread_internal L mem s m d = Inr (item, rest)"
  shows "\<exists>name type alen m' s'.
    fread_item_header s m = Inr (name, type, alen, m', s')
    \<and> (type = GWYFILE_ITEM_OBJECT \<longrightarrow> (\<exists>object.
        gwyfile_object_fread_internal L mem s' m' d = Inr (object, rest)
        \<and> item = gwyfile_item_new_internal_object name object))
    \<and> (type = GWYFILE_ITEM_OBJECT_ARRAY \<longrightarrow> (\<exists>oa. alen \<le> m' div 5 \<and>
        fread_object_array L mem s' m' d alen [] = Inr (oa, rest)
        \<and> item = gwyfile_item_new_internal_object_array name oa alen))
    \<and> (type \<noteq> GWYFILE_ITEM_OBJECT \<longrightarrow> type \<noteq> GWYFILE_ITEM_OBJECT_ARRAY \<longrightarrow>
        fread_plain_item mem name type alen s' m' = Inr (item, rest))"
  using assms unfolding gwyfile_item_fread_internal.simps[of L mem s m d]
  by (auto split: if_splits sum.splits prod.splits simp: item_type_defs)

lemma item_fread_header:
  assumes "fread_item_header s m = Inr (name, type, alen, m', s')"
  shows "gwyfile_item_fread_internal L mem s m d =
     (if type = GWYFILE_ITEM_OBJECT then
        (case gwyfile_object_fread_internal L mem s' m' d of
           Inl e \<Rightarrow> Inl e
         | Inr (object, s'') \<Rightarrow> Inr (gwyfile_item_new_internal_object name object, s''))
      else if type = GWYFILE_ITEM_OBJECT_ARRAY then
        (if alen > m' div 5 then Inl gwyfile_set_error_overrun
         else (case fread_object_array L mem s' m' d alen [] of
                 Inl e \<Rightarrow> Inl e
               | Inr (oa, s'') \<Rightarrow>
                   Inr (gwyfile_item_new_internal_object_array name oa alen, s'')))
      else fread_plain_item mem name type alen s' m')"
  using assms unfolding gwyfile_item_fread_internal.simps[of L mem s m d]
  by simp


subsection \<open>The depth bound\<close>

lemma items_nesting_le: "items_nesting items \<le> k \<longleftrightarrow> (\<forall>i\<in>set items. item_nesting i \<le> k)"
  by (induction items) auto

lemma objects_nesting_le: "objects_nesting oa \<le> k \<longleftrightarrow> (\<forall>ob\<in>set oa. object_nesting ob \<le> k)"
  by (induction oa) auto

lemma object_nesting_pos: "0 < object_nesting object"
  by (cases object) simp

lemma object_fits_iff:
  "d + object_nesting object \<le> L \<longleftrightarrow>
     d < L \<and> (\<forall>i\<in>set (object_items object). item_fits L (d + 1) i)"
proof (cases object)
  case (GwyfileObject name name_len items data_size)
  have "d + Suc (items_nesting items) \<le> L \<longleftrightarrow> d < L \<and> items_nesting items \<le> L - d - 1"
    by auto
  also have "\<dots> \<longleftrightarrow> d < L \<and> (\<forall>i\<in>set items. item_nesting i \<le> L - d - 1)"
    by (simp add: items_nesting_le)
  also have "\<dots> \<longleftrightarrow> d < L \<and> (\<forall>i\<in>set items. item_fits L (d + 1) i)"
    by (auto simp: item_fits_def)
  finally show ?thesis using GwyfileObject by simp
qed

lemma objects_fit_iff:
  "oa \<noteq> [] \<Longrightarrow> (objects_nesting oa = 0 \<or> e + objects_nesting oa \<le> L) \<longleftrightarrow>
     (\<forall>ob\<in>set oa. e + object_nesting ob \<le> L)"
proof -
  assume ne: "oa \<noteq> []"
  then obtain ob where "ob \<in> set oa" by (cases oa) auto
  then have pos: "0 < objects_nesting oa"
    using objects_nesting_le[of oa 0] object_nesting_pos[of ob] by auto
  have "e + objects_nesting oa \<le> L \<longleftrightarrow> e \<le> L \<and> objects_nesting oa \<le> L - e" by auto
  also have "\<dots> \<longleftrightarrow> e \<le> L \<and> (\<forall>ob\<in>set oa. object_nesting ob \<le> L - e)"
    by (simp add: objects_nesting_le)
  also have "\<dots> \<longleftrightarrow> (\<forall>ob\<in>set oa. e + object_nesting ob \<le> L)"
    using \<open>ob \<in> set oa\<close> by auto
  finally show ?thesis using pos by simp
qed

lemma fread_plain_item_nesting:
  "fread_plain_item mem name type alen stream max_size = Inr (item, stream') \<Longrightarrow>
     item_nesting item = 0"
  unfolding fread_plain_item_def
  by (auto simp: item_new_defs split: if_splits sum.splits list.splits option.splits prod.splits)

lemma find_duplicate_items:
  "gwyfile_object_find_duplicate_item ob1 = (r, object) \<Longrightarrow>
     set (object_items object) = set (object_items ob1)"
  by (auto simp: gwyfile_object_find_duplicate_item_def Let_def split: if_splits)

lemma append_items:
  "gwyfile_object_append object item = Inr object' \<Longrightarrow>
     object_items object' = object_items object @ [item]"
  by (auto simp: gwyfile_object_append_def split: if_splits)

lemma fread_object_items_prefix:
  "fread_object_items L mem s ds d ob = Inr (ob', rest) \<Longrightarrow>
     set (object_items ob) \<subseteq> set (object_items ob')"
proof (induction L mem s ds d ob
    rule: gwyfile_object_fread_internal_fread_object_items_gwyfile_item_fread_internal_fread_object_array.induct(2)
      [where P = "\<lambda>_ _ _ _ _. True" and R = "\<lambda>_ _ _ _ _. True" and S = "\<lambda>_ _ _ _ _ _ _. True"])
  case (2 max_depth mem stream data_size depth object)
  show ?case
  proof (cases "object_data_size object < data_size")
    case True
    with 2(3) obtain item s1 ob1 where
      a: "gwyfile_item_fread_internal max_depth mem stream
            (data_size - object_data_size object) (unsigned_int (depth + 1)) = Inr (item, s1)"
      and b: "gwyfile_object_append object item = Inr ob1"
      and c: "fread_object_items max_depth mem s1 data_size depth ob1 = Inr (ob', rest)"
      unfolding fread_object_items.simps[of max_depth mem stream data_size depth object]
      by (auto split: sum.splits prod.splits)
    from 2(2)[OF True a refl b c] append_items[OF b] show ?thesis by auto
  next
    case False
    with 2(3) show ?thesis
      unfolding fread_object_items.simps[of max_depth mem stream data_size depth object]
      by simp
  qed
qed simp_all

lemma fread_object_array_prefix:
  "fread_object_array L mem s m d n oa = Inr (oa', rest) \<Longrightarrow> set oa \<subseteq> set oa'"
proof (induction L mem s m d n oa
    rule: gwyfile_object_fread_internal_fread_object_items_gwyfile_item_fread_internal_fread_object_array.induct(4)
      [where P = "\<lambda>_ _ _ _ _. True" and R = "\<lambda>_ _ _ _ _. True" and Q = "\<lambda>_ _ _ _ _ _. True"])
  case (4 max_depth mem stream max_size depth n oa)
  show ?case
  proof (cases "n = 0")
    case True
    with 4(3) show ?thesis
      unfolding fread_object_array.simps[of max_depth mem stream max_size depth n oa] by simp
  next
    case False
    with 4(3) obtain ob s1 where
      a: "gwyfile_object_fread_internal max_depth mem stream max_size depth = Inr (ob, s1)"
      and b: "object_size ob \<le> max_size"
      and c: "fread_object_array max_depth mem s1 (max_size - object_size ob) depth (n - 1)
                (oa @ [ob]) = Inr (oa', rest)"
      unfolding fread_object_array.simps[of max_depth mem stream max_size depth n oa]
      by (auto split: sum.splits prod.splits if_splits)
    from 4(2)[OF False a refl b c] show ?thesis by auto
  qed
qed simp_all


lemma fread_depth_limit:
  fixes L :: nat
  shows
    "max_depth < 2 ^ 32 \<Longrightarrow>
       gwyfile_object_fread_internal max_depth mem s m d = Inr (object, rest) \<Longrightarrow>
       gwyfile_object_fread_internal L mem s m d =
         (if d + object_nesting object \<le> L then Inr (object, rest) else Inl too_deep)"
    and
    "max_depth < 2 ^ 32 \<Longrightarrow> d < max_depth \<Longrightarrow>
       fread_object_items max_depth mem s ds d ob = Inr (ob', rest) \<Longrightarrow>
       \<forall>i\<in>set (object_items ob). item_fits L (d + 1) i \<Longrightarrow>
       fread_object_items L mem s ds d ob =
         (if \<forall>i\<in>set (object_items ob'). item_fits L (d + 1) i then Inr (ob', rest)
          else Inl too_deep)"
    and
    "max_depth < 2 ^ 32 \<Longrightarrow>
       gwyfile_item_fread_internal max_depth mem s m d = Inr (item, rest) \<Longrightarrow>
       gwyfile_item_fread_internal L mem s m d =
         (if item_fits L d item then Inr (item, rest) else Inl too_deep)"
    and
    "max_depth < 2 ^ 32 \<Longrightarrow>
       fread_object_array max_depth mem s m d n oa = Inr (oa', rest) \<Longrightarrow>
       \<forall>ob\<in>set oa. d + object_nesting ob \<le> L \<Longrightarrow>
       fread_object_array L mem s m d n oa =
         (if \<forall>ob\<in>set oa'. d + object_nesting ob \<le> L then Inr (oa', rest) else Inl too_deep)"
proof (induction max_depth mem s m d and max_depth mem s ds d ob and max_depth mem s m d
    and max_depth mem s m d n oa
    arbitrary: object rest and ob' rest and item rest and oa' rest
    rule: gwyfile_object_fread_internal_fread_object_items_gwyfile_item_fread_internal_fread_object_array.induct)
  case (1 max_depth mem stream max_size depth)
  from 1(3) obtain name m1 s1 m2 bs s2 ob1 where h:
    "depth < max_depth" "gwyfile_fread_string stream max_size = Inr (name, m1, s1)"
    "gwyfile_check_size m1 4 = Inr m2" "gwyfile_fread_le 4 1 s1 = Some (bs, s2)"
    "le_nat bs \<le> m2"
    and loop: "fread_object_items max_depth mem s2 (le_nat bs) depth
                 (gwyfile_object_new_internal name) = Inr (ob1, rest)"
    and sz: "object_data_size ob1 = le_nat bs"
    and dup: "gwyfile_object_find_duplicate_item ob1 = (None, object)"
    by (rule object_fread_InrE)
  have eq: "set (object_items object) = set (object_items ob1)"
    using dup by (rule find_duplicate_items)
  show ?case
  proof (cases "L \<le> depth")
    case True
    then have "\<not> depth + object_nesting object \<le> L"
      using object_nesting_pos[of object] by simp
    with True show ?thesis by (simp add: object_fread_header[OF h(2-5)])
  next
    case False
    have "fread_object_items L mem s2 (le_nat bs) depth (gwyfile_object_new_internal name) =
       (if \<forall>i\<in>set (object_items ob1). item_fits L (depth + 1) i then Inr (ob1, rest)
        else Inl too_deep)"
      using h by (intro 1(1)[OF _ h(2) refl refl h(3,4) refl _ 1(2) h(1) loop])
         (auto simp: gwyfile_object_new_internal_def)
    then show ?thesis
      using False sz dup
      by (simp add: object_fread_header[OF h(2-5)] object_fits_iff[of depth object L] eq)
  qed
next
  case (2 max_depth mem stream data_size depth object)
  have d1: "unsigned_int (Suc depth) = Suc depth"
    using 2(3,4) by (simp add: unsigned_int_def)
  show ?case
  proof (cases "object_data_size object < data_size")
    case False
    with 2(5) have "ob' = object" "rest = stream"
      unfolding fread_object_items.simps[of max_depth mem stream data_size depth object]
      by simp_all
    with False 2(6) show ?thesis
      unfolding fread_object_items.simps[of L mem stream data_size depth object]
      by simp
  next
    case True
    with 2(5) obtain item s1 ob1 where
      a: "gwyfile_item_fread_internal max_depth mem stream
            (data_size - object_data_size object) (unsigned_int (depth + 1)) = Inr (item, s1)"
      and b: "gwyfile_object_append object item = Inr ob1"
      and c: "fread_object_items max_depth mem s1 data_size depth ob1 = Inr (ob', rest)"
      unfolding fread_object_items.simps[of max_depth mem stream data_size depth object]
      by (auto split: sum.splits prod.splits)
    have items1: "object_items ob1 = object_items object @ [item]"
      using b by (rule append_items)
    have r: "gwyfile_item_fread_internal L mem stream
            (data_size - object_data_size object) (unsigned_int (depth + 1)) =
          (if item_fits L (depth + 1) item then Inr (item, s1) else Inl too_deep)"
      using 2(1)[OF True 2(3) a] by (simp add: d1)
    show ?thesis
    proof (cases "item_fits L (depth + 1) item")
      case fits: True
      then have all1: "\<forall>i\<in>set (object_items ob1). item_fits L (depth + 1) i"
        using 2(6) items1 by auto
      have "fread_object_items L mem s1 data_size depth ob1 =
         (if \<forall>i\<in>set (object_items ob'). item_fits L (depth + 1) i then Inr (ob', rest)
          else Inl too_deep)"
        by (rule 2(2)[OF True a refl b 2(3) 2(4) c all1])
      then show ?thesis
        using True fits r b
        unfolding fread_object_items.simps[of L mem stream data_size depth object]
        by simp
    next
      case nofit: False
      have "item \<in> set (object_items ob')"
        using fread_object_items_prefix[OF c] items1 by auto
      with nofit have "\<not> (\<forall>i\<in>set (object_items ob'). item_fits L (depth + 1) i)" by blast
      then show ?thesis
        using True nofit r
        unfolding fread_object_items.simps[of L mem stream data_size depth object]
        by simp
    qed
  qed
next
  case (3 max_depth mem stream max_size depth)
  from item_fread_InrE[OF 3(4)] obtain name type alen m' s' where
    hd: "fread_item_header stream max_size = Inr (name, type, alen, m', s')"
    and ob: "type = GWYFILE_ITEM_OBJECT \<longrightarrow> (\<exists>object.
        gwyfile_object_fread_internal max_depth mem s' m' depth = Inr (object, rest)
        \<and> item = gwyfile_item_new_internal_object name object)"
    and oa: "type = GWYFILE_ITEM_OBJECT_ARRAY \<longrightarrow> (\<exists>oa. alen \<le> m' div 5 \<and>
        fread_object_array max_depth mem s' m' depth alen [] = Inr (oa, rest)
        \<and> item = gwyfile_item_new_internal_object_array name oa alen)"
    and pl: "type \<noteq> GWYFILE_ITEM_OBJECT \<longrightarrow> type \<noteq> GWYFILE_ITEM_OBJECT_ARRAY \<longrightarrow>
        fread_plain_item mem name type alen s' m' = Inr (item, rest)"
    by blast
  consider (object) "type = GWYFILE_ITEM_OBJECT"
    | (array) "type \<noteq> GWYFILE_ITEM_OBJECT" "type = GWYFILE_ITEM_OBJECT_ARRAY"
    | (plain) "type \<noteq> GWYFILE_ITEM_OBJECT" "type \<noteq> GWYFILE_ITEM_OBJECT_ARRAY"
    by blast
  then show ?case
  proof cases
    case object
    with ob obtain object where
      a: "gwyfile_object_fread_internal max_depth mem s' m' depth = Inr (object, rest)"
      and b: "item = gwyfile_item_new_internal_object name object"
      by blast
    have "gwyfile_object_fread_internal L mem s' m' depth =
        (if depth + object_nesting object \<le> L then Inr (object, rest) else Inl too_deep)"
      by (rule 3(1)[OF hd refl refl refl refl object 3(3) a])
    moreover have "item_fits L depth item \<longleftrightarrow> depth + object_nesting object \<le> L"
      using object_nesting_pos[of object] by (simp add: b item_fits_def item_new_defs)
    ultimately show ?thesis
      using object b by (simp add: item_fread_header[OF hd])
  next
    case array
    with oa obtain oa' where
      le: "alen \<le> m' div 5"
      and a: "fread_object_array max_depth mem s' m' depth alen [] = Inr (oa', rest)"
      and b: "item = gwyfile_item_new_internal_object_array name oa' alen"
      by blast
    have r: "fread_object_array L mem s' m' depth alen [] =
        (if \<forall>ob\<in>set oa'. depth + object_nesting ob \<le> L then Inr (oa', rest) else Inl too_deep)"
      using le by (intro 3(2)[OF hd refl refl refl refl array _ 3(3) a]) auto
    have "item_fits L depth item \<longleftrightarrow> (\<forall>ob\<in>set oa'. depth + object_nesting ob \<le> L)"
    proof (cases "oa' = []")
      case True
      then show ?thesis by (simp add: b item_fits_def item_new_defs)
    next
      case False
      then show ?thesis
        using objects_fit_iff[OF False, of depth L] by (simp add: b item_fits_def item_new_defs)
    qed
    with r show ?thesis
      using array le b by (simp add: item_fread_header[OF hd])
  next
    case plain
    with pl have p: "fread_plain_item mem name type alen s' m' = Inr (item, rest)" by blast
    then have "item_fits L depth item"
      by (simp add: item_fits_def fread_plain_item_nesting)
    then show ?thesis
      using plain p by (simp add: item_fread_header[OF hd])
  qed
next
  case (4 max_depth mem stream max_size depth n oa)
  show ?case
  proof (cases "n = 0")
    case True
    with 4(4) have "oa' = oa" "rest = stream"
      unfolding fread_object_array.simps[of max_depth mem stream max_size depth n oa]
      by simp_all
    with True 4(5) show ?thesis
      unfolding fread_object_array.simps[of L mem stream max_size depth n oa]
      by simp
  next
    case False
    with 4(4) obtain ob s1 where
      a: "gwyfile_object_fread_internal max_depth mem stream max_size depth = Inr (ob, s1)"
      and b: "object_size ob \<le> max_size"
      and c: "fread_object_array max_depth mem s1 (max_size - object_size ob) depth (n - 1)
                (oa @ [ob]) = Inr (oa', rest)"
      unfolding fread_object_array.simps[of max_depth mem stream max_size depth n oa]
      by (auto split: sum.splits prod.splits if_splits)
    have r: "gwyfile_object_fread_internal L mem stream max_size depth =
        (if depth + object_nesting ob \<le> L then Inr (ob, s1) else Inl too_deep)"
      by (rule 4(1)[OF False 4(3) a])
    show ?thesis
    proof (cases "depth + object_nesting ob \<le> L")
      case fits: True
      then have all1: "\<forall>x\<in>set (oa @ [ob]). depth + object_nesting x \<le> L"
        using 4(5) by auto
      have "fread_object_array L mem s1 (max_size - object_size ob) depth (n - 1) (oa @ [ob]) =
          (if \<forall>ob\<in>set oa'. depth + object_nesting ob \<le> L then Inr (oa', rest)
           else Inl too_deep)"
        by (rule 4(2)[OF False a refl b 4(3) c all1])
      then show ?thesis
        using False fits r b
        unfolding fread_object_array.simps[of L mem stream max_size depth n oa]
        by simp
    next
      case nofit: False
      have "ob \<in> set oa'" using fread_object_array_prefix[OF c] by auto
      with nofit have "\<not> (\<forall>ob\<in>set oa'. depth + object_nesting ob \<le> L)" by blast
      then show ?thesis
        using False nofit r
        unfolding fread_object_array.simps[of L mem stream max_size depth n oa]
        by simp
    qed
  qed
qed


lemma le_nat_le_bytes: "le_nat (le_bytes n k) = k mod 256 ^ n"
proof (induction n arbitrary: k)
  case 0
  then show ?case by simp
next
  case (Suc n)
  have "unat (of_nat (k mod 256) :: byte) = k mod 256"
    by (simp add: unat_of_nat)
  then have "le_nat (le_bytes (Suc n) k) = k mod 256 + 256 * (k div 256 mod 256 ^ n)"
    by (simp add: Suc.IH)
  also have "\<dots> = k mod (256 * 256 ^ n)"
    by (simp add: mod_mult2_eq)
  finally show ?case by simp
qed

lemma length_le_bytes: "length (le_bytes n k) = n"
  by (induction n arbitrary: k) auto

lemma length_nested_bytes: "length (nested_bytes n) = 5 + 7 * n"
  by (induction n) (auto simp: length_le_bytes)

lemma object_size_nested: "object_size (nested_object n) = 5 + 7 * n"
  by (induction n) (auto simp: object_size_def unsigned_int_def)

lemma object_nesting_nested: "object_nesting (nested_object n) = Suc n"
  by (induction n) auto

lemma fread_string_nul: "0 < m \<Longrightarrow> gwyfile_fread_string (0 # s) m = Inr ([], m - 1, s)"
  by (simp add: gwyfile_fread_string_def)

lemma fread_le_4: "gwyfile_fread_le 4 1 (le_bytes 4 k @ s) = Some (le_bytes 4 k, s)"
  by (simp add: gwyfile_fread_le_def length_le_bytes)

lemma fread_nested:
  "n < 1000 \<Longrightarrow> d + n < L \<Longrightarrow> L \<le> 2 ^ 32 \<Longrightarrow> 5 + 7 * n \<le> m \<Longrightarrow>
     gwyfile_object_fread_internal L mem (nested_bytes n @ rest) m d = Inr (nested_object n, rest)"
proof (induction n arbitrary: d m rest)
  case 0
  have "gwyfile_fread_le 4 1 (0 # 0 # 0 # 0 # rest) = Some ([0, 0, 0, 0], rest)"
    by (simp add: gwyfile_fread_le_def)
  then show ?case
    using 0
    by (simp add: gwyfile_object_fread_internal.simps[of L mem _ m d] fread_string_nul
        gwyfile_check_size_def fread_object_items.simps[of L mem _ 0 d]
        gwyfile_object_new_internal_def gwyfile_object_find_duplicate_item_def unsigned_int_def)
next
  case (Suc n)
  let ?k = "7 + 7 * n"
  let ?s = "0 # 0x6F # nested_bytes n @ rest"
  let ?item = "GwyfileItem 0 [] 0 True (5 + 7 * n) (Vo (nested_object n))"
  have bytes: "nested_bytes (Suc n) @ rest = 0 # le_bytes 4 ?k @ ?s"
    by (simp add: length_nested_bytes del: le_bytes.simps)
  have "?k < 256 ^ 4" using Suc.prems by simp
  then have kk: "le_nat (le_bytes 4 ?k) = ?k"
    unfolding le_nat_le_bytes by (rule mod_less)
  have d1: "unsigned_int (Suc d) = Suc d"
    using Suc.prems by (simp add: unsigned_int_def)
  have inner: "gwyfile_object_fread_internal L mem (nested_bytes n @ rest) (5 + 7 * n) (Suc d) =
      Inr (nested_object n, rest)"
    using Suc.prems by (intro Suc.IH) auto
  have hdr: "fread_item_header ?s ?k =
      Inr ([], GWYFILE_ITEM_OBJECT, 0, 5 + 7 * n, nested_bytes n @ rest)"
    by (simp add: fread_item_header_def fread_string_nul gwyfile_check_size_def
        gwyfile_item_type_is_valid_def gwyfile_item_type_is_array_def valid_types_def
        array_types_def item_type_defs)
  have item: "gwyfile_item_fread_internal L mem ?s ?k (unsigned_int (Suc d)) = Inr (?item, rest)"
    unfolding d1 item_fread_header[OF hdr]
    by (simp add: inner item_new_defs object_size_nested unsigned_int_def)
  have app: "gwyfile_object_append (GwyfileObject [] 0 [] 0) ?item =
      Inr (GwyfileObject [] 0 [?item] ?k)"
    using Suc.prems
    by (simp add: gwyfile_object_append_def item_size_def unsigned_int_def SIZE_MAX_def)
  have stop: "fread_object_items L mem rest ?k d (GwyfileObject [] 0 [?item] ?k) =
      Inr (GwyfileObject [] 0 [?item] ?k, rest)"
    by (subst fread_object_items.simps) simp
  have loop: "fread_object_items L mem ?s ?k d (GwyfileObject [] 0 [] 0) =
      Inr (GwyfileObject [] 0 [?item] ?k, rest)"
    by (subst fread_object_items.simps) (simp add: item app stop)
  have str: "gwyfile_fread_string (0 # le_bytes 4 ?k @ ?s) m = Inr ([], m - 1, le_bytes 4 ?k @ ?s)"
    using Suc.prems by (intro fread_string_nul) simp
  have chk: "gwyfile_check_size (m - 1) 4 = Inr (m - 5)"
    using Suc.prems by (simp add: gwyfile_check_size_def)
  have rd: "gwyfile_fread_le 4 1 (le_bytes 4 ?k @ ?s) = Some (le_bytes 4 ?k, ?s)"
    by (rule fread_le_4)
  have le: "le_nat (le_bytes 4 ?k) \<le> m - 5"
    using Suc.prems unfolding kk by simp
  have new: "gwyfile_object_new_internal [] = GwyfileObject [] 0 [] 0"
    by (simp add: gwyfile_object_new_internal_def unsigned_int_def)
  have dup: "gwyfile_object_find_duplicate_item (GwyfileObject [] 0 [?item] ?k) =
      (None, GwyfileObject [] 0 [?item] ?k)"
    by (simp add: gwyfile_object_find_duplicate_item_def)
  have obj: "nested_object (Suc n) = GwyfileObject [] 0 [?item] ?k"
    by (simp add: object_size_nested)
  show ?case
    unfolding bytes object_fread_header[OF str chk rd le] kk new obj
    using Suc.prems by (simp add: loop dup)
qed

text \<open>
  Claim C6.  Let the stream hold a tree, i.e. let the reader run with some depth bound
  reconstruct \<open>object\<close> from it.  Then \<^verbatim>\<open>gwyfile_object_fread\<close>, whose bound is
  \<^verbatim>\<open>GWYFILE_MAX_DEPTH\<close> = 200, returns that object if its objects are nested at most 200
  levels deep, and fails with \<^verbatim>\<open>TOO_DEEP_NESTING\<close> in domain \<^verbatim>\<open>DATA\<close> otherwise.  (The
  counter is incremented once per object level: the object reader passes \<^verbatim>\<open>depth+1\<close> to
  the item reader, which passes its own depth on to the objects it holds.)
\<close>

theorem gwyfile_object_fread_depth_limit:
  assumes "max_depth < 2 ^ 32"
    and "gwyfile_object_fread_internal max_depth mem stream max_size 0 = Inr (object, rest)"
  shows "gwyfile_object_fread mem stream max_size =
     (if object_nesting object \<le> GWYFILE_MAX_DEPTH then Inr (object, rest)
      else Inl (GwyfileError GWYFILE_ERROR_DOMAIN_DATA GWYFILE_ERROR_TOO_DEEP_NESTING))"
  using fread_depth_limit(1)[OF assms, of GWYFILE_MAX_DEPTH]
  by (simp add: gwyfile_object_fread_def too_deep_def)

text \<open>
  The chain of 201 objects fails with \<^verbatim>\<open>TOO_DEEP_NESTING\<close>; the chain of 200 objects is read.
\<close>

theorem gwyfile_object_fread_depth_limit_witness:
  "(300::nat) < 2 ^ 32
   \<and> gwyfile_object_fread_internal 300 (\<lambda>_. 0) (nested_bytes 200) SIZE_MAX 0
       = Inr (nested_object 200, [])
   \<and> object_nesting (nested_object 200) = 201
   \<and> gwyfile_object_fread (\<lambda>_. 0) (nested_bytes 200) SIZE_MAX
       = Inl (GwyfileError GWYFILE_ERROR_DOMAIN_DATA GWYFILE_ERROR_TOO_DEEP_NESTING)
   \<and> gwyfile_object_fread_internal 300 (\<lambda>_. 0) (nested_bytes 199) SIZE_MAX 0
       = Inr (nested_object 199, [])
   \<and> object_nesting (nested_object 199) = 200
   \<and> gwyfile_object_fread (\<lambda>_. 0) (nested_bytes 199) SIZE_MAX = Inr (nested_object 199, [])"
proof -
  have a: "gwyfile_object_fread_internal 300 (\<lambda>_. 0) (nested_bytes 200 @ []) SIZE_MAX 0
       = Inr (nested_object 200, [])"
    by (rule fread_nested) (simp_all add: SIZE_MAX_def)
  have b: "gwyfile_object_fread_internal 300 (\<lambda>_. 0) (nested_bytes 199 @ []) SIZE_MAX 0
       = Inr (nested_object 199, [])"
    by (rule fread_nested) (simp_all add: SIZE_MAX_def)
  have c: "(300::nat) < 2 ^ 32" by simp
  show ?thesis
    using a b
      gwyfile_object_fread_depth_limit[OF c, of "\<lambda>_. 0" "nested_bytes 200" SIZE_MAX
        "nested_object 200" "[]"]
      gwyfile_object_fread_depth_limit[OF c, of "\<lambda>_. 0" "nested_bytes 199" SIZE_MAX
        "nested_object 199" "[]"]
    by (simp add: object_nesting_nested GWYFILE_MAX_DEPTH_def)
qed

subsection \<open>Confinement\<close>

lemma unsigned_int_le: "unsigned_int n \<le> n"
  by (simp add: unsigned_int_def)

lemma fread_string_loop_length:
  "fread_string_loop stream max_size len bufsize s = Inr (r, len', stream') \<Longrightarrow>
     length s = len \<Longrightarrow> len' = length r + 1"
  by (induction stream arbitrary: len bufsize s) (auto simp: Let_def split: if_splits)

lemma gwyfile_fread_string_exact:
  assumes "gwyfile_fread_string stream max_size = Inr (s, max_size', stream')"
  shows "max_size' + length s + 1 = max_size"
proof -
  from assms obtain len where
    l: "fread_string_loop stream max_size 0 0 [] = Inr (s, len, stream')"
    and m: "max_size' = max_size - len"
    unfolding gwyfile_fread_string_def by (auto split: if_splits sum.splits)
  have "len = length s + 1" using fread_string_loop_length[OF l] by simp
  moreover have "len \<le> max_size" using fread_string_loop_len[OF l] by simp
  ultimately show ?thesis using m by simp
qed

lemma fread_item_header_exact:
  assumes "fread_item_header stream max_size = Inr (name, type, alen, max_size', stream')"
  shows "max_size' + length name + 2 + (if gwyfile_item_type_is_array type then 4 else 0) = max_size"
  using assms unfolding fread_item_header_def gwyfile_check_size_def
  by (auto split: if_splits sum.splits list.splits option.splits prod.splits
           dest!: gwyfile_fread_string_exact)

lemma fread_string_array_sizes:
  "fread_string_array stream max_size n sa = Inr (sa', stream') \<Longrightarrow>
     length sa' = length sa + n \<and>
     sum_list (map (\<lambda>s. length s + 1) sa') \<le> sum_list (map (\<lambda>s. length s + 1) sa) + max_size"
proof (induction n arbitrary: stream max_size sa)
  case 0
  then show ?case by simp
next
  case (Suc n)
  from Suc.prems obtain s m1 s1 where
    a: "gwyfile_fread_string stream max_size = Inr (s, m1, s1)"
    and b: "fread_string_array s1 m1 n (sa @ [s]) = Inr (sa', stream')"
    by (auto split: sum.splits prod.splits)
  from Suc.IH[OF b] gwyfile_fread_string_exact[OF a] show ?case by simp
qed

lemma fread_plain_item_size:
  assumes "fread_plain_item mem name type alen stream max_size = Inr (item, stream')"
  shows "item_name_len item = unsigned_int (length name) \<and>
         item_data_size item \<le> max_size + (if gwyfile_item_type_is_array type then 4 else 0)"
proof -
  have arr: "gwyfile_item_type_is_array GWYFILE_ITEM_CHAR_ARRAY"
    "gwyfile_item_type_is_array GWYFILE_ITEM_INT32_ARRAY"
    "gwyfile_item_type_is_array GWYFILE_ITEM_INT64_ARRAY"
    "gwyfile_item_type_is_array GWYFILE_ITEM_DOUBLE_ARRAY"
    "gwyfile_item_type_is_array GWYFILE_ITEM_STRING_ARRAY"
    by (simp_all add: gwyfile_item_type_is_array_def array_types_def item_type_defs)
  consider (b) "type = GWYFILE_ITEM_BOOL" | (c) "type = GWYFILE_ITEM_CHAR"
    | (i) "type = GWYFILE_ITEM_INT32" | (q) "type = GWYFILE_ITEM_INT64"
    | (d) "type = GWYFILE_ITEM_DOUBLE" | (s) "type = GWYFILE_ITEM_STRING"
    | (ca) "type = GWYFILE_ITEM_CHAR_ARRAY" | (ia) "type = GWYFILE_ITEM_INT32_ARRAY"
    | (qa) "type = GWYFILE_ITEM_INT64_ARRAY" | (da) "type = GWYFILE_ITEM_DOUBLE_ARRAY"
    | (sa) "type = GWYFILE_ITEM_STRING_ARRAY"
    | (other) "type \<notin> {GWYFILE_ITEM_BOOL, GWYFILE_ITEM_CHAR, GWYFILE_ITEM_INT32,
        GWYFILE_ITEM_INT64, GWYFILE_ITEM_DOUBLE, GWYFILE_ITEM_STRING, GWYFILE_ITEM_CHAR_ARRAY,
        GWYFILE_ITEM_INT32_ARRAY, GWYFILE_ITEM_INT64_ARRAY, GWYFILE_ITEM_DOUBLE_ARRAY,
        GWYFILE_ITEM_STRING_ARRAY}"
    by blast
  then show ?thesis
  proof cases
    case b
    with assms show ?thesis
      by (auto simp: fread_plain_item_def gwyfile_check_size_def item_new_defs
          split: if_splits list.splits)
  next
    case c
    with assms show ?thesis
      by (auto simp: fread_plain_item_def gwyfile_check_size_def item_new_defs item_type_defs
          split: if_splits list.splits)
  next
    case i
    with assms show ?thesis
      by (auto simp: fread_plain_item_def gwyfile_check_size_def item_new_defs item_type_defs
          split: if_splits option.splits)
  next
    case q
    with assms show ?thesis
      by (auto simp: fread_plain_item_def gwyfile_check_size_def item_new_defs item_type_defs
          split: if_splits option.splits)
  next
    case d
    with assms show ?thesis
      by (auto simp: fread_plain_item_def gwyfile_check_size_def item_new_defs item_type_defs
          split: if_splits option.splits)
  next
    case s
    with assms show ?thesis
      by (auto simp: fread_plain_item_def item_new_defs item_type_defs
          split: if_splits sum.splits dest!: gwyfile_fread_string_exact)
  next
    case ca
    with assms arr show ?thesis
      by (auto simp: fread_plain_item_def gwyfile_check_size_def item_new_defs item_type_defs
          fread_def split: if_splits)
  next
    case ia
    with assms arr show ?thesis
      by (auto simp: fread_plain_item_def item_new_defs item_type_defs
          split: if_splits option.splits)
  next
    case qa
    with assms arr show ?thesis
      by (auto simp: fread_plain_item_def item_new_defs item_type_defs
          split: if_splits option.splits)
  next
    case da
    with assms arr show ?thesis
      by (auto simp: fread_plain_item_def item_new_defs item_type_defs
          split: if_splits option.splits)
  next
    case sa
    with assms arr show ?thesis
      by (auto simp: fread_plain_item_def item_new_defs item_type_defs
          split: if_splits sum.splits dest!: fread_string_array_sizes)
  next
    case other
    with assms show ?thesis
      by (simp add: fread_plain_item_def)
  qed
qed


lemma find_duplicate_fields:
  "gwyfile_object_find_duplicate_item ob1 = (r, object) \<Longrightarrow>
     object_name object = object_name ob1 \<and> object_name_len object = object_name_len ob1
     \<and> object_data_size object = object_data_size ob1"
  by (auto simp: gwyfile_object_find_duplicate_item_def Let_def split: if_splits)

lemma append_fields:
  "gwyfile_object_append object item = Inr object' \<Longrightarrow>
     object_name object' = object_name object \<and> object_name_len object' = object_name_len object
     \<and> object_data_size object' = object_data_size object + item_size item"
  by (auto simp: gwyfile_object_append_def split: if_splits)

lemma fread_confined:
  shows
    "gwyfile_object_fread_internal max_depth mem s m d = Inr (object, rest) \<Longrightarrow>
       object_size object \<le> m"
    and
    "fread_object_items max_depth mem s ds d ob = Inr (ob', rest) \<Longrightarrow>
       object_name ob' = object_name ob \<and> object_name_len ob' = object_name_len ob
       \<and> (object_data_size ob \<le> ds \<longrightarrow> object_data_size ob' = ds)"
    and
    "gwyfile_item_fread_internal max_depth mem s m d = Inr (item, rest) \<Longrightarrow>
       item_size item \<le> m"
    and
    "fread_object_array max_depth mem s m d n oa = Inr (oa', rest) \<Longrightarrow>
       length oa' = length oa + n
       \<and> sum_list (map object_size oa') \<le> sum_list (map object_size oa) + m"
proof (induction max_depth mem s m d and max_depth mem s ds d ob and max_depth mem s m d
    and max_depth mem s m d n oa
    arbitrary: object rest and ob' rest and item rest and oa' rest
    rule: gwyfile_object_fread_internal_fread_object_items_gwyfile_item_fread_internal_fread_object_array.induct)
  case (1 max_depth mem stream max_size depth)
  from 1(2) obtain name m1 s1 m2 bs s2 ob1 where h:
    "depth < max_depth" "gwyfile_fread_string stream max_size = Inr (name, m1, s1)"
    "gwyfile_check_size m1 4 = Inr m2" "gwyfile_fread_le 4 1 s1 = Some (bs, s2)"
    "le_nat bs \<le> m2"
    and loop: "fread_object_items max_depth mem s2 (le_nat bs) depth
                 (gwyfile_object_new_internal name) = Inr (ob1, rest)"
    and sz: "object_data_size ob1 = le_nat bs"
    and dup: "gwyfile_object_find_duplicate_item ob1 = (None, object)"
    by (rule object_fread_InrE)
  have "object_name_len ob1 = unsigned_int (length name)"
    using 1(1)[OF _ h(2) refl refl h(3,4) refl _ loop] h
    by (simp add: gwyfile_object_new_internal_def)
  then have "object_size object \<le> length name + 1 + 4 + le_nat bs"
    using find_duplicate_fields[OF dup] sz unsigned_int_le[of "length name"]
      unsigned_int_le[of "unsigned_int (length name) + 1"]
    by (simp add: object_size_def)
  moreover have "m1 + length name + 1 = max_size"
    using h(2) by (rule gwyfile_fread_string_exact)
  moreover have "m2 + 4 = m1"
    using h(3) by (auto simp: gwyfile_check_size_def split: if_splits)
  ultimately show ?case using h(5) by simp
next
  case (2 max_depth mem stream data_size depth object)
  show ?case
  proof (cases "object_data_size object < data_size")
    case False
    with 2(3) show ?thesis
      unfolding fread_object_items.simps[of max_depth mem stream data_size depth object]
      by auto
  next
    case True
    with 2(3) obtain item s1 ob1 where
      a: "gwyfile_item_fread_internal max_depth mem stream
            (data_size - object_data_size object) (unsigned_int (depth + 1)) = Inr (item, s1)"
      and b: "gwyfile_object_append object item = Inr ob1"
      and c: "fread_object_items max_depth mem s1 data_size depth ob1 = Inr (ob', rest)"
      unfolding fread_object_items.simps[of max_depth mem stream data_size depth object]
      by (auto split: sum.splits prod.splits)
    have "item_size item \<le> data_size - object_data_size object"
      by (rule 2(1)[OF True a])
    then have "object_data_size ob1 \<le> data_size"
      using append_fields[OF b] True by simp
    with 2(2)[OF True a refl b c] append_fields[OF b] show ?thesis by simp
  qed
next
  case (3 max_depth mem stream max_size depth)
  from item_fread_InrE[OF 3(3)] obtain name type alen m' s' where
    hd: "fread_item_header stream max_size = Inr (name, type, alen, m', s')"
    and ob: "type = GWYFILE_ITEM_OBJECT \<longrightarrow> (\<exists>object.
        gwyfile_object_fread_internal max_depth mem s' m' depth = Inr (object, rest)
        \<and> item = gwyfile_item_new_internal_object name object)"
    and oa: "type = GWYFILE_ITEM_OBJECT_ARRAY \<longrightarrow> (\<exists>oa. alen \<le> m' div 5 \<and>
        fread_object_array max_depth mem s' m' depth alen [] = Inr (oa, rest)
        \<and> item = gwyfile_item_new_internal_object_array name oa alen)"
    and pl: "type \<noteq> GWYFILE_ITEM_OBJECT \<longrightarrow> type \<noteq> GWYFILE_ITEM_OBJECT_ARRAY \<longrightarrow>
        fread_plain_item mem name type alen s' m' = Inr (item, rest)"
    by blast
  note ex = fread_item_header_exact[OF hd]
  have u: "unsigned_int (1 + unsigned_int (length name) + 1) \<le> length name + 2"
    using unsigned_int_le[of "length name"] unsigned_int_le[of "1 + unsigned_int (length name) + 1"]
    by simp
  consider (object) "type = GWYFILE_ITEM_OBJECT"
    | (array) "type \<noteq> GWYFILE_ITEM_OBJECT" "type = GWYFILE_ITEM_OBJECT_ARRAY"
    | (plain) "type \<noteq> GWYFILE_ITEM_OBJECT" "type \<noteq> GWYFILE_ITEM_OBJECT_ARRAY"
    by blast
  then show ?case
  proof cases
    case object
    with ob obtain object where
      a: "gwyfile_object_fread_internal max_depth mem s' m' depth = Inr (object, rest)"
      and b: "item = gwyfile_item_new_internal_object name object"
      by blast
    have "object_size object \<le> m'"
      by (rule 3(1)[OF hd refl refl refl refl object a])
    then show ?thesis
      using ex u by (simp add: b item_size_def item_new_defs)
  next
    case array
    with oa obtain oa' where
      le: "alen \<le> m' div 5"
      and a: "fread_object_array max_depth mem s' m' depth alen [] = Inr (oa', rest)"
      and b: "item = gwyfile_item_new_internal_object_array name oa' alen"
      by blast
    have nle: "\<not> m' div 5 < alen" using le by simp
    have "length oa' = length [] + alen
       \<and> sum_list (map object_size oa') \<le> sum_list (map object_size []) + m'"
      using 3(2)[OF hd refl refl refl refl array nle a] by simp
    moreover have "gwyfile_item_type_is_array type"
      using array by (simp add: gwyfile_item_type_is_array_def array_types_def item_type_defs)
    ultimately show ?thesis
      using ex u by (simp add: b item_size_def item_new_defs)
  next
    case plain
    with pl have p: "fread_plain_item mem name type alen s' m' = Inr (item, rest)" by blast
    from fread_plain_item_size[OF p] ex u show ?thesis
      by (auto simp: item_size_def split: if_splits)
  qed
next
  case (4 max_depth mem stream max_size depth n oa)
  show ?case
  proof (cases "n = 0")
    case True
    with 4(3) show ?thesis
      unfolding fread_object_array.simps[of max_depth mem stream max_size depth n oa]
      by auto
  next
    case False
    with 4(3) obtain ob s1 where
      a: "gwyfile_object_fread_internal max_depth mem stream max_size depth = Inr (ob, s1)"
      and b: "object_size ob \<le> max_size"
      and c: "fread_object_array max_depth mem s1 (max_size - object_size ob) depth (n - 1)
                (oa @ [ob]) = Inr (oa', rest)"
      unfolding fread_object_array.simps[of max_depth mem stream max_size depth n oa]
      by (auto split: sum.splits prod.splits if_splits)
    from 4(2)[OF False a refl b c] b False show ?thesis by simp
  qed
qed


subsection \<open>Duplicate names in the reader\<close>

lemma adjacent_duplicate_distinct:
  "sorted (map item_name items) \<Longrightarrow> adjacent_duplicate items = None \<Longrightarrow>
     distinct (map item_name items)"
proof (induction items rule: adjacent_duplicate.induct)
  case (1 a b items)
  from 1(3) have ne: "item_name a \<noteq> item_name b"
    and none: "adjacent_duplicate (b # items) = None"
    by (auto split: if_splits)
  from 1(2) have le: "item_name a \<le> item_name b"
    and later: "\<forall>x\<in>set items. item_name b \<le> item_name x"
    and srt: "sorted (map item_name (b # items))"
    by auto
  have "distinct (map item_name (b # items))"
    using 1(1)[OF ne srt none] .
  moreover have "item_name a \<notin> set (map item_name (b # items))"
  proof
    assume "item_name a \<in> set (map item_name (b # items))"
    then obtain x where "x \<in> set items" "item_name x = item_name a"
      using ne by auto
    with later have "item_name b \<le> item_name a" by auto
    with le ne show False by simp
  qed
  ultimately show ?case by simp
qed simp_all

lemma distinct_map_sort_key: "distinct (map f (sort_key f xs)) = distinct (map f xs)"
  by (simp add: distinct_map)

lemma find_duplicate_None:
  assumes "gwyfile_object_find_duplicate_item ob = (None, ob')"
  shows "distinct (map item_name (object_items ob'))"
proof (cases "length (object_items ob) < 2")
  case True
  then have "distinct (map item_name (object_items ob))"
    by (cases "object_items ob"; cases "tl (object_items ob)") auto
  with True assms show ?thesis
    by (simp add: gwyfile_object_find_duplicate_item_def)
next
  case False
  with assms have a: "adjacent_duplicate (sort_key item_name (object_items ob)) = None"
    and b: "object_items ob' = sort_key item_name (object_items ob)"
    by (auto simp: gwyfile_object_find_duplicate_item_def Let_def)
  show ?thesis
    unfolding b by (rule adjacent_duplicate_distinct[OF _ a]) simp
qed

lemma find_duplicate_Some:
  assumes "\<not> distinct (map item_name (object_items ob))"
  shows "\<exists>dupname ob'. gwyfile_object_find_duplicate_item ob = (Some dupname, ob')"
proof (cases "fst (gwyfile_object_find_duplicate_item ob)")
  case None
  then have "gwyfile_object_find_duplicate_item ob = (None, snd (gwyfile_object_find_duplicate_item ob))"
    by (metis prod.collapse)
  from find_duplicate_None[OF this] find_duplicate_items[OF this]
  have "distinct (map item_name (object_items (snd (gwyfile_object_find_duplicate_item ob))))"
    by simp
  moreover have "object_items (snd (gwyfile_object_find_duplicate_item ob)) =
      (if length (object_items ob) < 2 then object_items ob
       else sort_key item_name (object_items ob))"
    by (simp add: gwyfile_object_find_duplicate_item_def Let_def)
  ultimately have "distinct (map item_name (object_items ob))"
    by (simp add: distinct_map_sort_key split: if_splits)
  with assms show ?thesis by simp
next
  case (Some dupname)
  then show ?thesis by (metis prod.collapse)
qed

lemma fread_names_distinct:
  assumes "gwyfile_object_fread_internal max_depth mem stream max_size depth = Inr (object, rest)"
  shows "distinct (map item_name (object_items object))"
proof -
  from assms obtain ob1 where "gwyfile_object_find_duplicate_item ob1 = (None, object)"
    by (rule object_fread_InrE)
  then show ?thesis by (rule find_duplicate_None)
qed

lemma fread_duplicate_name:
  assumes "depth < max_depth"
    and "gwyfile_fread_string stream max_size = Inr (name, m1, s1)"
    and "gwyfile_check_size m1 4 = Inr m2"
    and "gwyfile_fread_le 4 1 s1 = Some (bs, s2)"
    and "le_nat bs \<le> m2"
    and "fread_object_items max_depth mem s2 (le_nat bs) depth (gwyfile_object_new_internal name)
           = Inr (ob1, rest)"
    and "\<not> distinct (map item_name (object_items ob1))"
  shows "gwyfile_object_fread_internal max_depth mem stream max_size depth =
           Inl (GwyfileError GWYFILE_ERROR_DOMAIN_DATA GWYFILE_ERROR_DUPLICATE_NAME)"
proof -
  have "object_data_size ob1 = le_nat bs"
    using fread_confined(2)[OF assms(6)] by (simp add: gwyfile_object_new_internal_def)
  moreover obtain dupname ob' where
    "gwyfile_object_find_duplicate_item ob1 = (Some dupname, ob')"
    using find_duplicate_Some[OF assms(7)] by blast
  ultimately show ?thesis
    using assms(1) by (simp add: object_fread_header[OF assms(2-5)] assms(6))
qed


subsection \<open>Size accounting\<close>

lemmas store_eval = gwyfile_object_newv_def gwyfile_object_new_internal_st_def
  gwyfile_item_new_internal_st_def gwyfile_item_new_object_array_def gwyfile_item_new_bool_def
  gwyfile_object_find_duplicate_item_st_def gwyfile_object_append_st_def
  gwyfile_item_set_object_array_def gwyfile_item_notify_size_change_def
  gwyfile_object_propagate_size_change_def gwyfile_item_propagate_size_change_def
  propagate_size_change.simps gwyfile_item_size_def gwyfile_object_size_def
  gwyfile_item_data_size_def
  gwyfile_object_add_def put_item_def put_object_def empty_store_def free_fuel_def
  unsigned_int_def size_t_def SIZE_MAX_def item_type_defs
  sizes_ok_def object_sizes_ok_def item_sizes_ok_def
  gwyfile_object_free_fuel.simps free_object_items.simps
  gwyfile_object_remove_last_fuel.simps gwyfile_item_free_fuel.simps
  free_object_array.simps

text \<open>
  Claim C3 (size invariant after every mutation).  The invariant does not survive
  \<^verbatim>\<open>gwyfile_item_set_object_array\<close>: the function stores the new objects in the item but never
  sets their \<^verbatim>\<open>owner\<close> (unlike \<^verbatim>\<open>gwyfile_item_new_internal_object_array\<close>).  After the calls of
  \<open>calls_before\<close> all sizes are consistent; a following \<^verbatim>\<open>gwyfile_object_add\<close> of a boolean item
  to the new inner object succeeds, the object grows to 10 bytes on the wire, but the change is
  not propagated: the object-array item still records a data size of 10 instead of 14, so the
  invariant is broken.
\<close>

theorem size_invariant_broken_after_set_object_array:
  "(case calls_before of
      None \<Rightarrow> False
    | Some (p1, b, st) \<Rightarrow>
        sizes_ok st \<and>
        (case gwyfile_object_add st p1 b of
           None \<Rightarrow> False
         | Some (added, st') \<Rightarrow>
             added \<and> \<not> sizes_ok st'
             \<and> gwyfile_item_data_size st' (Some 0) = Some 10
             \<and> gwyfile_object_size st' p1 = Some 10))"
  by (simp add: calls_before_def store_eval upt_conv_Cons)


subsection \<open>Rejected additions\<close>

lemma name_present_iff:
  "\<forall>a\<in>set items. item_cells st a \<noteq> None \<Longrightarrow>
     name_present st items name =
       Some (\<exists>a\<in>set items. \<exists>c. item_cells st a = Some c \<and> c_name c = name)"
  by (induction items) auto

lemma add_duplicate:
  assumes "object_cells st object = Some oc"
    and "item_cells st item = Some ic"
    and "c_owner ic = None"
    and "\<forall>a\<in>set (o_items oc). item_cells st a \<noteq> None"
    and "\<exists>a\<in>set (o_items oc). \<exists>c. item_cells st a = Some c \<and> c_name c = c_name ic"
  shows "gwyfile_object_add st object item = Some (False, st)"
  using assms by (simp add: gwyfile_object_add_def name_present_iff)

text \<open>
  Claim C9 (a rejected \<^verbatim>\<open>gwyfile_object_add\<close> is atomic).  When the item is a root item and the
  object already holds an item of the same name, the call returns false and the whole store
  is unchanged: the item array, the item count and the data size of the object, the item
  already present, and the rejected item, which is neither freed nor given an owner.
\<close>

theorem gwyfile_object_add_failure_atomic:
  assumes "object_cells st object = Some oc"
    and "item_cells st item = Some ic"
    and "c_owner ic = None"
    and "\<forall>a\<in>set (o_items oc). item_cells st a \<noteq> None"
    and "\<exists>a\<in>set (o_items oc). \<exists>c. item_cells st a = Some c \<and> c_name c = c_name ic"
  shows "gwyfile_object_add st object item = Some (False, st)"
  using assms by (rule add_duplicate)

theorem gwyfile_object_add_failure_atomic_witness:
  "object_cells example_store 0 = Some \<lparr>o_owner = None, o_name = [0x4F], o_name_len = 1,
       o_items = [0], o_data_size = 4\<rparr>
   \<and> item_cells example_store 1 = Some \<lparr>c_type = GWYFILE_ITEM_CHAR, c_array_length = 0,
       c_name = [0x78], c_name_len = 1, c_data_owned = True, c_owner = None, c_data_size = 1,
       c_v = Cc 0x41\<rparr>
   \<and> map_option c_name (item_cells example_store 0) = Some [0x78]
   \<and> gwyfile_object_add example_store 0 1 = Some (False, example_store)"
  using gwyfile_object_add_failure_atomic[of example_store 0
      "\<lparr>o_owner = None, o_name = [0x4F], o_name_len = 1, o_items = [0], o_data_size = 4\<rparr>"
      1 "\<lparr>c_type = GWYFILE_ITEM_CHAR, c_array_length = 0,
       c_name = [0x78], c_name_len = 1, c_data_owned = True, c_owner = None, c_data_size = 1,
       c_v = Cc 0x41\<rparr>"]
  by (simp add: example_store_def)


subsection \<open>Names stay distinct\<close>

lemma same_names_trans: "same_names st st1 \<Longrightarrow> same_names st1 st' \<Longrightarrow> same_names st st'"
  by (simp add: same_names_def)

lemma propagate_keeps_names:
  assumes "propagate_size_change st n size_change increase = Some st'"
  shows "same_names st st'"
proof (rule propagate_size_change.raw_induct
    [where P = "\<lambda>st n size_change increase st'. same_names st st'", OF _ assms], goal_cases)
  case (1 propagate st n size_change increase st')
  show ?case
  proof (cases n)
    case (Object_node object)
    with 1(2) obtain oc where oc: "object_cells st object = Some oc"
      by (auto split: option.splits)
    let ?st1 = "put_object st object
        (oc\<lparr>o_data_size := (if increase then o_data_size oc + size_change
                             else o_data_size oc - size_change)\<rparr>)"
    have keep: "same_names st ?st1"
      using oc by (auto simp: put_object_def same_names_def)
    show ?thesis
    proof (cases "o_owner oc")
      case None
      with 1(2) Object_node oc have "st' = ?st1"
        by (auto split: if_splits simp: Let_def)
      with keep show ?thesis by simp
    next
      case (Some item)
      with 1(2) Object_node oc have "propagate ?st1 (Item_node item) size_change increase = Some st'"
        by (auto split: if_splits simp: Let_def)
      from 1(1)[OF this] keep show ?thesis by (rule same_names_trans[rotated])
    qed
  next
    case (Item_node item)
    with 1(2) obtain ic where ic: "item_cells st item = Some ic"
      by (auto split: option.splits)
    let ?st1 = "put_item st item
        (ic\<lparr>c_data_size := (if increase then c_data_size ic + size_change
                             else c_data_size ic - size_change)\<rparr>)"
    have keep: "same_names st ?st1"
      using ic by (auto simp: put_item_def same_names_def)
    show ?thesis
    proof (cases "c_owner ic")
      case None
      with 1(2) Item_node ic have "st' = ?st1"
        by (auto split: if_splits simp: Let_def)
      with keep show ?thesis by simp
    next
      case (Some object)
      with 1(2) Item_node ic have "propagate ?st1 (Object_node object) size_change increase = Some st'"
        by (auto split: if_splits simp: Let_def)
      from 1(1)[OF this] keep show ?thesis by (rule same_names_trans[rotated])
    qed
  qed
qed


lemma same_names_item_names:
  assumes "same_names st st'"
  shows "item_names st' object = item_names st object"
proof -
  have c: "\<And>a. map_option c_name (item_cells st' a) = map_option c_name (item_cells st a)"
    and o: "\<And>a. map_option o_items (object_cells st' a) = map_option o_items (object_cells st a)"
    using assms by (simp_all add: same_names_def)
  have none: "\<And>a. item_cells st' a = None \<longleftrightarrow> item_cells st a = None"
    using c by (metis map_option_is_None)
  have nm: "\<And>a. item_cells st a \<noteq> None \<Longrightarrow>
      c_name (the (item_cells st' a)) = c_name (the (item_cells st a))"
    using c by (metis none option.map_sel)
  show ?thesis
  proof (cases "object_cells st object")
    case None
    then have "object_cells st' object = None" using o[of object] by simp
    with None show ?thesis by (simp add: item_names_def)
  next
    case (Some oc)
    then obtain oc' where oc': "object_cells st' object = Some oc'" "o_items oc' = o_items oc"
      using o[of object] by auto
    show ?thesis
      using Some oc' none nm by (auto simp: item_names_def)
  qed
qed

lemma add_appends_name:
  assumes add: "gwyfile_object_add st object item = Some (True, st')"
    and names: "item_names st object = Some names"
    and ic: "item_cells st item = Some ic"
  shows "item_names st' object = Some (names @ [c_name ic]) \<and> c_name ic \<notin> set names"
proof -
  from names obtain oc where oc: "object_cells st object = Some oc"
    and alloc: "\<forall>a\<in>set (o_items oc). item_cells st a \<noteq> None"
    and nm: "names = map (\<lambda>a. c_name (the (item_cells st a))) (o_items oc)"
    by (auto simp: item_names_def split: option.splits if_splits)
  from add oc ic have absent: "name_present st (o_items oc) (c_name ic) = Some False"
    and app: "gwyfile_object_append_st st object item = Some st'"
    by (auto simp: gwyfile_object_add_def split: if_splits option.splits bool.splits)
  have notin: "c_name ic \<notin> set names"
  proof
    assume "c_name ic \<in> set names"
    then obtain a where a: "a \<in> set (o_items oc)" "c_name (the (item_cells st a)) = c_name ic"
      unfolding nm by auto
    with alloc obtain c where "item_cells st a = Some c" by auto
    with a absent show False unfolding name_present_iff[OF alloc] by auto
  qed
  let ?st2 = "put_item (put_object st object (oc\<lparr>o_items := o_items oc @ [item]\<rparr>)) item
      (ic\<lparr>c_owner := Some object\<rparr>)"
  from app oc ic obtain sz where
    "gwyfile_object_propagate_size_change ?st2 object sz True = Some st'"
    by (auto simp: gwyfile_object_append_st_def Let_def split: option.splits)
  then have "same_names ?st2 st'"
    unfolding gwyfile_object_propagate_size_change_def by (rule propagate_keeps_names)
  then have "item_names st' object = item_names ?st2 object"
    by (rule same_names_item_names)
  also have "\<dots> = Some (names @ [c_name ic])"
    using alloc ic by (auto simp: item_names_def put_item_def put_object_def nm)
  finally show ?thesis using notin by simp
qed

lemma add_keeps_distinct:
  assumes "gwyfile_object_add st object item = Some (added, st')"
    and "item_names st object = Some names"
    and "distinct names"
  shows "\<exists>names'. item_names st' object = Some names' \<and> distinct names'"
proof (cases added)
  case True
  from assms(1) obtain ic where "item_cells st item = Some ic"
    by (auto simp: gwyfile_object_add_def split: option.splits)
  moreover have "gwyfile_object_add st object item = Some (True, st')"
    using assms(1) True by simp
  ultimately show ?thesis
    using add_appends_name[of st object item st' names] assms(2,3) by auto
next
  case False
  with assms(1) have "st' = st"
    by (auto simp: gwyfile_object_add_def split: option.splits if_splits bool.splits)
  with assms show ?thesis by simp
qed

text \<open>
  Claim C4 (item names of an object are pairwise distinct, enforced at both entry points).
  \<^item> \<^verbatim>\<open>gwyfile_object_add\<close> returns false when the object already holds an item of that name;
  \<^item> whatever \<^verbatim>\<open>gwyfile_object_add\<close> returns, an object with distinct item names keeps distinct
    item names;
  \<^item> an object returned by the reader has distinct item names;
  \<^item> when the header of an object is read and the item loop reconstructs items of which two
    have the same name, the reader fails with \<^verbatim>\<open>DUPLICATE_NAME\<close> in domain \<^verbatim>\<open>DATA\<close>.
\<close>

theorem item_names_unique:
  "(object_cells st object = Some oc \<and> item_cells st item = Some ic \<and> c_owner ic = None
      \<and> (\<forall>a\<in>set (o_items oc). item_cells st a \<noteq> None)
      \<and> (\<exists>a\<in>set (o_items oc). \<exists>c. item_cells st a = Some c \<and> c_name c = c_name ic)
    \<longrightarrow> map_option fst (gwyfile_object_add st object item) = Some False)
   \<and> (gwyfile_object_add st object item = Some (added, st')
      \<and> item_names st object = Some names \<and> distinct names
    \<longrightarrow> (\<exists>names'. item_names st' object = Some names' \<and> distinct names'))
   \<and> (gwyfile_object_fread_internal max_depth mem stream max_size depth = Inr (object', rest)
    \<longrightarrow> distinct (map item_name (object_items object')))
   \<and> (depth < max_depth
      \<and> gwyfile_fread_string stream max_size = Inr (name, m1, s1)
      \<and> gwyfile_check_size m1 4 = Inr m2
      \<and> gwyfile_fread_le 4 1 s1 = Some (bs, s2)
      \<and> le_nat bs \<le> m2
      \<and> fread_object_items max_depth mem s2 (le_nat bs) depth (gwyfile_object_new_internal name)
          = Inr (ob1, rest1)
      \<and> \<not> distinct (map item_name (object_items ob1))
    \<longrightarrow> gwyfile_object_fread_internal max_depth mem stream max_size depth =
          Inl (GwyfileError GWYFILE_ERROR_DOMAIN_DATA GWYFILE_ERROR_DUPLICATE_NAME))"
proof -
  have "object_cells st object = Some oc \<and> item_cells st item = Some ic \<and> c_owner ic = None
      \<and> (\<forall>a\<in>set (o_items oc). item_cells st a \<noteq> None)
      \<and> (\<exists>a\<in>set (o_items oc). \<exists>c. item_cells st a = Some c \<and> c_name c = c_name ic)
    \<longrightarrow> map_option fst (gwyfile_object_add st object item) = Some False"
    using add_duplicate[of st object oc item ic] by auto
  moreover have "gwyfile_object_add st object item = Some (added, st')
      \<and> item_names st object = Some names \<and> distinct names
    \<longrightarrow> (\<exists>names'. item_names st' object = Some names' \<and> distinct names')"
    using add_keeps_distinct[of st object item added st' names] by blast
  moreover have "gwyfile_object_fread_internal max_depth mem stream max_size depth
      = Inr (object', rest) \<longrightarrow> distinct (map item_name (object_items object'))"
    using fread_names_distinct by blast
  moreover have "depth < max_depth
      \<and> gwyfile_fread_string stream max_size = Inr (name, m1, s1)
      \<and> gwyfile_check_size m1 4 = Inr m2
      \<and> gwyfile_fread_le 4 1 s1 = Some (bs, s2)
      \<and> le_nat bs \<le> m2
      \<and> fread_object_items max_depth mem s2 (le_nat bs) depth (gwyfile_object_new_internal name)
          = Inr (ob1, rest1)
      \<and> \<not> distinct (map item_name (object_items ob1))
    \<longrightarrow> gwyfile_object_fread_internal max_depth mem stream max_size depth =
          Inl (GwyfileError GWYFILE_ERROR_DOMAIN_DATA GWYFILE_ERROR_DUPLICATE_NAME)"
    using fread_duplicate_name[of depth max_depth stream max_size name m1 s1 m2 bs s2 mem ob1 rest1]
    by blast
  ultimately show ?thesis by blast
qed

theorem item_names_unique_witness:
  "gwyfile_object_add example_store 0 1 = Some (False, example_store)
   \<and> map_option
         (\<lambda>(added, st'). (added, map_option o_items (object_cells st' 0),
            map_option c_name (item_cells st' 0), map_option c_name (item_cells st' 2)))
         (gwyfile_object_add example_store 0 2)
       = Some (True, Some [0, 2], Some [0x78], Some [0x79])
   \<and> gwyfile_object_fread_internal 200 (\<lambda>_. 0)
        [0x54, 0, 8, 0, 0, 0, 0x78, 0, 0x62, 1, 0x79, 0, 0x63, 0x41] 100 0
       = Inr (GwyfileObject [0x54] 1
               [GwyfileItem 0 [0x78] 1 True 1 (Vb True), GwyfileItem 0 [0x79] 1 True 1 (Vc 0x41)] 8,
              [])
   \<and> fread_object_items 200 (\<lambda>_. 0) [0x78, 0, 0x62, 1, 0x78, 0, 0x63, 0x41] 8 0
        (gwyfile_object_new_internal [0x54])
       = Inr (GwyfileObject [0x54] 1
               [GwyfileItem 0 [0x78] 1 True 1 (Vb True), GwyfileItem 0 [0x78] 1 True 1 (Vc 0x41)] 8,
              [])
   \<and> gwyfile_object_fread_internal 200 (\<lambda>_. 0)
        [0x54, 0, 8, 0, 0, 0, 0x78, 0, 0x62, 1, 0x78, 0, 0x63, 0x41] 100 0
       = Inl (GwyfileError GWYFILE_ERROR_DOMAIN_DATA GWYFILE_ERROR_DUPLICATE_NAME)
   \<and> gwyfile_fread (\<lambda>_. 0)
        [0x47, 0x57, 0x59, 0x50, 0x54, 0, 8, 0, 0, 0, 0x78, 0, 0x62, 1, 0x78, 0, 0x63, 0x41] SIZE_MAX
       = Inl (GwyfileError GWYFILE_ERROR_DOMAIN_DATA GWYFILE_ERROR_DUPLICATE_NAME)"
  using
    item_names_unique[where st = example_store and object = 0 and item = 1
      and oc = "\<lparr>o_owner = None, o_name = [0x4F], o_name_len = 1, o_items = [0], o_data_size = 4\<rparr>"
      and ic = "\<lparr>c_type = GWYFILE_ITEM_CHAR, c_array_length = 0,
         c_name = [0x78], c_name_len = 1, c_data_owned = True, c_owner = None, c_data_size = 1,
         c_v = Cc 0x41\<rparr>"
      and added = False and st' = example_store and names = "[[0x78]]"
      and max_depth = 200 and mem = "\<lambda>_. 0" and depth = 0 and max_size = 100
      and stream = "[0x54, 0, 8, 0, 0, 0, 0x78, 0, 0x62, 1, 0x79, 0, 0x63, 0x41]"
      and object' = "GwyfileObject [0x54] 1
               [GwyfileItem 0 [0x78] 1 True 1 (Vb True), GwyfileItem 0 [0x79] 1 True 1 (Vc 0x41)] 8"
      and rest = "[]"]
    item_names_unique[where st = example_store and object = 0 and item = 2
      and added = True and st' = "snd (the (gwyfile_object_add example_store 0 2))"
      and names = "[[0x78]]"
      and max_depth = 200 and mem = "\<lambda>_. 0" and depth = 0 and max_size = 100
      and stream = "[0x54, 0, 8, 0, 0, 0, 0x78, 0, 0x62, 1, 0x78, 0, 0x63, 0x41]"
      and name = "[0x54]" and ?m1.0 = 98
      and ?s1.0 = "[8, 0, 0, 0, 0x78, 0, 0x62, 1, 0x78, 0, 0x63, 0x41]"
      and ?m2.0 = 94 and bs = "[8, 0, 0, 0]"
      and ?s2.0 = "[0x78, 0, 0x62, 1, 0x78, 0, 0x63, 0x41]"
      and ?ob1.0 = "GwyfileObject [0x54] 1
               [GwyfileItem 0 [0x78] 1 True 1 (Vb True), GwyfileItem 0 [0x78] 1 True 1 (Vc 0x41)] 8"
      and ?rest1.0 = "[]"]
  by (simp add: example_store_def item_names_def store_eval fread_eval)


subsection \<open>Item sizes at the interface edge\<close>






subsection \<open>The checks of the code and the rules of the specification\<close>

lemma byte_and_high: "(b::8 word) AND NOT (mask n) = push_bit n (drop_bit n b)"
  by (rule bit_eqI) (auto simp: bit_simps)

lemma unat_byte_and_high: "unat ((b::8 word) AND NOT (mask n)) = 2 ^ n * (unat b div 2 ^ n)"
proof -
  have "2 ^ n * (unat b div 2 ^ n) \<le> unat b" by simp
  moreover have "unat b < 2 ^ 8" using unsigned_less[of b] by simp
  ultimately have lt: "2 ^ n * (unat b div 2 ^ n) < (2::nat) ^ 8" by linarith
  have "unat (push_bit n (drop_bit n b)) = take_bit 8 (push_bit n (drop_bit n (unat b)))"
    by (simp add: unsigned_push_bit_eq unat_drop_bit_eq)
  also have "push_bit n (drop_bit n (unat b)) = 2 ^ n * (unat b div 2 ^ n)"
    by (simp add: push_bit_eq_mult drop_bit_eq_div)
  also have "take_bit 8 (2 ^ n * (unat b div 2 ^ n)) = 2 ^ n * (unat b div 2 ^ n)"
    using lt by (simp add: take_bit_nat_eq_self)
  finally show ?thesis by (simp only: byte_and_high)
qed

lemma high_masks:
  "NOT (mask 7) = (0x80::8 word)" "NOT (mask 6) = (0xc0::8 word)" "NOT (mask 5) = (0xe0::8 word)"
  "NOT (mask 4) = (0xf0::8 word)" "NOT (mask 3) = (0xf8::8 word)" "NOT (mask 2) = (0xfc::8 word)"
  "NOT (mask 1) = (0xfe::8 word)"
  by (simp_all add: mask_eq_exp_minus_1 not_eq_complement)

lemma unat_and_masks:
  fixes b :: byte
  shows "unat (b AND 0x80) = 128 * (unat b div 128)"
    and "unat (b AND 0xc0) = 64 * (unat b div 64)"
    and "unat (b AND 0xe0) = 32 * (unat b div 32)"
    and "unat (b AND 0xf0) = 16 * (unat b div 16)"
    and "unat (b AND 0xf8) = 8 * (unat b div 8)"
    and "unat (b AND 0xfc) = 4 * (unat b div 4)"
    and "unat (b AND 0xfe) = 2 * (unat b div 2)"
  using unat_byte_and_high[of b 7] unat_byte_and_high[of b 6] unat_byte_and_high[of b 5]
    unat_byte_and_high[of b 4] unat_byte_and_high[of b 3] unat_byte_and_high[of b 2]
    unat_byte_and_high[of b 1]
  unfolding high_masks by simp_all

lemma byte_ranges:
  fixes b :: byte
  shows "b AND 0x80 = 0 \<longleftrightarrow> unat b \<le> 0x7F"
    and "b AND 0xe0 = 0xc0 \<longleftrightarrow> 0xC0 \<le> unat b \<and> unat b \<le> 0xDF"
    and "b AND 0xf0 = 0xe0 \<longleftrightarrow> 0xE0 \<le> unat b \<and> unat b \<le> 0xEF"
    and "b AND 0xf8 = 0xf0 \<longleftrightarrow> 0xF0 \<le> unat b \<and> unat b \<le> 0xF7"
    and "b AND 0xfc = 0xf8 \<longleftrightarrow> 0xF8 \<le> unat b \<and> unat b \<le> 0xFB"
    and "b AND 0xfe = 0xfc \<longleftrightarrow> 0xFC \<le> unat b \<and> unat b \<le> 0xFD"
    and "b AND 0xc0 = 0x80 \<longleftrightarrow> 0x80 \<le> unat b \<and> unat b \<le> 0xBF"
proof -
  have lt: "unat b < 256" using unsigned_less[of b] by simp
  show "b AND 0x80 = 0 \<longleftrightarrow> unat b \<le> 0x7F"
    using unat_and_masks(1)[of b] lt by (auto simp: word_unat_eq_iff)
  show "b AND 0xe0 = 0xc0 \<longleftrightarrow> 0xC0 \<le> unat b \<and> unat b \<le> 0xDF"
    using unat_and_masks(3)[of b] lt by (auto simp: word_unat_eq_iff)
  show "b AND 0xf0 = 0xe0 \<longleftrightarrow> 0xE0 \<le> unat b \<and> unat b \<le> 0xEF"
    using unat_and_masks(4)[of b] lt by (auto simp: word_unat_eq_iff)
  show "b AND 0xf8 = 0xf0 \<longleftrightarrow> 0xF0 \<le> unat b \<and> unat b \<le> 0xF7"
    using unat_and_masks(5)[of b] lt by (auto simp: word_unat_eq_iff)
  show "b AND 0xfc = 0xf8 \<longleftrightarrow> 0xF8 \<le> unat b \<and> unat b \<le> 0xFB"
    using unat_and_masks(6)[of b] lt by (auto simp: word_unat_eq_iff)
  show "b AND 0xfe = 0xfc \<longleftrightarrow> 0xFC \<le> unat b \<and> unat b \<le> 0xFD"
    using unat_and_masks(7)[of b] lt by (auto simp: word_unat_eq_iff)
  show "b AND 0xc0 = 0x80 \<longleftrightarrow> 0x80 \<le> unat b \<and> unat b \<le> 0xBF"
    using unat_and_masks(2)[of b] lt by (auto simp: word_unat_eq_iff)
qed

lemma utf8_loop_continuation:
  "0 < k \<Longrightarrow> utf8_loop k s =
     (k \<le> length s \<and> list_all spec_continuation_byte (take k s) \<and> utf8_loop 0 (drop k s))"
proof (induction k arbitrary: s)
  case 0
  then show ?case by simp
next
  case (Suc k)
  show ?case
  proof (cases s)
    case Nil
    then show ?thesis by simp
  next
    case (Cons b s')
    show ?thesis
    proof (cases "k = 0")
      case True
      with Cons show ?thesis by (auto simp: byte_ranges spec_continuation_byte_def)
    next
      case False
      with Cons Suc.IH[of s'] show ?thesis
        by (auto simp: byte_ranges spec_continuation_byte_def)
    qed
  qed
qed

lemma utf8_loop_spec: "utf8_loop 0 s = spec_valid_utf8 s"
proof (induction s rule: spec_valid_utf8.induct)
  case 1
  show ?case by simp
next
  case (2 b s)
  show ?case
  proof (cases "spec_sequence_length b")
    case None
    then show ?thesis
      by (auto simp: spec_sequence_length_def byte_ranges split: if_splits)
  next
    case (Some n)
    note IH = 2[OF Some]
    show ?thesis
    proof (cases "n = 1")
      case True
      with Some IH show ?thesis
        by (auto simp: spec_sequence_length_def byte_ranges split: if_splits)
    next
      case False
      with Some have n: "n \<in> {2, 3, 4, 5, 6}"
        by (auto simp: spec_sequence_length_def split: if_splits)
      have "utf8_loop 0 (b # s) = utf8_loop (n - 1) s"
        using Some n by (auto simp: spec_sequence_length_def byte_ranges split: if_splits)
      also have "\<dots> = (n - 1 \<le> length s \<and> list_all spec_continuation_byte (take (n - 1) s)
          \<and> utf8_loop 0 (drop (n - 1) s))"
        using n by (intro utf8_loop_continuation) auto
      finally show ?thesis using Some IH by simp
    qed
  qed
qed

lemma gwyfile_is_valid_utf8_spec: "gwyfile_is_valid_utf8 s = spec_valid_utf8 s"
  by (simp add: gwyfile_is_valid_utf8_def utf8_loop_spec)

lemma is_letter_spec: "is_letter c = spec_first_char c"
  by (simp add: is_letter_def spec_first_char_def spec_in_range_def word_le_nat_alt)

lemma is_ident_char_spec: "is_ident_char c = spec_next_char c"
  by (simp add: is_ident_char_def spec_next_char_def spec_in_range_def word_le_nat_alt
      word_unat_eq_iff)

lemma gwyfile_is_valid_identifier_spec: "gwyfile_is_valid_identifier s = spec_identifier s"
  by (cases s) (simp_all add: spec_identifier_def is_letter_spec is_ident_char_spec list_all_iff)

lemma biased_exponent_spec: "unat (biased_exponent x) = spec_exponent x"
proof -
  have "unat (biased_exponent x) = take_bit 11 (drop_bit 52 (unat x))"
    by (simp only: biased_exponent_def unsigned_take_bit_eq unat_drop_bit_eq)
  then show ?thesis
    by (simp add: spec_exponent_def take_bit_eq_mod drop_bit_eq_div)
qed

lemma gwyfile_double_isnormal_spec: "gwyfile_double_isnormal x = (\<not> spec_nan_or_infinite x)"
proof -
  have "biased_exponent x = 0x7ff \<longleftrightarrow> unat (biased_exponent x) = 0x7FF"
    by (simp add: word_unat_eq_iff)
  then show ?thesis
    by (auto simp: gwyfile_double_isnormal_def spec_nan_or_infinite_def spec_nan_def
        spec_infinite_def biased_exponent_spec)
qed

subsection \<open>The checker\<close>

lemma append_violation_eq:
  "append_violation d c errlist = (False, map_option (\<lambda>errors. errors @ [GwyfileError d c]) errlist)"
  by (cases errlist) (simp_all add: append_violation_def gwyfile_error_list_append_def)

lemma map_option_append_Nil: "map_option (\<lambda>errors. errors) errlist = errlist"
  by (cases errlist) simp_all

lemma gwyfile_check_valid_utf8_eq:
  "gwyfile_check_valid_utf8 s c errlist =
     (spec_valid_utf8 s,
      map_option (\<lambda>errors. errors @ (if spec_valid_utf8 s then []
         else [GwyfileError GWYFILE_ERROR_DOMAIN_VALIDITY c])) errlist)"
  by (simp add: gwyfile_check_valid_utf8_def append_violation_eq map_option_append_Nil
      gwyfile_is_valid_utf8_spec)

lemma gwyfile_check_valid_identifier_eq:
  "gwyfile_check_valid_identifier s errlist =
     (spec_identifier s,
      map_option (\<lambda>errors. errors @ (if spec_identifier s then []
         else [GwyfileError GWYFILE_ERROR_DOMAIN_WARNING GWYFILE_WARNING_TYPE_IDENTIFIER])) errlist)"
  by (simp add: gwyfile_check_valid_identifier_def append_violation_eq map_option_append_Nil
      gwyfile_is_valid_identifier_spec)

lemma gwyfile_check_nonempty_name_eq:
  "gwyfile_check_nonempty_name s errlist =
     (s \<noteq> [],
      map_option (\<lambda>errors. errors @ (if s \<noteq> [] then []
         else [GwyfileError GWYFILE_ERROR_DOMAIN_WARNING GWYFILE_WARNING_EMPTY_NAME])) errlist)"
  by (simp add: gwyfile_check_nonempty_name_def append_violation_eq map_option_append_Nil)

lemma gwyfile_check_double_eq:
  "gwyfile_check_double x errlist =
     (\<not> spec_nan_or_infinite x,
      map_option (\<lambda>errors. errors @ (if spec_nan_or_infinite x
         then [GwyfileError GWYFILE_ERROR_DOMAIN_VALIDITY GWYFILE_INVALID_DOUBLE] else [])) errlist)"
  by (simp add: gwyfile_check_double_def append_violation_eq map_option_append_Nil
      gwyfile_double_isnormal_spec)

lemma check_strings_eq:
  "check_strings n sa errlist =
     (errlist \<noteq> None \<or> filter (\<lambda>s. \<not> spec_valid_utf8 s) (take n sa) = [],
      map_option (\<lambda>errors. errors @
        map (\<lambda>s. GwyfileError GWYFILE_ERROR_DOMAIN_VALIDITY GWYFILE_INVALID_UTF8_STRING)
          (filter (\<lambda>s. \<not> spec_valid_utf8 s) (take n sa))) errlist)"
proof (induction n sa errlist rule: check_strings.induct)
  case (3 n s sa errlist)
  show ?case
    by (cases errlist)
      (simp_all add: gwyfile_check_valid_utf8_eq 3 map_option_append_Nil)
qed (simp_all add: map_option_append_Nil)

lemma check_doubles_eq:
  "check_doubles n da errlist =
     (errlist \<noteq> None \<or> filter spec_nan_or_infinite (take n da) = [],
      map_option (\<lambda>errors. errors @
        map (\<lambda>x. GwyfileError GWYFILE_ERROR_DOMAIN_VALIDITY GWYFILE_INVALID_DOUBLE)
          (filter spec_nan_or_infinite (take n da))) errlist)"
proof (induction n da errlist rule: check_doubles.induct)
  case (3 n x da errlist)
  show ?case
    by (cases errlist)
      (simp_all add: gwyfile_check_double_eq 3 map_option_append_Nil)
qed (simp_all add: map_option_append_Nil)

lemma check_value_eq:
  "check_value array_length val errlist =
     (errlist \<noteq> None \<or> spec_value_violations array_length val = [],
      map_option (\<lambda>errors. errors @ spec_value_violations array_length val) errlist)"
  by (cases val; cases errlist)
    (simp_all add: check_value_def spec_value_violations_def gwyfile_check_valid_utf8_eq
      gwyfile_check_double_eq check_strings_eq check_doubles_eq)


lemma check_items_eq:
  assumes "\<And>item errlist. item \<in> set items \<Longrightarrow>
      gwyfile_check_item_internal item flags errlist =
        (spec_item_violations V W item = [],
         map_option (\<lambda>errors. errors @ spec_item_violations V W item) errlist)"
  shows "check_items items flags errlist =
     (errlist \<noteq> None \<or> concat (map (spec_item_violations V W) items) = [],
      map_option (\<lambda>errors. errors @ concat (map (spec_item_violations V W) items)) errlist)"
  using assms
proof (induction items arbitrary: errlist)
  case Nil
  show ?case by (simp add: map_option_append_Nil)
next
  case (Cons item items)
  show ?case
    by (cases errlist) (simp_all add: Cons)
qed

lemma check_objects_eq:
  assumes "\<And>object errlist. object \<in> set oa \<Longrightarrow>
      gwyfile_check_object_internal object flags errlist =
        (spec_object_violations V W object = [],
         map_option (\<lambda>errors. errors @ spec_object_violations V W object) errlist)"
  shows "check_objects n oa flags errlist =
     (errlist \<noteq> None \<or> concat (map (spec_object_violations V W) (take n oa)) = [],
      map_option (\<lambda>errors. errors @ concat (map (spec_object_violations V W) (take n oa)))
        errlist)"
  using assms
proof (induction oa arbitrary: n errlist)
  case Nil
  show ?case by (cases n) (simp_all add: map_option_append_Nil)
next
  case (Cons object oa)
  show ?case
  proof (cases n)
    case 0
    then show ?thesis by (simp add: map_option_append_Nil)
  next
    case (Suc m)
    then show ?thesis
      by (cases errlist) (simp_all add: Cons)
  qed
qed

lemma check_internal_eq:
  fixes flags :: "32 word"
  defines "V \<equiv> flags AND GWYFILE_CHECK_FLAG_VALIDITY \<noteq> 0"
    and "W \<equiv> flags AND GWYFILE_CHECK_FLAG_WARNING \<noteq> 0"
  shows "(case val of
            Vo object \<Rightarrow> \<forall>errlist. gwyfile_check_object_internal object flags errlist =
              (spec_object_violations V W object = [],
               map_option (\<lambda>errors. errors @ spec_object_violations V W object) errlist)
          | Voa oa \<Rightarrow> \<forall>object\<in>set oa. \<forall>errlist.
              gwyfile_check_object_internal object flags errlist =
              (spec_object_violations V W object = [],
               map_option (\<lambda>errors. errors @ spec_object_violations V W object) errlist)
          | _ \<Rightarrow> True)"
    and "\<forall>errlist. gwyfile_check_item_internal item flags errlist =
        (spec_item_violations V W item = [],
         map_option (\<lambda>errors. errors @ spec_item_violations V W item) errlist)"
    and "\<forall>errlist. gwyfile_check_object_internal object flags errlist =
        (spec_object_violations V W object = [],
         map_option (\<lambda>errors. errors @ spec_object_violations V W object) errlist)"
proof (induction val and item and object)
  case (GwyfileItem array_length name name_len data_owned data_size val)
  show ?case
  proof
    fix errlist
    show "gwyfile_check_item_internal
            (GwyfileItem array_length name name_len data_owned data_size val) flags errlist =
        (spec_item_violations V W
            (GwyfileItem array_length name name_len data_owned data_size val) = [],
         map_option (\<lambda>errors. errors @ spec_item_violations V W
            (GwyfileItem array_length name name_len data_owned data_size val)) errlist)"
    proof (cases val)
      case (Vo object)
      with GwyfileItem show ?thesis
        by (cases errlist)
          (auto simp: gwyfile_check_item_internal.simps gwyfile_check_valid_utf8_eq
            gwyfile_check_nonempty_name_eq check_value_eq V_def W_def error_list_n_def)
    next
      case (Voa oa)
      with GwyfileItem have "\<And>n errlist. check_objects n oa flags errlist =
         (errlist \<noteq> None \<or> concat (map (spec_object_violations V W) (take n oa)) = [],
          map_option (\<lambda>errors. errors @ concat (map (spec_object_violations V W) (take n oa)))
            errlist)"
        by (intro check_objects_eq) simp
      with Voa show ?thesis
        by (cases errlist)
          (auto simp: gwyfile_check_item_internal.simps gwyfile_check_valid_utf8_eq
            gwyfile_check_nonempty_name_eq check_value_eq V_def W_def error_list_n_def)
    qed (cases errlist;
         auto simp: gwyfile_check_item_internal.simps gwyfile_check_valid_utf8_eq
            gwyfile_check_nonempty_name_eq check_value_eq V_def W_def error_list_n_def)+
  qed
next
  case (GwyfileObject name name_len items data_size)
  then have items: "\<And>errlist. check_items items flags errlist =
     (errlist \<noteq> None \<or> concat (map (spec_item_violations V W) items) = [],
      map_option (\<lambda>errors. errors @ concat (map (spec_item_violations V W) items)) errlist)"
    by (intro check_items_eq) simp
  show ?case
  proof
    fix errlist
    show "gwyfile_check_object_internal (GwyfileObject name name_len items data_size) flags errlist =
        (spec_object_violations V W (GwyfileObject name name_len items data_size) = [],
         map_option (\<lambda>errors. errors @ spec_object_violations V W
            (GwyfileObject name name_len items data_size)) errlist)"
      by (cases errlist)
        (auto simp: gwyfile_check_object_internal.simps gwyfile_check_valid_utf8_eq
          gwyfile_check_valid_identifier_eq items V_def W_def error_list_n_def)
  qed
qed simp_all

lemma flags_mask:
  fixes flags :: "32 word"
  shows "(flags AND (GWYFILE_CHECK_FLAG_VALIDITY OR GWYFILE_CHECK_FLAG_WARNING))
            AND GWYFILE_CHECK_FLAG_VALIDITY = flags AND GWYFILE_CHECK_FLAG_VALIDITY"
    and "(flags AND (GWYFILE_CHECK_FLAG_VALIDITY OR GWYFILE_CHECK_FLAG_WARNING))
            AND GWYFILE_CHECK_FLAG_WARNING = flags AND GWYFILE_CHECK_FLAG_WARNING"
    and "flags AND (GWYFILE_CHECK_FLAG_VALIDITY OR GWYFILE_CHECK_FLAG_WARNING) = 0
          \<longleftrightarrow> flags AND GWYFILE_CHECK_FLAG_VALIDITY = 0 \<and> flags AND GWYFILE_CHECK_FLAG_WARNING = 0"
proof -
  show "(flags AND (GWYFILE_CHECK_FLAG_VALIDITY OR GWYFILE_CHECK_FLAG_WARNING))
            AND GWYFILE_CHECK_FLAG_VALIDITY = flags AND GWYFILE_CHECK_FLAG_VALIDITY"
    by (rule bit_eqI) (auto simp: bit_and_iff bit_or_iff)
  show "(flags AND (GWYFILE_CHECK_FLAG_VALIDITY OR GWYFILE_CHECK_FLAG_WARNING))
            AND GWYFILE_CHECK_FLAG_WARNING = flags AND GWYFILE_CHECK_FLAG_WARNING"
    by (rule bit_eqI) (auto simp: bit_and_iff bit_or_iff)
  show "flags AND (GWYFILE_CHECK_FLAG_VALIDITY OR GWYFILE_CHECK_FLAG_WARNING) = 0
          \<longleftrightarrow> flags AND GWYFILE_CHECK_FLAG_VALIDITY = 0 \<and> flags AND GWYFILE_CHECK_FLAG_WARNING = 0"
    by (simp add: bit.conj_disj_distrib or_eq_0_iff)
qed

lemma no_category_no_violation:
  shows "(case val of
            Vo object \<Rightarrow> spec_object_violations False False object = []
          | Voa oa \<Rightarrow> \<forall>object\<in>set oa. spec_object_violations False False object = []
          | _ \<Rightarrow> True)"
    and "spec_item_violations False False item = []"
    and "spec_object_violations False False object = []"
proof (induction val and item and object)
  case (GwyfileItem array_length name name_len data_owned data_size val)
  then show ?case
    by (cases val) (auto dest: in_set_takeD)
qed simp_all

lemma gwyfile_check_object_eq:
  "gwyfile_check_object object flags errlist =
     (spec_violations flags object = [],
      map_option (\<lambda>errors. errors @ spec_violations flags object) errlist)"
proof (cases "flags AND (GWYFILE_CHECK_FLAG_VALIDITY OR GWYFILE_CHECK_FLAG_WARNING) = 0")
  case True
  then have "spec_violations flags object = []"
    by (simp add: flags_mask spec_violations_def no_category_no_violation)
  with True show ?thesis
    by (simp add: gwyfile_check_object_def map_option_append_Nil)
next
  case False
  then show ?thesis
    using check_internal_eq(3)[where object = object
        and flags = "flags AND (GWYFILE_CHECK_FLAG_VALIDITY OR GWYFILE_CHECK_FLAG_WARNING)"]
    by (auto simp add: gwyfile_check_object_def flags_mask spec_violations_def)
qed

lemmas spec_eval = spec_violations_def spec_value_violations_def
  spec_sequence_length_def spec_continuation_byte_def
  spec_identifier_def spec_first_char_def spec_next_char_def spec_in_range_def
  spec_nan_or_infinite_def spec_nan_def spec_infinite_def spec_exponent_def spec_fraction_def

text \<open>
  Claim C8 (\<^verbatim>\<open>gwyfile_check_object\<close> returns true iff there is no violation in the selected
  categories).  The violations are those of the rules of the specification
  (\<open>spec_violations\<close>: sequences of one to six bytes for UTF-8, the pattern of an
  identifier, NaN and infinity by the fields of the IEEE format, the empty name).  With a
  null error list and with a non-null one the result is the same, namely whether the list
  of violations is empty; a non-null list receives all the violations, appended to the
  errors it held.  For the object whose single item is named
  \<^verbatim>\<open>"\xC3\x28"\<close>: with the \<^verbatim>\<open>VALIDITY\<close> flag the check returns false and appends exactly one
  error, \<^verbatim>\<open>INVALID_UTF8_NAME\<close> in domain \<^verbatim>\<open>VALIDITY\<close>; without that flag it returns true and
  appends nothing.
\<close>

theorem gwyfile_check_object_iff_no_violation:
  "gwyfile_check_object object flags None = (spec_violations flags object = [], None)
   \<and> gwyfile_check_object object flags (Some errors)
       = (spec_violations flags object = [], Some (errors @ spec_violations flags object))
   \<and> (flags AND GWYFILE_CHECK_FLAG_VALIDITY \<noteq> 0 \<longrightarrow>
        gwyfile_check_object invalid_name_object flags (Some errors)
          = (False, Some (errors @
               [GwyfileError GWYFILE_ERROR_DOMAIN_VALIDITY GWYFILE_INVALID_UTF8_NAME]))
        \<and> gwyfile_check_object invalid_name_object flags None = (False, None))
   \<and> (flags AND GWYFILE_CHECK_FLAG_VALIDITY = 0 \<longrightarrow>
        gwyfile_check_object invalid_name_object flags (Some errors) = (True, Some errors)
        \<and> gwyfile_check_object invalid_name_object flags None = (True, None))"
  by (simp add: gwyfile_check_object_eq invalid_name_object_def spec_eval)

theorem gwyfile_check_object_iff_no_violation_witness:
  "GWYFILE_CHECK_FLAG_VALIDITY AND GWYFILE_CHECK_FLAG_VALIDITY \<noteq> 0
   \<and> gwyfile_check_object invalid_name_object GWYFILE_CHECK_FLAG_VALIDITY (Some [])
       = (False, Some [GwyfileError GWYFILE_ERROR_DOMAIN_VALIDITY GWYFILE_INVALID_UTF8_NAME])
   \<and> gwyfile_check_object invalid_name_object GWYFILE_CHECK_FLAG_VALIDITY None = (False, None)
   \<and> GWYFILE_CHECK_FLAG_WARNING AND GWYFILE_CHECK_FLAG_VALIDITY = 0
   \<and> gwyfile_check_object invalid_name_object GWYFILE_CHECK_FLAG_WARNING (Some []) = (True, Some [])
   \<and> gwyfile_check_object invalid_name_object GWYFILE_CHECK_FLAG_WARNING None = (True, None)
   \<and> spec_violations 12 many_violations_object =
        [GwyfileError GWYFILE_ERROR_DOMAIN_WARNING GWYFILE_WARNING_TYPE_IDENTIFIER,
         GwyfileError GWYFILE_ERROR_DOMAIN_WARNING GWYFILE_WARNING_EMPTY_NAME,
         GwyfileError GWYFILE_ERROR_DOMAIN_VALIDITY GWYFILE_INVALID_DOUBLE,
         GwyfileError GWYFILE_ERROR_DOMAIN_VALIDITY GWYFILE_INVALID_UTF8_STRING,
         GwyfileError GWYFILE_ERROR_DOMAIN_VALIDITY GWYFILE_INVALID_UTF8_TYPE,
         GwyfileError GWYFILE_ERROR_DOMAIN_WARNING GWYFILE_WARNING_TYPE_IDENTIFIER]
   \<and> gwyfile_check_object many_violations_object 12 None = (False, None)
   \<and> gwyfile_check_object many_violations_object 12 (Some []) =
        (False, Some
        [GwyfileError GWYFILE_ERROR_DOMAIN_WARNING GWYFILE_WARNING_TYPE_IDENTIFIER,
         GwyfileError GWYFILE_ERROR_DOMAIN_WARNING GWYFILE_WARNING_EMPTY_NAME,
         GwyfileError GWYFILE_ERROR_DOMAIN_VALIDITY GWYFILE_INVALID_DOUBLE,
         GwyfileError GWYFILE_ERROR_DOMAIN_VALIDITY GWYFILE_INVALID_UTF8_STRING,
         GwyfileError GWYFILE_ERROR_DOMAIN_VALIDITY GWYFILE_INVALID_UTF8_TYPE,
         GwyfileError GWYFILE_ERROR_DOMAIN_WARNING GWYFILE_WARNING_TYPE_IDENTIFIER])"
  using gwyfile_check_object_iff_no_violation[of invalid_name_object GWYFILE_CHECK_FLAG_VALIDITY "[]"]
    gwyfile_check_object_iff_no_violation[of invalid_name_object GWYFILE_CHECK_FLAG_WARNING "[]"]
    gwyfile_check_object_iff_no_violation[of many_violations_object 12 "[]"]
  by (simp add: invalid_name_object_def many_violations_object_def spec_eval
      GWYFILE_CHECK_FLAG_VALIDITY_def GWYFILE_CHECK_FLAG_WARNING_def)

end
